theory Spec2Isabelle
  imports Main "HOL-Library.Word" "HOL-Library.Sublist"
begin

unbundle bit_operations_syntax

section \<open>Machine types and Qt string helpers\<close>

type_synonym u8 = "8 word"
type_synonym u16 = "16 word"
type_synonym u32 = "32 word"
type_synonym u64 = "64 word"

text \<open>A \<open>QByteArray\<close> is the list of its bytes; a \<open>QString\<close> is a \<open>string\<close>.\<close>

type_synonym QByteArray = "u8 list"

text \<open>
  \<open>constData()[i]\<close>. A \<open>QByteArray\<close> that owns its data keeps a zero byte
  after its contents, which is what index \<open>size()\<close> reads; no index beyond that
  is ever read by the code modelled here.
\<close>

definition byteAt :: "QByteArray \<Rightarrow> nat \<Rightarrow> u8" where
  "byteAt data i = (if i < length data then data ! i else 0)"

text \<open>
  \<open>QByteArray::resize(size)\<close>: a negative size counts as 0; the array is cut, or
  extended (zero bytes stand for the new ones). The code passes sizes through
  \<open>static_cast<int>\<close>, hence the \<open>int\<close>.
\<close>

definition resize :: "int \<Rightarrow> QByteArray \<Rightarrow> QByteArray" where
  "resize n data = take (nat n) data @ replicate (nat n - length data) 0"

text \<open>Digits of a number in a base up to 16, most significant first.\<close>

definition digit_char :: "nat \<Rightarrow> char" where
  "digit_char d = ''0123456789abcdef'' ! d"

fun digits :: "nat \<Rightarrow> nat \<Rightarrow> string" where
  "digits b n =
     (if b < 2 \<or> n < b then [digit_char n]
      else digits b (n div b) @ [digit_char (n mod b)])"

declare digits.simps [simp del]

text \<open>\<open>QString::number(qulonglong)\<close> and \<open>QString::number(qlonglong)\<close>, base 10.\<close>

definition number_u :: "nat \<Rightarrow> string" where
  "number_u n = digits 10 n"

definition number_i :: "int \<Rightarrow> string" where
  "number_i n = (if n < 0 then CHR ''-'' # digits 10 (nat (- n)) else digits 10 (nat n))"

text \<open>
  \<open>QString::arg(int a, int fieldWidth, int base, QChar fillChar)\<close> as the code calls
  it: width 2, base 16, fill \<open>'0'\<close>. For a base other than 10 Qt prints the
  \<open>int\<close> as the unsigned 32-bit value.
\<close>

definition arg_hex2 :: "int \<Rightarrow> string" where
  "arg_hex2 a =
     (let ds = digits 16 (nat (a mod 2 ^ 32))
      in replicate (2 - length ds) CHR ''0'' @ ds)"

text \<open>
  \<open>QString::toLower\<close> on the ASCII strings the code handles (hex digests,
  flags, partition letters, uuids).
\<close>

definition toLower_char :: "char \<Rightarrow> char" where
  "toLower_char c =
     (case map_of (zip ''ABCDEFGHIJKLMNOPQRSTUVWXYZ'' ''abcdefghijklmnopqrstuvwxyz'') c of
        Some l \<Rightarrow> l
      | None \<Rightarrow> c)"

definition toLower :: "string \<Rightarrow> string" where
  "toLower s = map toLower_char s"

section \<open>SCSI command layer (device/ScsiCommand)\<close>

subsection \<open>Sense data\<close>

text \<open>
  \<open>enum class ScsiSenseKey : quint8\<close>. \<open>fromRawData\<close> casts a four-bit value to
  the enum, so a sense key is any \<open>quint8\<close>; the enumerators are named values
  (0x0C has no enumerator).
\<close>

definition SenseKey_NoSense :: u8 where [simp]: "SenseKey_NoSense = 0x00"
definition SenseKey_RecoveredError :: u8 where [simp]: "SenseKey_RecoveredError = 0x01"
definition SenseKey_NotReady :: u8 where [simp]: "SenseKey_NotReady = 0x02"
definition SenseKey_MediumError :: u8 where [simp]: "SenseKey_MediumError = 0x03"
definition SenseKey_HardwareError :: u8 where [simp]: "SenseKey_HardwareError = 0x04"
definition SenseKey_IllegalRequest :: u8 where [simp]: "SenseKey_IllegalRequest = 0x05"
definition SenseKey_UnitAttention :: u8 where [simp]: "SenseKey_UnitAttention = 0x06"
definition SenseKey_DataProtect :: u8 where [simp]: "SenseKey_DataProtect = 0x07"
definition SenseKey_BlankCheck :: u8 where [simp]: "SenseKey_BlankCheck = 0x08"
definition SenseKey_VendorSpecific :: u8 where [simp]: "SenseKey_VendorSpecific = 0x09"
definition SenseKey_CopyAborted :: u8 where [simp]: "SenseKey_CopyAborted = 0x0A"
definition SenseKey_AbortedCommand :: u8 where [simp]: "SenseKey_AbortedCommand = 0x0B"
definition SenseKey_VolumeOverflow :: u8 where [simp]: "SenseKey_VolumeOverflow = 0x0D"
definition SenseKey_Miscompare :: u8 where [simp]: "SenseKey_Miscompare = 0x0E"
definition SenseKey_Completed :: u8 where [simp]: "SenseKey_Completed = 0x0F"

record ScsiSenseData =
  valid :: bool
  senseKey :: u8
  additionalSenseCode :: u8
  additionalSenseCodeQualifier :: u8
  information :: u32
  rawData :: QByteArray

text \<open>The member initialisers of \<open>struct ScsiSenseData\<close>.\<close>

definition ScsiSenseData_default :: ScsiSenseData where
  "ScsiSenseData_default =
     \<lparr>valid = False, senseKey = SenseKey_NoSense, additionalSenseCode = 0,
      additionalSenseCodeQualifier = 0, information = 0, rawData = []\<rparr>"

text \<open>
  \<open>ScsiSenseData::fromRawData\<close>. The statements are kept in the order of the
  source: in the fixed format \<open>valid\<close> is first set from bit 7 of byte 0 and
  set to \<open>true\<close> at the end of the branch.
\<close>

definition fromRawData :: "QByteArray \<Rightarrow> ScsiSenseData" where
  "fromRawData data =
     (let sense = ScsiSenseData_default\<lparr>rawData := data\<rparr> in
      if length data < 8 then sense
      else
        let responseCode = byteAt data 0 AND 0x7F in
        if responseCode = 0x70 \<or> responseCode = 0x71 then
          let sense = sense\<lparr>valid := (byteAt data 0 AND 0x80 \<noteq> 0)\<rparr>;
              sense = sense\<lparr>senseKey := byteAt data 2 AND 0x0F\<rparr>;
              sense = sense\<lparr>information :=
                        push_bit 24 (ucast (byteAt data 3)) OR
                        push_bit 16 (ucast (byteAt data 4)) OR
                        push_bit 8 (ucast (byteAt data 5)) OR
                        ucast (byteAt data 6)\<rparr>;
              additionalLength = unat (byteAt data 7);
              sense =
                (if length data \<ge> 13 \<and> additionalLength \<ge> 6
                 then sense\<lparr>additionalSenseCode := byteAt data 12,
                            additionalSenseCodeQualifier := byteAt data 13\<rparr>
                 else sense)
          in sense\<lparr>valid := True\<rparr>
        else if responseCode = 0x72 \<or> responseCode = 0x73 then
          sense\<lparr>senseKey := byteAt data 1 AND 0x0F,
                additionalSenseCode := byteAt data 2,
                additionalSenseCodeQualifier := byteAt data 3,
                valid := True\<rparr>
        else sense)"

text \<open>
  The indices at which \<open>fromRawData\<close> reads \<open>bytes[...]\<close>, in the order of
  the source text, branch by branch.
\<close>

definition fromRawData_reads :: "QByteArray \<Rightarrow> nat list" where
  "fromRawData_reads data =
     (if length data < 8 then []
      else
        let responseCode = byteAt data 0 AND 0x7F in
        if responseCode = 0x70 \<or> responseCode = 0x71 then
          [0, 0, 2, 3, 4, 5, 6, 7] @
          (if length data \<ge> 13 \<and> unat (byteAt data 7) \<ge> 6 then [12, 13] else [])
        else if responseCode = 0x72 \<or> responseCode = 0x73 then [0, 1, 2, 3]
        else [0])"

text \<open>\<open>ScsiSenseData::toString\<close>; the switch leaves the name empty for 0x0C.\<close>

definition senseKeyStr :: "u8 \<Rightarrow> string" where
  "senseKeyStr k =
     (if k = SenseKey_NoSense then ''No Sense''
      else if k = SenseKey_RecoveredError then ''Recovered Error''
      else if k = SenseKey_NotReady then ''Not Ready''
      else if k = SenseKey_MediumError then ''Medium Error''
      else if k = SenseKey_HardwareError then ''Hardware Error''
      else if k = SenseKey_IllegalRequest then ''Illegal Request''
      else if k = SenseKey_UnitAttention then ''Unit Attention''
      else if k = SenseKey_DataProtect then ''Data Protect''
      else if k = SenseKey_BlankCheck then ''Blank Check''
      else if k = SenseKey_VendorSpecific then ''Vendor Specific''
      else if k = SenseKey_CopyAborted then ''Copy Aborted''
      else if k = SenseKey_AbortedCommand then ''Aborted Command''
      else if k = SenseKey_VolumeOverflow then ''Volume Overflow''
      else if k = SenseKey_Miscompare then ''Miscompare''
      else if k = SenseKey_Completed then ''Completed''
      else [])"

definition toString :: "ScsiSenseData \<Rightarrow> string" where
  "toString sense =
     (if \<not> valid sense then ''No sense data''
      else ''Sense Key: '' @ senseKeyStr (senseKey sense) @
           '', ASC: 0x'' @ arg_hex2 (uint (additionalSenseCode sense)) @
           '', ASCQ: 0x'' @ arg_hex2 (uint (additionalSenseCodeQualifier sense)))"

subsection \<open>Command results\<close>

record ScsiCommandResult =
  success :: bool
  hostStatus :: int
  driverStatus :: int
  scsiStatus :: int
  senseData :: ScsiSenseData
  data :: QByteArray
  bytesTransferred :: u32
  residual :: u32

definition ScsiCommandResult_default :: ScsiCommandResult where
  "ScsiCommandResult_default =
     \<lparr>success = False, hostStatus = 0, driverStatus = 0, scsiStatus = 0,
      senseData = ScsiSenseData_default, data = [], bytesTransferred = 0, residual = 0\<rparr>"

definition SCSI_STATUS_GOOD :: int where
  "SCSI_STATUS_GOOD = 0"

text \<open>\<open>ScsiCommandResult::errorMessage\<close>.\<close>

definition result_errorMessage :: "ScsiCommandResult \<Rightarrow> string" where
  "result_errorMessage r =
     (if success r then []
      else if hostStatus r \<noteq> 0 then ''Host error: '' @ number_i (hostStatus r)
      else if driverStatus r \<noteq> 0 then ''Driver error: '' @ number_i (driverStatus r)
      else if scsiStatus r \<noteq> SCSI_STATUS_GOOD then
        ''SCSI status: 0x'' @ arg_hex2 (scsiStatus r) @
        (if valid (senseData r) then '' - '' @ toString (senseData r) else [])
      else ''Unknown error'')"

subsection \<open>The SG_IO transport\<close>

text \<open>
  The Linux branch of \<open>ScsiCommand::Private::execute\<close> hands an \<open>sg_io_hdr_t\<close>
  to \<open>ioctl(fd, SG_IO, ...)\<close>. The header's input fields that the code sets are
  the record \<open>sg_io_hdr\<close> (pointers are modelled by what they point to); what the
  kernel and the drive write back is the record \<open>sg_reply\<close>: the return value
  and \<open>errno\<close>, the header's output fields, the sense buffer (252 bytes, zeroed
  before the call) and the data buffer, which keeps its length.
\<close>

datatype sg_dxfer = SG_DXFER_NONE | SG_DXFER_TO_DEV | SG_DXFER_FROM_DEV

record sg_io_hdr =
  cmd_len :: u8
  cmdp :: QByteArray
  mx_sb_len :: u8
  timeout :: u32
  dxfer_direction :: sg_dxfer
  dxferp :: QByteArray
  dxfer_len :: u32

record sg_reply =
  ret :: int
  errno :: int
  host_status :: u16
  driver_status :: u16
  io_status :: u8
  resid :: int
  sb_len_wr :: u8
  senseBuffer :: QByteArray
  dxfer_out :: QByteArray

text \<open>
  The other side of the file descriptor: the reply to the n-th \<open>ioctl\<close> of a run
  is \<open>replies n\<close>, and every header handed over is appended to \<open>issued\<close>. Any
  drive behaviour is some choice of \<open>replies\<close>.
\<close>

record Transport =
  replies :: "nat \<Rightarrow> sg_reply"
  issued :: "sg_io_hdr list"

definition ioctl_SG_IO :: "sg_io_hdr \<Rightarrow> Transport \<Rightarrow> sg_reply \<times> Transport" where
  "ioctl_SG_IO hdr tp = (replies tp (length (issued tp)), tp\<lparr>issued := issued tp @ [hdr]\<rparr>)"

datatype ScsiDataDirection = Direction_None | ToDevice | FromDevice

text \<open>\<open>ScsiCommand::Private\<close> on Linux (\<open>isOpen\<close> is \<open>fd >= 0\<close>).\<close>

record ScsiCommand =
  devicePath :: string
  timeoutSeconds :: int
  fd :: int

definition DEFAULT_TIMEOUT :: int where
  "DEFAULT_TIMEOUT = 60"

definition MAX_CDB_LENGTH :: int where
  "MAX_CDB_LENGTH = 16"

definition SENSE_BUFFER_SIZE :: nat where
  "SENSE_BUFFER_SIZE = 252"

definition ScsiCommand_new :: "string \<Rightarrow> ScsiCommand" where
  "ScsiCommand_new path = \<lparr>devicePath = path, timeoutSeconds = DEFAULT_TIMEOUT, fd = -1\<rparr>"

definition scsi_isOpen :: "ScsiCommand \<Rightarrow> bool" where
  "scsi_isOpen d = (fd d \<ge> 0)"

text \<open>
  \<open>ScsiCommand::Private::execute\<close>, Linux branch. It returns the result, the
  caller's data buffer after the call (the buffer is passed by reference) and the
  transport. Nothing in it looks at the length of \<open>cdb\<close> other than to store it,
  cut to \<open>unsigned char\<close>, in \<open>cmd_len\<close>.
\<close>

definition execute ::
  "ScsiCommand \<Rightarrow> QByteArray \<Rightarrow> ScsiDataDirection \<Rightarrow> QByteArray \<Rightarrow> u32 \<Rightarrow> Transport
     \<Rightarrow> ScsiCommandResult \<times> QByteArray \<times> Transport" where
  "execute d cdb direction buf dataLength tp =
     (let result = ScsiCommandResult_default in
      if \<not> scsi_isOpen d then (result\<lparr>success := False\<rparr>, buf, tp)
      else
        let buf = (if direction = FromDevice
                   then replicate (length (resize (sint dataLength) buf)) 0 else buf);
            hdr = \<lparr>cmd_len = of_nat (length cdb),
                   cmdp = cdb,
                   mx_sb_len = of_nat SENSE_BUFFER_SIZE,
                   timeout = of_int (timeoutSeconds d * 1000),
                   dxfer_direction =
                     (case direction of
                        Direction_None \<Rightarrow> SG_DXFER_NONE
                      | ToDevice \<Rightarrow> SG_DXFER_TO_DEV
                      | FromDevice \<Rightarrow> SG_DXFER_FROM_DEV),
                   dxferp = (if direction \<noteq> Direction_None \<and> buf \<noteq> [] then buf else []),
                   dxfer_len =
                     (if direction \<noteq> Direction_None \<and> buf \<noteq> [] then of_nat (length buf) else 0)\<rparr>;
            (reply, tp) = ioctl_SG_IO hdr tp;
            buf = (if direction = FromDevice
                   then resize (int (length buf)) (dxfer_out reply) else buf)
        in
        if ret reply < 0 then (result\<lparr>success := False, hostStatus := errno reply\<rparr>, buf, tp)
        else
          let result = result\<lparr>hostStatus := uint (host_status reply),
                              driverStatus := uint (driver_status reply),
                              scsiStatus := uint (io_status reply),
                              residual := of_int (resid reply),
                              bytesTransferred := dataLength - of_int (resid reply)\<rparr>;
              result =
                (if sb_len_wr reply > 0
                 then result\<lparr>senseData :=
                        fromRawData (take (unat (sb_len_wr reply))
                          (resize (int SENSE_BUFFER_SIZE) (senseBuffer reply)))\<rparr>
                 else result);
              result = result\<lparr>success :=
                         (host_status reply = 0 \<and> driver_status reply = 0 \<and>
                          scsiStatus result = SCSI_STATUS_GOOD)\<rparr>
          in
          if direction = FromDevice then
            let buf = resize (sint (bytesTransferred result)) buf
            in (result\<lparr>data := buf\<rparr>, buf, tp)
          else (result, buf, tp))"

text \<open>\<open>ScsiCommand::executeRaw\<close> passes its arguments on.\<close>

definition executeRaw ::
  "ScsiCommand \<Rightarrow> QByteArray \<Rightarrow> ScsiDataDirection \<Rightarrow> QByteArray \<Rightarrow> u32 \<Rightarrow> Transport
     \<Rightarrow> ScsiCommandResult \<times> QByteArray \<times> Transport" where
  "executeRaw d cdb direction buf dataLength tp = execute d cdb direction buf dataLength tp"

subsection \<open>Command builders\<close>

text \<open>
  The \<open>ScsiCommand\<close> methods used by the tape device. Each builds its CDB in a
  zeroed array of the command's length and calls \<open>execute\<close>. \<open>read6\<close> also
  returns the caller's buffer, which \<open>execute\<close> fills.
\<close>

definition scsi_testUnitReady :: "ScsiCommand \<Rightarrow> Transport \<Rightarrow> ScsiCommandResult \<times> Transport" where
  "scsi_testUnitReady d tp =
     (let cdb = (replicate 6 0)[0 := 0x00];
          (result, buf, tp) = execute d cdb Direction_None [] 0 tp
      in (result, tp))"

definition scsi_locate16 ::
  "u8 \<Rightarrow> u64 \<Rightarrow> ScsiCommand \<Rightarrow> Transport \<Rightarrow> ScsiCommandResult \<times> Transport" where
  "scsi_locate16 part blockNo d tp =
     (let cdb = (replicate 16 0)
            [0 := 0x92, 1 := 0x02, 3 := part,
             4 := ucast (drop_bit 56 blockNo AND 0xFF),
             5 := ucast (drop_bit 48 blockNo AND 0xFF),
             6 := ucast (drop_bit 40 blockNo AND 0xFF),
             7 := ucast (drop_bit 32 blockNo AND 0xFF),
             8 := ucast (drop_bit 24 blockNo AND 0xFF),
             9 := ucast (drop_bit 16 blockNo AND 0xFF),
             10 := ucast (drop_bit 8 blockNo AND 0xFF),
             11 := ucast (blockNo AND 0xFF)];
          (result, buf, tp) = execute d cdb Direction_None [] 0 tp
      in (result, tp))"

definition scsi_space ::
  "u8 \<Rightarrow> u32 \<Rightarrow> ScsiCommand \<Rightarrow> Transport \<Rightarrow> ScsiCommandResult \<times> Transport" where
  "scsi_space code count d tp =
     (let cdb = (replicate 6 0)
            [0 := 0x11, 1 := code AND 0x07,
             2 := ucast (signed_drop_bit 16 count AND 0xFF),
             3 := ucast (signed_drop_bit 8 count AND 0xFF),
             4 := ucast (count AND 0xFF)];
          (result, buf, tp) = execute d cdb Direction_None [] 0 tp
      in (result, tp))"

definition scsi_read6 ::
  "QByteArray \<Rightarrow> u32 \<Rightarrow> bool \<Rightarrow> ScsiCommand \<Rightarrow> Transport
     \<Rightarrow> (ScsiCommandResult \<times> QByteArray) \<times> Transport" where
  "scsi_read6 buffer blockCount fixedBlock d tp =
     (let cdb = (replicate 6 0)
            [0 := 0x08, 1 := (if fixedBlock then 0x01 else 0x00),
             2 := ucast (drop_bit 16 blockCount AND 0xFF),
             3 := ucast (drop_bit 8 blockCount AND 0xFF),
             4 := ucast (blockCount AND 0xFF)];
          dataLength = of_nat (length buffer);
          (result, buf, tp) = execute d cdb FromDevice buffer dataLength tp
      in ((result, buf), tp))"

definition scsi_write6 ::
  "QByteArray \<Rightarrow> bool \<Rightarrow> ScsiCommand \<Rightarrow> Transport \<Rightarrow> ScsiCommandResult \<times> Transport" where
  "scsi_write6 wdata fixedBlock d tp =
     (let count = (of_nat (length wdata) :: u32);
          cdb = (replicate 6 0)
            [0 := 0x0A, 1 := (if fixedBlock then 0x01 else 0x00),
             2 := ucast (drop_bit 16 count AND 0xFF),
             3 := ucast (drop_bit 8 count AND 0xFF),
             4 := ucast (count AND 0xFF)];
          (result, buf, tp) = execute d cdb ToDevice wdata (of_nat (length wdata)) tp
      in (result, tp))"

definition scsi_writeFilemark ::
  "u32 \<Rightarrow> bool \<Rightarrow> bool \<Rightarrow> ScsiCommand \<Rightarrow> Transport \<Rightarrow> ScsiCommandResult \<times> Transport" where
  "scsi_writeFilemark count setMark immediate d tp =
     (let cdb = (replicate 6 0)
            [0 := 0x10,
             1 := (if immediate then 0x01 else 0x00) OR (if setMark then 0x02 else 0x00),
             2 := ucast (drop_bit 16 count AND 0xFF),
             3 := ucast (drop_bit 8 count AND 0xFF),
             4 := ucast (count AND 0xFF)];
          (result, buf, tp) = execute d cdb Direction_None [] 0 tp
      in (result, tp))"

section \<open>Properties of the SCSI command layer\<close>

text \<open>
  Claim C2. For every array of at least 8 bytes: in the fixed format (response code
  0x70 or 0x71 in the low seven bits of byte 0) the result is valid, its sense key is
  the low nibble of byte 2, and ASC and ASCQ are bytes 12 and 13 when the array holds
  them and the additional length (byte 7) is at least 6, and stay 0 when the array is
  shorter than 13 bytes or the additional length is below 6; in the descriptor format
  (0x72 or 0x73) the result is valid with the sense key from the low nibble of byte 1
  and ASC and ASCQ from bytes 2 and 3. In particular a fixed-format array with sense
  key 3, ASC 0x11 and ASCQ 0x00 gives valid, MediumError, 0x11, 0x00.
\<close>

theorem fromRawData_decodes:
  assumes "8 \<le> length raw"
  shows
    "((raw ! 0 AND 0x7F = 0x70 \<or> raw ! 0 AND 0x7F = 0x71) \<longrightarrow>
        valid (fromRawData raw) \<and>
        senseKey (fromRawData raw) = raw ! 2 AND 0x0F \<and>
        (14 \<le> length raw \<and> 6 \<le> unat (raw ! 7) \<longrightarrow>
           additionalSenseCode (fromRawData raw) = raw ! 12 \<and>
           additionalSenseCodeQualifier (fromRawData raw) = raw ! 13) \<and>
        (length raw < 13 \<or> unat (raw ! 7) < 6 \<longrightarrow>
           additionalSenseCode (fromRawData raw) = 0 \<and>
           additionalSenseCodeQualifier (fromRawData raw) = 0)) \<and>
     ((raw ! 0 AND 0x7F = 0x72 \<or> raw ! 0 AND 0x7F = 0x73) \<longrightarrow>
        valid (fromRawData raw) \<and>
        senseKey (fromRawData raw) = raw ! 1 AND 0x0F \<and>
        additionalSenseCode (fromRawData raw) = raw ! 2 \<and>
        additionalSenseCodeQualifier (fromRawData raw) = raw ! 3) \<and>
     ((raw ! 0 AND 0x7F = 0x70 \<or> raw ! 0 AND 0x7F = 0x71) \<and>
      14 \<le> length raw \<and> 6 \<le> unat (raw ! 7) \<and>
      raw ! 2 AND 0x0F = 3 \<and> raw ! 12 = 0x11 \<and> raw ! 13 = 0x00 \<longrightarrow>
        valid (fromRawData raw) \<and>
        senseKey (fromRawData raw) = SenseKey_MediumError \<and>
        additionalSenseCode (fromRawData raw) = 0x11 \<and>
        additionalSenseCodeQualifier (fromRawData raw) = 0x00)"
  using assms
  by (auto simp: fromRawData_def byteAt_def Let_def ScsiSenseData_default_def)

theorem fromRawData_decodes_witness:
  "valid (fromRawData [0x70, 0, 3, 0, 0, 0, 0, 10, 0, 0, 0, 0, 0x11, 0, 0, 0, 0, 0]) \<and>
   senseKey (fromRawData [0x70, 0, 3, 0, 0, 0, 0, 10, 0, 0, 0, 0, 0x11, 0, 0, 0, 0, 0])
     = SenseKey_MediumError \<and>
   additionalSenseCode (fromRawData [0x70, 0, 3, 0, 0, 0, 0, 10, 0, 0, 0, 0, 0x11, 0, 0, 0, 0, 0])
     = 0x11 \<and>
   additionalSenseCodeQualifier
     (fromRawData [0x70, 0, 3, 0, 0, 0, 0, 10, 0, 0, 0, 0, 0x11, 0, 0, 0, 0, 0]) = 0x00"
  using fromRawData_decodes [of "[0x70, 0, 3, 0, 0, 0, 0, 10, 0, 0, 0, 0, 0x11, 0, 0, 0, 0, 0]"]
  by simp

subsection \<open>Reads past the end of the array\<close>

lemma fromRawData_reads_in_bounds:
  assumes "\<not> (length raw = 13 \<and> (byteAt raw 0 AND 0x7F = 0x70 \<or> byteAt raw 0 AND 0x7F = 0x71)
              \<and> 6 \<le> unat (byteAt raw 7))"
  shows "\<forall>i \<in> set (fromRawData_reads raw). i < length raw"
  using assms by (auto simp: fromRawData_reads_def Let_def)

text \<open>
  Claim C10 asks that every index read is below the size of the array. The guard of
  the fixed-format branch is \<open>data.size() >= 13\<close>, and the branch then reads
  \<open>bytes[13]\<close>: on an array of exactly 13 bytes whose byte 7 is 6 the indices
  read end with 12 and 13, and 13 is the size of the array.
\<close>

theorem fromRawData_reads_past_end:
  "fromRawData_reads [0x70, 0, 2, 0, 0, 0, 0, 6, 0, 0, 0, 0, 0x3A]
     = [0, 0, 2, 3, 4, 5, 6, 7, 12, 13] \<and>
   length [0x70 :: u8, 0, 2, 0, 0, 0, 0, 6, 0, 0, 0, 0, 0x3A] = 13"
  by (simp add: fromRawData_reads_def byteAt_def)

subsection \<open>Oversized command blocks\<close>

text \<open>
  A transport reply reporting status GOOD with nothing transferred, and a command
  block of 17 bytes, used to run \<open>executeRaw\<close>.
\<close>

definition reply_good :: sg_reply where
  "reply_good = \<lparr>ret = 0, errno = 0, host_status = 0, driver_status = 0, io_status = 0,
                  resid = 0, sb_len_wr = 0, senseBuffer = [], dxfer_out = []\<rparr>"

definition cdb17 :: QByteArray where
  "cdb17 = [0x92, 0, 0, 0, 0, 0, 0, 0, 0, 0, 0, 0, 0, 0, 0, 0, 0]"

text \<open>
  Claim C9 asks that a command block longer than 16 bytes is rejected and not issued.
  \<open>executeRaw\<close> on an open device hands the 17-byte block to the transport with
  \<open>cmd_len = 17\<close> and reports the drive's answer as a success.
\<close>

theorem executeRaw_issues_oversized_cdb:
  "length cdb17 = 17 \<and>
   executeRaw \<lparr>devicePath = ''/dev/sg0'', timeoutSeconds = 60, fd = 3\<rparr>
       cdb17 Direction_None [] 0 \<lparr>replies = (\<lambda>n. reply_good), issued = []\<rparr>
     = (ScsiCommandResult_default\<lparr>success := True\<rparr>, [],
        \<lparr>replies = (\<lambda>n. reply_good),
         issued = [\<lparr>cmd_len = 17, cmdp = cdb17, mx_sb_len = 252, timeout = 60000,
                    dxfer_direction = SG_DXFER_NONE, dxferp = [], dxfer_len = 0\<rparr>]\<rparr>)"
  by (simp add: executeRaw_def execute_def scsi_isOpen_def ioctl_SG_IO_def reply_good_def
      cdb17_def SENSE_BUFFER_SIZE_def SCSI_STATUS_GOOD_def ScsiCommandResult_default_def Let_def
      resize_def)

section \<open>Tape device (device/TapeDevice)\<close>

datatype TapeStatus =
  Unknown | NotReady | Ready | NoMedia | Loading | Unloading | Rewinding | Locating
  | Writing | Reading | WriteProtected | Error

text \<open>
  Modelled from the spec: \<open>struct TapePosition\<close> is declared in
  \<open>core/LtfsTypes.h\<close>, which is not among the sources. The fields are those the
  specification lists, with the types the assignments in \<open>TapeDevice.cpp\<close> give them.
\<close>

record TapePosition =
  partition :: u8
  blockNumber :: u64
  fileNumber :: u64
  beginOfPartition :: bool
  endOfPartition :: bool
  blockPositionUnknown :: bool

definition TapePosition_default :: TapePosition where
  "TapePosition_default =
     \<lparr>partition = 0, blockNumber = 0, fileNumber = 0, beginOfPartition = False,
      endOfPartition = False, blockPositionUnknown = False\<rparr>"

text \<open>
  What an observer of the device sees, in order: the Qt signals it emits and the
  SG_IO headers it hands to the kernel.
\<close>

datatype Signal =
  openChanged bool | statusChanged TapeStatus | mediaChanged bool | errorOccurred string

datatype Event = Emit Signal | Command sg_io_hdr

text \<open>
  \<open>TapeDevice::Private\<close>, the fields the modelled operations use, together with
  the event trace and the transport behind the open descriptor.
\<close>

record TapeDevice =
  scsi :: "ScsiCommand option"
  status :: TapeStatus
  position :: TapePosition
  lastError :: string
  lastSenseData :: ScsiSenseData
  events :: "Event list"
  sg :: Transport

definition emit :: "Signal \<Rightarrow> TapeDevice \<Rightarrow> TapeDevice" where
  "emit sig dev = dev\<lparr>events := events dev @ [Emit sig]\<rparr>"

definition setStatus :: "TapeStatus \<Rightarrow> TapeDevice \<Rightarrow> TapeDevice" where
  "setStatus st dev =
     (if status dev \<noteq> st then emit (statusChanged st) (dev\<lparr>status := st\<rparr>) else dev)"

definition setError :: "string \<Rightarrow> TapeDevice \<Rightarrow> TapeDevice" where
  "setError message dev =
     emit (errorOccurred message) (setStatus Error (dev\<lparr>lastError := message\<rparr>))"

definition isOpen :: "TapeDevice \<Rightarrow> bool" where
  "isOpen dev = (case scsi dev of None \<Rightarrow> False | Some c \<Rightarrow> scsi_isOpen c)"

definition checkOpen :: "string \<Rightarrow> TapeDevice \<Rightarrow> bool \<times> TapeDevice" where
  "checkOpen operation dev =
     (if \<not> isOpen dev
      then (False, dev\<lparr>lastError := ''Device not open for operation: '' @ operation\<rparr>)
      else (True, dev))"

text \<open>
  \<open>d->scsi->method(...)\<close>: the method runs on the command object against the
  transport, and the headers it issued join the trace. Every caller has passed
  \<open>checkOpen\<close>, so the pointer is set.
\<close>

definition scsi_call ::
  "(ScsiCommand \<Rightarrow> Transport \<Rightarrow> 'a \<times> Transport) \<Rightarrow> TapeDevice \<Rightarrow> 'a \<times> TapeDevice" where
  "scsi_call method dev =
     (let (r, tp) = method (the (scsi dev)) (sg dev)
      in (r, dev\<lparr>sg := tp,
                 events := events dev @ map Command (drop (length (issued (sg dev))) (issued tp))\<rparr>))"

text \<open>\<open>TapeDevice::refreshStatus\<close>.\<close>

definition refreshStatus :: "TapeDevice \<Rightarrow> bool \<times> TapeDevice" where
  "refreshStatus dev0 =
     (let (ok, dev) = checkOpen ''refreshStatus'' dev0 in
      if \<not> ok then (False, dev)
      else
        let (result, dev) = scsi_call scsi_testUnitReady dev in
        if success result then (True, setStatus Ready dev)
        else
          let dev = dev\<lparr>lastSenseData := senseData result\<rparr>;
              key = senseKey (senseData result);
              asc = additionalSenseCode (senseData result);
              ascq = additionalSenseCodeQualifier (senseData result)
          in
          if key = SenseKey_NotReady then
            (if asc = 0x3A then (True, setStatus NoMedia dev)
             else if asc = 0x04 then
               (if ascq = 0x00 then (True, setStatus NotReady dev)
                else if ascq = 0x01 then (True, setStatus Loading dev)
                else if ascq = 0x02 then (True, setStatus NotReady dev)
                else (True, setStatus NotReady dev))
             else (True, setStatus NotReady dev))
          else if key = SenseKey_UnitAttention then
            (let (result, dev) = scsi_call scsi_testUnitReady dev in
             if success result then (True, emit (mediaChanged True) (setStatus Ready dev))
             else (True, setStatus NotReady dev))
          else if key = SenseKey_DataProtect then (True, setStatus WriteProtected dev)
          else (True, setStatus Error dev))"

text \<open>\<open>TapeDevice::locate\<close>.\<close>

definition locate :: "u8 \<Rightarrow> u64 \<Rightarrow> TapeDevice \<Rightarrow> bool \<times> TapeDevice" where
  "locate part blockNo dev0 =
     (let (ok, dev) = checkOpen ''locate'' dev0 in
      if \<not> ok then (False, dev)
      else
        let dev = setStatus Locating dev;
            (result, dev) = scsi_call (scsi_locate16 part blockNo) dev;
            dev = dev\<lparr>lastSenseData := senseData result\<rparr>
        in
        if \<not> success result then
          (let dev = setError (''Locate failed: '' @ result_errorMessage result) dev;
               (r, dev) = refreshStatus dev
           in (False, dev))
        else
          (let dev = dev\<lparr>position := (position dev)\<lparr>partition := part\<rparr>\<rparr>;
               dev = dev\<lparr>position := (position dev)\<lparr>blockNumber := blockNo\<rparr>\<rparr>;
               dev = setStatus Ready dev
           in (True, dev)))"

text \<open>\<open>TapeDevice::spaceToEndOfData\<close> and \<open>TapeDevice::seekToEnd\<close>.\<close>

definition spaceToEndOfData :: "TapeDevice \<Rightarrow> bool \<times> TapeDevice" where
  "spaceToEndOfData dev0 =
     (let (ok, dev) = checkOpen ''spaceToEndOfData'' dev0 in
      if \<not> ok then (False, dev)
      else
        let (result, dev) = scsi_call (scsi_space 3 0) dev;
            dev = dev\<lparr>lastSenseData := senseData result\<rparr>
        in
        if \<not> success result then
          (False, setError (''Space to EOD failed: '' @ result_errorMessage result) dev)
        else (True, dev\<lparr>position := (position dev)\<lparr>endOfPartition := True\<rparr>\<rparr>))"

definition seekToEnd :: "u8 \<Rightarrow> TapeDevice \<Rightarrow> bool \<times> TapeDevice" where
  "seekToEnd part dev =
     (let (ok, dev) = locate part 0 dev in
      if \<not> ok then (False, dev) else spaceToEndOfData dev)"

text \<open>
  \<open>TapeDevice::readBlock\<close>. The result is the returned \<open>qint64\<close>, the caller's
  buffer after the call and the device.
\<close>

definition readBlock :: "QByteArray \<Rightarrow> u32 \<Rightarrow> TapeDevice \<Rightarrow> int \<times> QByteArray \<times> TapeDevice" where
  "readBlock buffer maxSize dev0 =
     (let (ok, dev) = checkOpen ''readBlock'' dev0 in
      if \<not> ok then (-1, buffer, dev)
      else
        let buffer = resize (sint maxSize) buffer;
            ((result, buffer), dev) = scsi_call (scsi_read6 buffer 1 False) dev;
            dev = dev\<lparr>lastSenseData := senseData result\<rparr>
        in
        if \<not> success result then
          (if senseKey (senseData result) = SenseKey_BlankCheck then (0, buffer, dev)
           else (-1, buffer, setError (''Read failed: '' @ result_errorMessage result) dev))
        else
          (let buffer = data result;
               dev = dev\<lparr>position := (position dev)\<lparr>blockNumber := blockNumber (position dev) + 1\<rparr>\<rparr>
           in (int (length buffer), buffer, dev)))"

text \<open>\<open>TapeDevice::writeBlock\<close>.\<close>

definition writeBlock :: "QByteArray \<Rightarrow> TapeDevice \<Rightarrow> int \<times> TapeDevice" where
  "writeBlock wdata dev0 =
     (let (ok, dev) = checkOpen ''writeBlock'' dev0 in
      if \<not> ok then (-1, dev)
      else
        let dev = setStatus Writing dev;
            (result, dev) = scsi_call (scsi_write6 wdata False) dev;
            dev = dev\<lparr>lastSenseData := senseData result\<rparr>
        in
        if \<not> success result then
          (let dev = setError (''Write failed: '' @ result_errorMessage result) dev;
               (r, dev) = refreshStatus dev
           in (-1, dev))
        else
          (let dev = dev\<lparr>position := (position dev)\<lparr>blockNumber := blockNumber (position dev) + 1\<rparr>\<rparr>;
               dev = setStatus Ready dev
           in (uint (bytesTransferred result), dev)))"

text \<open>\<open>TapeDevice::writeFilemark\<close>.\<close>

definition writeFilemark :: "u32 \<Rightarrow> TapeDevice \<Rightarrow> bool \<times> TapeDevice" where
  "writeFilemark count dev0 =
     (let (ok, dev) = checkOpen ''writeFilemark'' dev0 in
      if \<not> ok then (False, dev)
      else
        let (result, dev) = scsi_call (scsi_writeFilemark count False False) dev;
            dev = dev\<lparr>lastSenseData := senseData result\<rparr>
        in
        if \<not> success result then
          (False, setError (''Write filemark failed: '' @ result_errorMessage result) dev)
        else
          (True, dev\<lparr>position := (position dev)\<lparr>fileNumber := fileNumber (position dev) + ucast count\<rparr>\<rparr>))"

section \<open>Observations on the tape device\<close>

text \<open>
  Names for what the statements below talk about: the events an operation added to
  the trace, the commands among them, and the result the drive gave to each command
  of an operation.
\<close>

definition new_events :: "TapeDevice \<Rightarrow> TapeDevice \<Rightarrow> Event list" where
  "new_events before after = drop (length (events before)) (events after)"

fun commands_of :: "Event list \<Rightarrow> sg_io_hdr list" where
  "commands_of [] = []"
| "commands_of (Command h # es) = h # commands_of es"
| "commands_of (Emit s # es) = commands_of es"

definition first_poll :: "TapeDevice \<Rightarrow> ScsiCommandResult" where
  "first_poll dev = fst (scsi_call scsi_testUnitReady dev)"

definition after_first_poll :: "TapeDevice \<Rightarrow> TapeDevice" where
  "after_first_poll dev =
     (snd (scsi_call scsi_testUnitReady dev))\<lparr>lastSenseData := senseData (first_poll dev)\<rparr>"


definition read_cdb :: QByteArray where
  "read_cdb = [0x08, 0, 0, 0, 1, 0]"

definition read_result :: "QByteArray \<Rightarrow> u32 \<Rightarrow> TapeDevice \<Rightarrow> ScsiCommandResult" where
  "read_result buffer maxSize dev =
     fst (fst (scsi_call (scsi_read6 (resize (sint maxSize) buffer) 1 False) dev))"

definition locate_cdb :: "u8 \<Rightarrow> u64 \<Rightarrow> QByteArray" where
  "locate_cdb part blockNo =
     [0x92, 0x02, 0, part,
      ucast (drop_bit 56 blockNo AND 0xFF), ucast (drop_bit 48 blockNo AND 0xFF),
      ucast (drop_bit 40 blockNo AND 0xFF), ucast (drop_bit 32 blockNo AND 0xFF),
      ucast (drop_bit 24 blockNo AND 0xFF), ucast (drop_bit 16 blockNo AND 0xFF),
      ucast (drop_bit 8 blockNo AND 0xFF), ucast (blockNo AND 0xFF),
      0, 0, 0, 0]"



text \<open>
  Example transports and an example open device (descriptor 3, the default timeout),
  for running the operations: a CHECK CONDITION reply carrying fixed-format sense
  data, and a reply that returns data.
\<close>

definition reply_check_condition :: "u8 \<Rightarrow> u8 \<Rightarrow> u8 \<Rightarrow> sg_reply" where
  "reply_check_condition key asc ascq =
     \<lparr>ret = 0, errno = 0, host_status = 0, driver_status = 0, io_status = 0x02,
      resid = 0, sb_len_wr = 18,
      senseBuffer = [0x70, 0, key, 0, 0, 0, 0, 10, 0, 0, 0, 0, asc, ascq, 0, 0, 0, 0],
      dxfer_out = []\<rparr>"

definition example_device :: "(nat \<Rightarrow> sg_reply) \<Rightarrow> TapeDevice" where
  "example_device rs =
     \<lparr>scsi = Some ((ScsiCommand_new ''/dev/sg0'')\<lparr>fd := 3\<rparr>),
      status = Unknown, position = TapePosition_default, lastError = [],
      lastSenseData = ScsiSenseData_default, events = [],
      sg = \<lparr>replies = rs, issued = []\<rparr>\<rparr>"

definition reply_data :: "QByteArray \<Rightarrow> int \<Rightarrow> sg_reply" where
  "reply_data bytes left =
     \<lparr>ret = 0, errno = 0, host_status = 0, driver_status = 0, io_status = 0,
      resid = left, sb_len_wr = 0, senseBuffer = [], dxfer_out = bytes\<rparr>"

section \<open>Properties of the tape device\<close>

subsection \<open>What one command does to the device\<close>

lemma commands_of_append [simp]: "commands_of (xs @ ys) = commands_of xs @ commands_of ys"
  by (induction xs rule: commands_of.induct) auto

lemma execute_open_issued:
  assumes "scsi_isOpen d"
  shows "\<exists>h. issued (snd (snd (execute d cdb dir buf len tp))) = issued tp @ [h] \<and>
             cmdp h = cdb \<and> cmd_len h = of_nat (length cdb) \<and>
             timeout h = of_int (timeoutSeconds d * 1000)"
  using assms
  by (simp add: execute_def ioctl_SG_IO_def Let_def split_def)

lemma scsi_call_fields [simp]:
  "status (snd (scsi_call m dev)) = status dev"
  "position (snd (scsi_call m dev)) = position dev"
  "lastError (snd (scsi_call m dev)) = lastError dev"
  "lastSenseData (snd (scsi_call m dev)) = lastSenseData dev"
  "scsi (snd (scsi_call m dev)) = scsi dev"
  by (simp_all add: scsi_call_def split_def Let_def)

lemma isOpen_scsi_call [simp]: "isOpen (snd (scsi_call m dev)) = isOpen dev"
  by (simp add: isOpen_def)

lemma isOpen_the: "isOpen dev \<Longrightarrow> scsi_isOpen (the (scsi dev))"
  by (auto simp: isOpen_def split: option.splits)


lemma status_setStatus [simp]: "status (setStatus st dev) = st"
  by (simp add: setStatus_def emit_def)

lemma events_setStatus:
  "events (setStatus st dev) = events dev @ (if status dev \<noteq> st then [Emit (statusChanged st)] else [])"
  by (simp add: setStatus_def emit_def)

lemma commands_of_setStatus [simp]:
  "commands_of (events (setStatus st dev)) = commands_of (events dev)"
  by (simp add: events_setStatus)

lemma new_events_append: "events d' = events d @ xs \<Longrightarrow> new_events d d' = xs"
  by (simp add: new_events_def)

lemma commands_of_new_events:
  "events d' = events d @ xs \<Longrightarrow> commands_of (new_events d d') = commands_of xs"
  by (simp add: new_events_def)



lemma isOpen_after_first_poll [simp]: "isOpen (after_first_poll dev) = isOpen dev"
  by (simp add: after_first_poll_def isOpen_def)



lemma scsi_call_events:
  assumes "isOpen dev"
    and "\<And>d tp. scsi_isOpen d \<Longrightarrow> \<exists>h. issued (snd (m d tp)) = issued tp @ [h] \<and> P h d"
  shows "\<exists>h. events (snd (scsi_call m dev)) = events dev @ [Command h] \<and> P h (the (scsi dev))"
proof -
  obtain h where "issued (snd (m (the (scsi dev)) (sg dev))) = issued (sg dev) @ [h]"
    "P h (the (scsi dev))"
    using assms(2) [OF isOpen_the [OF assms(1)]] by blast
  then show ?thesis by (simp add: scsi_call_def split_def Let_def)
qed

lemma length_resize [simp]: "length (resize n xs) = nat n"
  by (simp add: resize_def)

lemma execute_FromDevice_length:
  assumes "success (fst (execute d cdb FromDevice buf len tp))"
  shows "data (fst (execute d cdb FromDevice buf len tp))
           = fst (snd (execute d cdb FromDevice buf len tp)) \<and>
         length (data (fst (execute d cdb FromDevice buf len tp)))
           = nat (sint (bytesTransferred (fst (execute d cdb FromDevice buf len tp))))"
  using assms
  by (auto simp: execute_def Let_def split_def ScsiCommandResult_default_def split: if_splits)

lemma read6_issued:
  assumes "scsi_isOpen d"
  shows "\<exists>h. issued (snd (scsi_read6 buffer 1 False d tp)) = issued tp @ [h] \<and> cmdp h = read_cdb"
  using execute_open_issued [OF assms, of read_cdb FromDevice buffer "of_nat (length buffer)" tp]
  by (auto simp: scsi_read6_def split_def Let_def read_cdb_def numeral_eq_Suc)

lemma read6_success_length:
  assumes "success (fst (fst (scsi_read6 b k f d tp)))"
  shows "length (data (fst (fst (scsi_read6 b k f d tp))))
           = nat (sint (bytesTransferred (fst (fst (scsi_read6 b k f d tp)))))"
  using assms unfolding scsi_read6_def split_def Let_def fst_conv snd_conv
  by (rule execute_FromDevice_length [THEN conjunct2])

lemma setError_fields [simp]:
  "lastError (setError msg dev) = msg"
  "status (setError msg dev) = Error"
  "position (setError msg dev) = position dev"
  "scsi (setError msg dev) = scsi dev"
  "sg (setError msg dev) = sg dev"
  "lastSenseData (setError msg dev) = lastSenseData dev"
  by (simp_all add: setError_def emit_def setStatus_def)

lemma events_setError:
  "events (setError msg dev) = events dev @
     (if status dev \<noteq> Error then [Emit (statusChanged Error)] else []) @ [Emit (errorOccurred msg)]"
  by (simp add: setError_def emit_def setStatus_def)


lemma setStatus_fields [simp]:
  "lastError (setStatus st dev) = lastError dev"
  "position (setStatus st dev) = position dev"
  "scsi (setStatus st dev) = scsi dev"
  "sg (setStatus st dev) = sg dev"
  "lastSenseData (setStatus st dev) = lastSenseData dev"
  by (simp_all add: setStatus_def emit_def)

lemma emit_fields [simp]:
  "lastError (emit s dev) = lastError dev"
  "position (emit s dev) = position dev"
  "scsi (emit s dev) = scsi dev"
  "sg (emit s dev) = sg dev"
  "status (emit s dev) = status dev"
  "lastSenseData (emit s dev) = lastSenseData dev"
  "events (emit s dev) = events dev @ [Emit s]"
  by (simp_all add: emit_def)

lemma isOpen_cong: "scsi d' = scsi d \<Longrightarrow> isOpen d' = isOpen d"
  by (simp add: isOpen_def)

lemma isOpen_setStatus [simp]: "isOpen (setStatus st dev) = isOpen dev"
  by (simp add: isOpen_def)

lemma isOpen_setError [simp]: "isOpen (setError msg dev) = isOpen dev"
  by (simp add: isOpen_def)



lemma isOpen_example [simp]: "isOpen (example_device rs)"
  by (simp add: example_device_def isOpen_def scsi_isOpen_def ScsiCommand_new_def)

lemmas eval_defs =
  scsi_call_def execute_def ioctl_SG_IO_def example_device_def
  reply_good_def reply_check_condition_def fromRawData_def byteAt_def resize_def
  scsi_isOpen_def ScsiCommand_new_def DEFAULT_TIMEOUT_def SENSE_BUFFER_SIZE_def
  SCSI_STATUS_GOOD_def ScsiCommandResult_default_def ScsiSenseData_default_def
  TapePosition_default_def Let_def split_def



lemma read_result_check_condition:
  assumes "rs 0 = reply_check_condition key asc ascq"
  shows "\<not> success (read_result [] 8 (example_device rs))"
    and "senseKey (senseData (read_result [] 8 (example_device rs))) = key AND 0x0F"
  using assms
  by (simp_all add: read_result_def scsi_read6_def eval_defs)

lemma read_result_data:
  assumes "rs 0 = reply_data bytes left"
  shows "success (read_result [] 8 (example_device rs))"
  using assms
  by (simp_all add: read_result_def scsi_read6_def reply_data_def eval_defs)



subsection \<open>Status refresh\<close>



subsection \<open>Reading a block\<close>

text \<open>
  Claim C3. On an open device \<open>readBlock\<close> issues one READ(6) in variable-block
  mode. When the command fails with sense key BlankCheck it returns 0 and records no
  error: the last error, the status and the position are unchanged and no signal is
  emitted. When it fails with any other sense key it returns -1 and records the
  error: the last error is the read-failure message, the status is Error and
  \<open>errorOccurred\<close> is the last signal. On success it returns the number of bytes
  in the block it hands back and the tracked block number has advanced by one.
\<close>

theorem readBlock_outcomes:
  assumes "isOpen dev"
    and "r = read_result buffer maxSize dev"
    and "n = fst (readBlock buffer maxSize dev)"
    and "out = fst (snd (readBlock buffer maxSize dev))"
    and "dev' = snd (snd (readBlock buffer maxSize dev))"
  shows
    "(\<not> success r \<and> senseKey (senseData r) = SenseKey_BlankCheck \<longrightarrow>
        n = 0 \<and> lastError dev' = lastError dev \<and> status dev' = status dev \<and>
        position dev' = position dev \<and> (\<forall>s. Emit s \<notin> set (new_events dev dev'))) \<and>
     (\<not> success r \<and> senseKey (senseData r) \<noteq> SenseKey_BlankCheck \<longrightarrow>
        n = - 1 \<and> lastError dev' = ''Read failed: '' @ result_errorMessage r \<and>
        status dev' = Error \<and> position dev' = position dev \<and>
        last (events dev') = Emit (errorOccurred (''Read failed: '' @ result_errorMessage r))) \<and>
     (success r \<longrightarrow>
        n = int (length out) \<and> out = data r \<and>
        n = int (nat (sint (bytesTransferred r))) \<and>
        blockNumber (position dev') = blockNumber (position dev) + 1 \<and>
        lastError dev' = lastError dev \<and> status dev' = status dev \<and>
        (\<forall>s. Emit s \<notin> set (new_events dev dev'))) \<and>
     map cmdp (commands_of (new_events dev dev')) = [read_cdb]"
proof -
  let ?call = "scsi_call (scsi_read6 (resize (sint maxSize) buffer) 1 False) dev"
  obtain h where h: "events (snd ?call) = events dev @ [Command h]" "cmdp h = read_cdb"
    using scsi_call_events [OF assms(1), of "scsi_read6 (resize (sint maxSize) buffer) 1 False"
        "\<lambda>h d. cmdp h = read_cdb"] read6_issued by blast
  have r: "fst (fst ?call) = r" using assms(2) by (simp add: read_result_def)
  show ?thesis
  proof (cases "success r")
    case True
    have len: "length (data r) = nat (sint (bytesTransferred r))"
      using True assms(2) read6_success_length
      by (simp add: read_result_def scsi_call_def split_def Let_def)
    have ev: "events dev' = events dev @ [Command h]"
      using True assms h r
      by (simp add: readBlock_def checkOpen_def split_def Let_def)
    show ?thesis
      using True assms r len h(2) new_events_append [OF ev]
      by (simp add: readBlock_def checkOpen_def split_def Let_def)
  next
    case False
    show ?thesis
    proof (cases "senseKey (senseData r) = SenseKey_BlankCheck")
      case bc: True
      have ev: "events dev' = events dev @ [Command h]"
        using False bc assms h r
        by (simp add: readBlock_def checkOpen_def split_def Let_def)
      show ?thesis
        using False bc assms r h(2) new_events_append [OF ev]
        by (simp add: readBlock_def checkOpen_def split_def Let_def)
    next
      case nbc: False
      have ev: "events dev' = events dev @ ([Command h] @
          (if status dev \<noteq> Error then [Emit (statusChanged Error)] else []) @
          [Emit (errorOccurred (''Read failed: '' @ result_errorMessage r))])"
        using False nbc assms h r
        by (simp add: readBlock_def checkOpen_def split_def Let_def events_setError)
      show ?thesis
        using False nbc assms r h(2) new_events_append [OF ev]
        by (simp add: readBlock_def checkOpen_def split_def Let_def events_setError)
    qed
  qed
qed

theorem readBlock_outcomes_witness:
  "fst (readBlock [] 8 (example_device (\<lambda>n. reply_check_condition SenseKey_BlankCheck 0 5))) = 0 \<and>
   lastError (snd (snd (readBlock [] 8
       (example_device (\<lambda>n. reply_check_condition SenseKey_BlankCheck 0 5))))) = [] \<and>
   fst (readBlock [] 8 (example_device (\<lambda>n. reply_check_condition SenseKey_MediumError 0x11 0))) = - 1 \<and>
   status (snd (snd (readBlock [] 8
       (example_device (\<lambda>n. reply_check_condition SenseKey_MediumError 0x11 0))))) = Error \<and>
   blockNumber (position (snd (snd (readBlock [] 8
       (example_device (\<lambda>n. reply_data [1, 2, 3, 0, 0, 0, 0, 0] 5)))))) = 1"
proof -
  let ?a = "\<lambda>n::nat. reply_check_condition SenseKey_BlankCheck 0 5"
  let ?b = "\<lambda>n::nat. reply_check_condition SenseKey_MediumError 0x11 0"
  let ?c = "\<lambda>n::nat. reply_data [1, 2, 3, 0, 0, 0, 0, 0] 5"
  have e: "lastError (example_device ?a) = []" "blockNumber (position (example_device ?c)) = 0"
    by (simp_all add: example_device_def TapePosition_default_def)
  have a: "fst (readBlock [] 8 (example_device ?a)) = 0 \<and>
      lastError (snd (snd (readBlock [] 8 (example_device ?a)))) = []"
    using readBlock_outcomes [OF isOpen_example [of ?a] refl refl refl refl, of "[]" 8]
      read_result_check_condition [where rs = ?a and key = SenseKey_BlankCheck and asc = 0 and ascq = 5] e
    by simp
  have b: "fst (readBlock [] 8 (example_device ?b)) = - 1 \<and>
      status (snd (snd (readBlock [] 8 (example_device ?b)))) = Error"
    using readBlock_outcomes [OF isOpen_example [of ?b] refl refl refl refl, of "[]" 8]
      read_result_check_condition [where rs = ?b and key = SenseKey_MediumError and asc = "0x11" and ascq = 0]
    by simp
  have c: "blockNumber (position (snd (snd (readBlock [] 8 (example_device ?c))))) = 1"
    using readBlock_outcomes [OF isOpen_example [of ?c] refl refl refl refl, of "[]" 8]
      read_result_data [where rs = ?c and bytes = "[1, 2, 3, 0, 0, 0, 0, 0]" and left = 5] e
    by simp
  show ?thesis using a b c by simp
qed

subsection \<open>Locating\<close>




section \<open>LTFS index model and XML codec (xml/IndexWriter, xml/IndexParser)\<close>

subsection \<open>The index classes\<close>

text \<open>
  Modelled from the spec: the classes of the index (\<open>LtfsIndex\<close>,
  \<open>LtfsDirectory\<close>, \<open>LtfsFile\<close>, \<open>LtfsExtent\<close>, \<open>LocationData\<close>,
  \<open>ExtendedAttribute\<close>, \<open>PartitionLabel\<close>) are declared under \<open>core/\<close>, which
  is not among the sources. Their fields are the ones the specification lists and the
  writer and the parser get and set; a setter stores its argument in the field,
  \<open>addFile\<close> and \<open>addSubdirectory\<close> append. Unsigned and signed 64-bit fields are
  both \<open>u64\<close>, the signed ones read through \<open>sint\<close>. Field names that are taken
  carry a prefix.
\<close>

datatype PartitionLabel = IndexPartition | DataPartition

text \<open>
  A valid \<open>QDateTime\<close> is modelled by its UTC calendar fields, which is what the
  writer prints after \<open>toUTC()\<close>; two \<open>QDateTime\<close> are equal when they are the
  same instant, that is, when these fields agree. \<open>None\<close> is the invalid
  \<open>QDateTime\<close>.
\<close>

record UtcTime =
  year :: nat
  month :: nat
  day :: nat
  hour :: nat
  minute :: nat
  second :: nat
  msec :: nat

type_synonym QDateTime = "UtcTime option"

text \<open>A \<open>QUuid\<close> is modelled by the text \<open>toString(QUuid::WithoutBraces)\<close> gives.\<close>

type_synonym QUuid = string

record LocationData =
  loc_partition :: PartitionLabel
  loc_startBlock :: u64

record ExtendedAttribute =
  ea_key :: string
  ea_value :: string

record LtfsExtent =
  ext_partition :: PartitionLabel
  ext_startBlock :: u64
  fileOffset :: u64
  byteOffset :: u64
  byteCount :: u64

record LtfsFile =
  file_name :: string
  file_uid :: u64
  file_length :: u64
  file_readonly :: bool
  file_creationTime :: QDateTime
  file_changeTime :: QDateTime
  file_modifyTime :: QDateTime
  file_accessTime :: QDateTime
  file_backupTime :: QDateTime
  file_extendedAttributes :: "ExtendedAttribute list"
  extentInfo :: "LtfsExtent list"

record DirectoryFields =
  dir_name :: string
  dir_uid :: u64
  dir_readonly :: bool
  dir_creationTime :: QDateTime
  dir_changeTime :: QDateTime
  dir_modifyTime :: QDateTime
  dir_accessTime :: QDateTime
  dir_backupTime :: QDateTime
  dir_extendedAttributes :: "ExtendedAttribute list"
  dir_files :: "LtfsFile list"

datatype LtfsDirectory = LtfsDirectory (dir_fields: DirectoryFields) (subdirectories: "LtfsDirectory list")

record LtfsIndex =
  version :: string
  creator :: string
  volumeUuid :: QUuid
  generationNumber :: u64
  updateTime :: QDateTime
  selfLocation :: LocationData
  previousGenerationLocation :: LocationData
  allowPolicyUpdate :: bool
  highestFileUid :: u64
  rootDirectory :: LtfsDirectory

text \<open>
  What the default constructors of these classes give is not in the sources; the
  parser, which fills default-constructed objects, takes them as a parameter.
\<close>

record Defaults =
  default_index :: LtfsIndex
  default_directory :: LtfsDirectory
  default_file :: LtfsFile
  default_extent :: LtfsExtent
  default_location :: LocationData
  default_attribute :: ExtendedAttribute

definition updateFields :: "(DirectoryFields \<Rightarrow> DirectoryFields) \<Rightarrow> LtfsDirectory \<Rightarrow> LtfsDirectory" where
  "updateFields f directory = LtfsDirectory (f (dir_fields directory)) (subdirectories directory)"

definition addFile :: "LtfsFile \<Rightarrow> LtfsDirectory \<Rightarrow> LtfsDirectory" where
  "addFile file directory = updateFields (\<lambda>m. m\<lparr>dir_files := dir_files m @ [file]\<rparr>) directory"

definition addSubdirectory :: "LtfsDirectory \<Rightarrow> LtfsDirectory \<Rightarrow> LtfsDirectory" where
  "addSubdirectory subdir directory =
     LtfsDirectory (dir_fields directory) (subdirectories directory @ [subdir])"

subsection \<open>The XML stream\<close>

text \<open>
  \<open>QXmlStreamWriter\<close> and \<open>QXmlStreamReader\<close> are Qt's. They are modelled by the
  sequence of tokens the writer's calls describe and the reader's \<open>readNext\<close>
  hands out, text passing unchanged (Qt escapes on writing and unescapes on reading).
  With auto-formatting, which \<open>IndexWriter\<close> turns on by default, the line break
  and indentation before a tag reach the reader as a \<open>Characters\<close> token.
\<close>

datatype XmlToken =
  StartDocument
  | StartElement string "(string \<times> string) list"
  | Characters string
  | EndElement string
  | EndDocument

definition indent :: "bool \<Rightarrow> nat \<Rightarrow> XmlToken list" where
  "indent formatted depth =
     (if formatted then [Characters (CHR 0x0A # replicate (2 * depth) CHR '' '')] else [])"

definition writeTextElement :: "bool \<Rightarrow> nat \<Rightarrow> string \<Rightarrow> string \<Rightarrow> XmlToken list" where
  "writeTextElement formatted depth name str =
     indent formatted depth @ [StartElement name []] @
     (if str = [] then [] else [Characters str]) @ [EndElement name]"

text \<open>
  \<open>QXmlStreamReader::readElementText(SkipChildElements)\<close>, called with the reader
  on a start tag: the text up to the matching end tag, child elements skipped. The
  document ending first is a reader error (\<open>None\<close>).
\<close>

fun readElementText_from :: "nat \<Rightarrow> string \<Rightarrow> XmlToken list \<Rightarrow> (string \<times> XmlToken list) option" where
  "readElementText_from depth acc [] = None"
| "readElementText_from depth acc (Characters s # ts) =
     readElementText_from depth (if depth = 0 then acc @ s else acc) ts"
| "readElementText_from depth acc (StartElement name attrs # ts) =
     readElementText_from (Suc depth) acc ts"
| "readElementText_from depth acc (EndElement name # ts) =
     (if depth = 0 then Some (acc, ts) else readElementText_from (depth - 1) acc ts)"
| "readElementText_from depth acc (t # ts) = readElementText_from depth acc ts"

definition readElementText :: "XmlToken list \<Rightarrow> (string \<times> XmlToken list) option" where
  "readElementText ts = readElementText_from 0 [] ts"

text \<open>Reading an element's text and going on with it and the rest of the stream.\<close>

definition with_text ::
  "XmlToken list \<Rightarrow> (string \<Rightarrow> XmlToken list \<Rightarrow> 'a option) \<Rightarrow> 'a option" where
  "with_text ts k = (case readElementText ts of None \<Rightarrow> None | Some (s, rest) \<Rightarrow> k s rest)"

subsection \<open>Value formats\<close>

text \<open>\<open>formatPartition\<close>, \<open>formatBoolean\<close> of the writer.\<close>

definition formatPartition :: "PartitionLabel \<Rightarrow> string" where
  "formatPartition p = (case p of IndexPartition \<Rightarrow> ''a'' | DataPartition \<Rightarrow> ''b'')"

definition formatBoolean :: "bool \<Rightarrow> string" where
  "formatBoolean b = (if b then ''true'' else ''false'')"

text \<open>\<open>QString::trimmed\<close>: white space cut from both ends.\<close>

definition isSpace :: "char \<Rightarrow> bool" where
  "isSpace c = (c \<in> set [CHR '' '', CHR 0x09, CHR 0x0A, CHR 0x0B, CHR 0x0C, CHR 0x0D])"

definition trimmed :: "string \<Rightarrow> string" where
  "trimmed s = rev (dropWhile isSpace (rev (dropWhile isSpace s)))"

text \<open>\<open>parsePartition\<close> of the parser, and its test for \<open>true\<close>.\<close>

definition parsePartition :: "string \<Rightarrow> PartitionLabel" where
  "parsePartition str =
     (let lower = trimmed (toLower str) in
      if lower = ''a'' \<or> lower = ''0'' then IndexPartition
      else if lower = ''b'' \<or> lower = ''1'' then DataPartition
      else DataPartition)"

definition parseBoolean :: "string \<Rightarrow> bool" where
  "parseBoolean str = (toLower str = ''true'')"

text \<open>
  \<open>QString::toULongLong\<close> and \<open>QString::toLongLong\<close>: the value of a decimal
  numeral in range, 0 when the conversion fails. The numerals decided here are plain
  runs of digits, with a leading minus sign for the signed conversion, which is all
  \<open>QString::number\<close> prints.
\<close>

definition digit_value :: "char \<Rightarrow> int option" where
  "digit_value c = map_of (zip ''0123456789'' [0, 1, 2, 3, 4, 5, 6, 7, 8, 9]) c"

fun decimal_from :: "int \<Rightarrow> string \<Rightarrow> int option" where
  "decimal_from acc [] = Some acc"
| "decimal_from acc (c # cs) =
     (case digit_value c of None \<Rightarrow> None | Some d \<Rightarrow> decimal_from (10 * acc + d) cs)"

definition decimal :: "string \<Rightarrow> int option" where
  "decimal s = (if s = [] then None else decimal_from 0 s)"

definition toULongLong :: "string \<Rightarrow> u64" where
  "toULongLong s =
     (case decimal s of
        None \<Rightarrow> 0
      | Some n \<Rightarrow> if n < 2 ^ 64 then of_int n else 0)"

definition toLongLong :: "string \<Rightarrow> u64" where
  "toLongLong s =
     (case s of
        [] \<Rightarrow> 0
      | c # cs \<Rightarrow>
          if c = CHR ''-'' then
            (case decimal cs of
               None \<Rightarrow> 0
             | Some n \<Rightarrow> if n \<le> 2 ^ 63 then of_int (- n) else 0)
          else
            (case decimal s of
               None \<Rightarrow> 0
             | Some n \<Rightarrow> if n < 2 ^ 63 then of_int n else 0))"

text \<open>
  \<open>QUuid::fromString\<close> on the text form: five groups of 8, 4, 4, 4 and 12
  hexadecimal digits joined by hyphens give the uuid (printed in lower case); any
  other text gives the null uuid.
\<close>

definition isHexDigit :: "char \<Rightarrow> bool" where
  "isHexDigit c = (c \<in> set ''0123456789abcdefABCDEF'')"

definition uuidShape :: "char \<Rightarrow> char" where
  "uuidShape c = (if isHexDigit c then CHR ''h'' else if c = CHR ''-'' then c else CHR ''?'')"

definition isUuidText :: "string \<Rightarrow> bool" where
  "isUuidText s = (map uuidShape s = ''hhhhhhhh-hhhh-hhhh-hhhh-hhhhhhhhhhhh'')"

definition nullUuid :: QUuid where
  "nullUuid = ''00000000-0000-0000-0000-000000000000''"

definition QUuid_fromString :: "string \<Rightarrow> QUuid" where
  "QUuid_fromString s = (if isUuidText s then toLower s else nullUuid)"

definition QUuid_toString :: "QUuid \<Rightarrow> string" where
  "QUuid_toString u = u"

text \<open>
  \<open>IndexWriter::formatTimestamp\<close>. \<open>pad\<close> is a number printed in a field of
  the given width filled with \<open>'0'\<close>, as the \<open>yyyy\<close>, \<open>MM\<close>, ... of
  \<open>QDateTime::toString\<close> and \<open>arg(msec, 3, 10, QLatin1Char('0'))\<close> print it.
  \<open>now\<close> is the answer of \<open>QDateTime::currentDateTimeUtc()\<close>.
\<close>

definition pad :: "nat \<Rightarrow> nat \<Rightarrow> string" where
  "pad width n = (let ds = digits 10 n in replicate (width - length ds) CHR ''0'' @ ds)"

definition toString_seconds :: "UtcTime \<Rightarrow> string" where
  "toString_seconds t =
     pad 4 (year t) @ ''-'' @ pad 2 (month t) @ ''-'' @ pad 2 (day t) @ ''T'' @
     pad 2 (hour t) @ '':'' @ pad 2 (minute t) @ '':'' @ pad 2 (second t)"

definition formatTimestamp :: "UtcTime \<Rightarrow> QDateTime \<Rightarrow> string" where
  "formatTimestamp now dt =
     (let utc = (case dt of None \<Rightarrow> now | Some t \<Rightarrow> t);
          base = toString_seconds utc;
          base = (if msec utc > 0 then base @ ''.'' @ pad 3 (msec utc) else base)
      in base @ ''Z'')"

text \<open>
  Qt's \<open>QDateTime::fromString\<close>. The times a \<open>QDateTime\<close> of this model holds
  are the calendar times with a year of four digits. The texts decided are those of
  the shape \<open>yyyy-MM-ddTHH:mm:ss\<close>, with or without a fraction of one to three
  digits: ending in \<open>Z\<close> for the two ISO formats (a text without it, or with an
  offset, Qt reads relative to a time zone, which this model does not have; it
  counts as not parsed here), and the bare shape for the two format strings. For
  reading, \<open>Qt::ISODate\<close> and \<open>Qt::ISODateWithMs\<close> take the same texts.
\<close>

definition isLeapYear :: "nat \<Rightarrow> bool" where
  "isLeapYear y = (y mod 4 = 0 \<and> (y mod 100 \<noteq> 0 \<or> y mod 400 = 0))"

definition daysInMonth :: "nat \<Rightarrow> nat \<Rightarrow> nat" where
  "daysInMonth y m =
     (if m = 2 then (if isLeapYear y then 29 else 28)
      else if m = 4 \<or> m = 6 \<or> m = 9 \<or> m = 11 then 30 else 31)"

definition validTime :: "UtcTime \<Rightarrow> bool" where
  "validTime t =
     (1 \<le> year t \<and> year t \<le> 9999 \<and> 1 \<le> month t \<and> month t \<le> 12 \<and>
      1 \<le> day t \<and> day t \<le> daysInMonth (year t) (month t) \<and>
      hour t < 24 \<and> minute t < 60 \<and> second t < 60 \<and> msec t < 1000)"

definition field :: "nat \<Rightarrow> nat \<Rightarrow> string \<Rightarrow> nat option" where
  "field start width s =
     (if start + width \<le> length s then map_option nat (decimal (take width (drop start s)))
      else None)"

definition fraction :: "string \<Rightarrow> nat option" where
  "fraction s =
     (case s of
        [] \<Rightarrow> Some 0
      | c # ds \<Rightarrow>
          if c = CHR ''.'' \<and> 1 \<le> length ds \<and> length ds \<le> 3
          then map_option nat (decimal (ds @ replicate (3 - length ds) CHR ''0''))
          else None)"

definition parseFields :: "string \<Rightarrow> QDateTime" where
  "parseFields s =
     (if 19 \<le> length s \<and> s ! 4 = CHR ''-'' \<and> s ! 7 = CHR ''-'' \<and> s ! 10 = CHR ''T'' \<and>
         s ! 13 = CHR '':'' \<and> s ! 16 = CHR '':'' then
        (case (field 0 4 s, field 5 2 s, field 8 2 s, field 11 2 s, field 14 2 s,
               field 17 2 s, fraction (drop 19 s)) of
           (Some y, Some mo, Some d, Some h, Some mi, Some se, Some ms) \<Rightarrow>
             (let t = \<lparr>year = y, month = mo, day = d, hour = h, minute = mi,
                       second = se, msec = ms\<rparr>
              in if validTime t then Some t else None)
         | _ \<Rightarrow> None)
      else None)"

definition endsWith :: "string \<Rightarrow> char \<Rightarrow> bool" where
  "endsWith s c = (s \<noteq> [] \<and> last s = c)"

definition fromString_ISODateWithMs :: "string \<Rightarrow> QDateTime" where
  "fromString_ISODateWithMs s = (if endsWith s CHR ''Z'' then parseFields (butlast s) else None)"

definition fromString_ISODate :: "string \<Rightarrow> QDateTime" where
  "fromString_ISODate s = fromString_ISODateWithMs s"

definition fromString_zzz :: "string \<Rightarrow> QDateTime" where
  "fromString_zzz s = (if length s = 23 then parseFields s else None)"

definition fromString_ss :: "string \<Rightarrow> QDateTime" where
  "fromString_ss s = (if length s = 19 then parseFields s else None)"

text \<open>\<open>IndexParser::parseTimestamp\<close>.\<close>

definition parseTimestamp :: "UtcTime \<Rightarrow> string \<Rightarrow> QDateTime" where
  "parseTimestamp now str =
     (let dt = fromString_ISODateWithMs str in
      if dt \<noteq> None then dt
      else let dt = fromString_ISODate str in
      if dt \<noteq> None then dt
      else let modified = (if endsWith str CHR ''Z'' then butlast str else str);
               dt = fromString_zzz modified in
      if dt \<noteq> None then dt
      else let dt = fromString_ss modified in
      if dt \<noteq> None then dt
      else Some now)"

subsection \<open>IndexWriter\<close>

text \<open>
  Each function gives the tokens its calls add to the stream; \<open>formatted\<close> is the
  writer's auto-formatting flag and \<open>depth\<close> the number of elements open. The
  namespace declaration on the root element is not an attribute for the reader and is
  left out.
\<close>

definition writeLocation :: "bool \<Rightarrow> nat \<Rightarrow> string \<Rightarrow> LocationData \<Rightarrow> XmlToken list" where
  "writeLocation formatted depth elementName location =
     indent formatted depth @ [StartElement elementName []] @
     writeTextElement formatted (Suc depth) ''partition'' (formatPartition (loc_partition location)) @
     writeTextElement formatted (Suc depth) ''startblock'' (number_u (unat (loc_startBlock location))) @
     indent formatted depth @ [EndElement elementName]"

definition writeExtendedAttribute :: "bool \<Rightarrow> nat \<Rightarrow> ExtendedAttribute \<Rightarrow> XmlToken list" where
  "writeExtendedAttribute formatted depth attr =
     indent formatted depth @ [StartElement ''extendedattribute'' []] @
     writeTextElement formatted (Suc depth) ''key'' (ea_key attr) @
     writeTextElement formatted (Suc depth) ''value'' (ea_value attr) @
     indent formatted depth @ [EndElement ''extendedattribute'']"

definition writeExtent :: "bool \<Rightarrow> nat \<Rightarrow> LtfsExtent \<Rightarrow> XmlToken list" where
  "writeExtent formatted depth extent =
     indent formatted depth @ [StartElement ''extent'' []] @
     writeTextElement formatted (Suc depth) ''partition'' (formatPartition (ext_partition extent)) @
     writeTextElement formatted (Suc depth) ''startblock'' (number_u (unat (ext_startBlock extent))) @
     writeTextElement formatted (Suc depth) ''fileoffset'' (number_i (sint (fileOffset extent))) @
     writeTextElement formatted (Suc depth) ''byteoffset'' (number_i (sint (byteOffset extent))) @
     writeTextElement formatted (Suc depth) ''bytecount'' (number_i (sint (byteCount extent))) @
     indent formatted depth @ [EndElement ''extent'']"

definition writeFile :: "bool \<Rightarrow> UtcTime \<Rightarrow> nat \<Rightarrow> LtfsFile \<Rightarrow> XmlToken list" where
  "writeFile formatted now depth file =
     indent formatted depth @ [StartElement ''file'' []] @
     writeTextElement formatted (Suc depth) ''name'' (file_name file) @
     (if file_uid file > 0
      then writeTextElement formatted (Suc depth) ''uid'' (number_u (unat (file_uid file)))
      else []) @
     writeTextElement formatted (Suc depth) ''length'' (number_i (sint (file_length file))) @
     writeTextElement formatted (Suc depth) ''readonly'' (formatBoolean (file_readonly file)) @
     writeTextElement formatted (Suc depth) ''creationtime'' (formatTimestamp now (file_creationTime file)) @
     writeTextElement formatted (Suc depth) ''changetime'' (formatTimestamp now (file_changeTime file)) @
     writeTextElement formatted (Suc depth) ''modifytime'' (formatTimestamp now (file_modifyTime file)) @
     writeTextElement formatted (Suc depth) ''accesstime'' (formatTimestamp now (file_accessTime file)) @
     (if file_backupTime file \<noteq> None
      then writeTextElement formatted (Suc depth) ''backuptime'' (formatTimestamp now (file_backupTime file))
      else []) @
     concat (map (writeExtendedAttribute formatted (Suc depth)) (file_extendedAttributes file)) @
     (if extentInfo file \<noteq> [] then
        indent formatted (Suc depth) @ [StartElement ''extentinfo'' []] @
        concat (map (writeExtent formatted (Suc (Suc depth))) (extentInfo file)) @
        indent formatted (Suc depth) @ [EndElement ''extentinfo'']
      else []) @
     indent formatted depth @ [EndElement ''file'']"

fun writeDirectory :: "bool \<Rightarrow> UtcTime \<Rightarrow> nat \<Rightarrow> LtfsDirectory \<Rightarrow> XmlToken list" where
  "writeDirectory formatted now depth (LtfsDirectory directory subdirs) =
     indent formatted depth @ [StartElement ''directory'' []] @
     writeTextElement formatted (Suc depth) ''name'' (dir_name directory) @
     (if dir_uid directory > 0
      then writeTextElement formatted (Suc depth) ''uid'' (number_u (unat (dir_uid directory)))
      else []) @
     writeTextElement formatted (Suc depth) ''readonly'' (formatBoolean (dir_readonly directory)) @
     writeTextElement formatted (Suc depth) ''creationtime'' (formatTimestamp now (dir_creationTime directory)) @
     writeTextElement formatted (Suc depth) ''changetime'' (formatTimestamp now (dir_changeTime directory)) @
     writeTextElement formatted (Suc depth) ''modifytime'' (formatTimestamp now (dir_modifyTime directory)) @
     writeTextElement formatted (Suc depth) ''accesstime'' (formatTimestamp now (dir_accessTime directory)) @
     (if dir_backupTime directory \<noteq> None
      then writeTextElement formatted (Suc depth) ''backuptime'' (formatTimestamp now (dir_backupTime directory))
      else []) @
     concat (map (writeExtendedAttribute formatted (Suc depth)) (dir_extendedAttributes directory)) @
     concat (map (writeFile formatted now (Suc depth)) (dir_files directory)) @
     concat (map (writeDirectory formatted now (Suc depth)) subdirs) @
     indent formatted depth @ [EndElement ''directory'']"

definition writeIndex :: "bool \<Rightarrow> UtcTime \<Rightarrow> LtfsIndex \<Rightarrow> XmlToken list" where
  "writeIndex formatted now index =
     indent formatted 0 @
     [StartElement ''ltfsindex''
        [(''version'', if version index = [] then ''2.4.0'' else version index)]] @
     writeTextElement formatted 1 ''creator'' (creator index) @
     writeTextElement formatted 1 ''volumeuuid'' (QUuid_toString (volumeUuid index)) @
     writeTextElement formatted 1 ''generationnumber'' (number_u (unat (generationNumber index))) @
     writeTextElement formatted 1 ''updatetime'' (formatTimestamp now (updateTime index)) @
     writeLocation formatted 1 ''location'' (selfLocation index) @
     (if loc_startBlock (previousGenerationLocation index) > 0
      then writeLocation formatted 1 ''previousgenerationlocation'' (previousGenerationLocation index)
      else []) @
     writeTextElement formatted 1 ''allowpolicyupdate'' (formatBoolean (allowPolicyUpdate index)) @
     writeTextElement formatted 1 ''highestfileuid'' (number_u (unat (highestFileUid index))) @
     writeDirectory formatted now 1 (rootDirectory index) @
     indent formatted 0 @ [EndElement ''ltfsindex'']"

text \<open>
  \<open>IndexWriter::write\<close>: the document. The name carries the class, \<open>write\<close>
  alone being a keyword.
\<close>

definition IndexWriter_write :: "bool \<Rightarrow> UtcTime \<Rightarrow> LtfsIndex \<Rightarrow> XmlToken list" where
  "IndexWriter_write formatted now index = [StartDocument] @ writeIndex formatted now index @ [EndDocument]"

subsection \<open>IndexParser\<close>

text \<open>
  Each \<open>parse...\<close> function of the parser is a loop
  \<open>while (!xml.atEnd() && !xml.hasError()) { token = xml.readNext(); ... }\<close>. The
  functions below take the tokens not yet read and the object being filled, and give
  the object and the tokens left, or \<open>None\<close> once the reader is in its error
  state, which is what the document ending inside an element puts it in (every loop
  then ends and \<open>parse\<close> returns the null pointer). \<open>EndDocument\<close> is left at the
  head of the stream, so that every enclosing loop sees the reader at its end too.
  The first argument bounds the number of turns a loop may take; \<open>parse\<close> passes
  more than there are tokens.
\<close>

fun parseLocation ::
  "nat \<Rightarrow> XmlToken list \<Rightarrow> LocationData \<Rightarrow> (LocationData \<times> XmlToken list) option" where
  "parseLocation 0 ts location = None"
| "parseLocation (Suc n) [] location = None"
| "parseLocation (Suc n) (EndDocument # ts) location = Some (location, EndDocument # ts)"
| "parseLocation (Suc n) (EndElement name # ts) location =
     (if name = ''location'' \<or> name = ''previousgenerationlocation'' then Some (location, ts)
      else parseLocation n ts location)"
| "parseLocation (Suc n) (StartElement name attrs # ts) location =
     (if name = ''partition'' then
        with_text ts (\<lambda>s ts. parseLocation n ts (location\<lparr>loc_partition := parsePartition s\<rparr>))
      else if name = ''startblock'' then
        with_text ts (\<lambda>s ts. parseLocation n ts (location\<lparr>loc_startBlock := toULongLong s\<rparr>))
      else parseLocation n ts location)"
| "parseLocation (Suc n) (t # ts) location = parseLocation n ts location"

fun parseExtendedAttribute ::
  "nat \<Rightarrow> XmlToken list \<Rightarrow> ExtendedAttribute \<Rightarrow> (ExtendedAttribute \<times> XmlToken list) option" where
  "parseExtendedAttribute 0 ts attr = None"
| "parseExtendedAttribute (Suc n) [] attr = None"
| "parseExtendedAttribute (Suc n) (EndDocument # ts) attr = Some (attr, EndDocument # ts)"
| "parseExtendedAttribute (Suc n) (EndElement name # ts) attr =
     (if name = ''extendedattribute'' then Some (attr, ts)
      else parseExtendedAttribute n ts attr)"
| "parseExtendedAttribute (Suc n) (StartElement name attrs # ts) attr =
     (if name = ''key'' then
        with_text ts (\<lambda>s ts. parseExtendedAttribute n ts (attr\<lparr>ea_key := s\<rparr>))
      else if name = ''value'' then
        with_text ts (\<lambda>s ts. parseExtendedAttribute n ts (attr\<lparr>ea_value := s\<rparr>))
      else parseExtendedAttribute n ts attr)"
| "parseExtendedAttribute (Suc n) (t # ts) attr = parseExtendedAttribute n ts attr"

fun parseExtent ::
  "nat \<Rightarrow> XmlToken list \<Rightarrow> LtfsExtent \<Rightarrow> (LtfsExtent \<times> XmlToken list) option" where
  "parseExtent 0 ts extent = None"
| "parseExtent (Suc n) [] extent = None"
| "parseExtent (Suc n) (EndDocument # ts) extent = Some (extent, EndDocument # ts)"
| "parseExtent (Suc n) (EndElement name # ts) extent =
     (if name = ''extent'' then Some (extent, ts) else parseExtent n ts extent)"
| "parseExtent (Suc n) (StartElement name attrs # ts) extent =
     (if name = ''partition'' then
        with_text ts (\<lambda>s ts. parseExtent n ts (extent\<lparr>ext_partition := parsePartition s\<rparr>))
      else if name = ''startblock'' then
        with_text ts (\<lambda>s ts. parseExtent n ts (extent\<lparr>ext_startBlock := toULongLong s\<rparr>))
      else if name = ''fileoffset'' then
        with_text ts (\<lambda>s ts. parseExtent n ts (extent\<lparr>fileOffset := toLongLong s\<rparr>))
      else if name = ''byteoffset'' then
        with_text ts (\<lambda>s ts. parseExtent n ts (extent\<lparr>byteOffset := toLongLong s\<rparr>))
      else if name = ''bytecount'' then
        with_text ts (\<lambda>s ts. parseExtent n ts (extent\<lparr>byteCount := toLongLong s\<rparr>))
      else parseExtent n ts extent)"
| "parseExtent (Suc n) (t # ts) extent = parseExtent n ts extent"

text \<open>
  \<open>parseFile\<close>; \<open>extents\<close> is its local list, stored in the file when the end tag
  of the file is read.
\<close>

fun parseFile ::
  "Defaults \<Rightarrow> UtcTime \<Rightarrow> nat \<Rightarrow> XmlToken list \<Rightarrow> LtfsExtent list \<Rightarrow> LtfsFile \<Rightarrow>
   (LtfsFile \<times> XmlToken list) option" where
  "parseFile dfl now 0 ts extents file = None"
| "parseFile dfl now (Suc n) [] extents file = None"
| "parseFile dfl now (Suc n) (EndDocument # ts) extents file = Some (file, EndDocument # ts)"
| "parseFile dfl now (Suc n) (EndElement name # ts) extents file =
     (if name = ''file'' then Some (file\<lparr>extentInfo := extents\<rparr>, ts)
      else parseFile dfl now n ts extents file)"
| "parseFile dfl now (Suc n) (StartElement name attrs # ts) extents file =
     (if name = ''name'' then
        with_text ts (\<lambda>s ts. parseFile dfl now n ts extents (file\<lparr>file_name := s\<rparr>))
      else if name = ''readonly'' then
        with_text ts (\<lambda>s ts. parseFile dfl now n ts extents (file\<lparr>file_readonly := parseBoolean s\<rparr>))
      else if name = ''creationtime'' then
        with_text ts (\<lambda>s ts. parseFile dfl now n ts extents
          (file\<lparr>file_creationTime := parseTimestamp now s\<rparr>))
      else if name = ''changetime'' then
        with_text ts (\<lambda>s ts. parseFile dfl now n ts extents
          (file\<lparr>file_changeTime := parseTimestamp now s\<rparr>))
      else if name = ''modifytime'' then
        with_text ts (\<lambda>s ts. parseFile dfl now n ts extents
          (file\<lparr>file_modifyTime := parseTimestamp now s\<rparr>))
      else if name = ''accesstime'' then
        with_text ts (\<lambda>s ts. parseFile dfl now n ts extents
          (file\<lparr>file_accessTime := parseTimestamp now s\<rparr>))
      else if name = ''backuptime'' then
        with_text ts (\<lambda>s ts. parseFile dfl now n ts extents
          (file\<lparr>file_backupTime := parseTimestamp now s\<rparr>))
      else if name = ''length'' then
        with_text ts (\<lambda>s ts. parseFile dfl now n ts extents (file\<lparr>file_length := toLongLong s\<rparr>))
      else if name = ''uid'' then
        with_text ts (\<lambda>s ts. parseFile dfl now n ts extents (file\<lparr>file_uid := toULongLong s\<rparr>))
      else if name = ''extentinfo'' then parseFile dfl now n ts extents file
      else if name = ''extent'' then
        (case parseExtent n ts (default_extent dfl) of
           None \<Rightarrow> None
         | Some (extent, ts) \<Rightarrow> parseFile dfl now n ts (extents @ [extent]) file)
      else if name = ''extendedattribute'' then
        (case parseExtendedAttribute n ts (default_attribute dfl) of
           None \<Rightarrow> None
         | Some (attr, ts) \<Rightarrow>
             parseFile dfl now n ts extents
               (file\<lparr>file_extendedAttributes := file_extendedAttributes file @ [attr]\<rparr>))
      else parseFile dfl now n ts extents file)"
| "parseFile dfl now (Suc n) (t # ts) extents file = parseFile dfl now n ts extents file"

fun parseDirectory ::
  "Defaults \<Rightarrow> UtcTime \<Rightarrow> nat \<Rightarrow> XmlToken list \<Rightarrow> LtfsDirectory \<Rightarrow>
   (LtfsDirectory \<times> XmlToken list) option" where
  "parseDirectory dfl now 0 ts directory = None"
| "parseDirectory dfl now (Suc n) [] directory = None"
| "parseDirectory dfl now (Suc n) (EndDocument # ts) directory = Some (directory, EndDocument # ts)"
| "parseDirectory dfl now (Suc n) (EndElement name # ts) directory =
     (if name = ''directory'' then Some (directory, ts)
      else parseDirectory dfl now n ts directory)"
| "parseDirectory dfl now (Suc n) (StartElement name attrs # ts) directory =
     (if name = ''name'' then
        with_text ts (\<lambda>s ts. parseDirectory dfl now n ts
          (updateFields (\<lambda>m. m\<lparr>dir_name := s\<rparr>) directory))
      else if name = ''readonly'' then
        with_text ts (\<lambda>s ts. parseDirectory dfl now n ts
          (updateFields (\<lambda>m. m\<lparr>dir_readonly := parseBoolean s\<rparr>) directory))
      else if name = ''creationtime'' then
        with_text ts (\<lambda>s ts. parseDirectory dfl now n ts
          (updateFields (\<lambda>m. m\<lparr>dir_creationTime := parseTimestamp now s\<rparr>) directory))
      else if name = ''changetime'' then
        with_text ts (\<lambda>s ts. parseDirectory dfl now n ts
          (updateFields (\<lambda>m. m\<lparr>dir_changeTime := parseTimestamp now s\<rparr>) directory))
      else if name = ''modifytime'' then
        with_text ts (\<lambda>s ts. parseDirectory dfl now n ts
          (updateFields (\<lambda>m. m\<lparr>dir_modifyTime := parseTimestamp now s\<rparr>) directory))
      else if name = ''accesstime'' then
        with_text ts (\<lambda>s ts. parseDirectory dfl now n ts
          (updateFields (\<lambda>m. m\<lparr>dir_accessTime := parseTimestamp now s\<rparr>) directory))
      else if name = ''backuptime'' then
        with_text ts (\<lambda>s ts. parseDirectory dfl now n ts
          (updateFields (\<lambda>m. m\<lparr>dir_backupTime := parseTimestamp now s\<rparr>) directory))
      else if name = ''uid'' then
        with_text ts (\<lambda>s ts. parseDirectory dfl now n ts
          (updateFields (\<lambda>m. m\<lparr>dir_uid := toULongLong s\<rparr>) directory))
      else if name = ''file'' then
        (case parseFile dfl now n ts [] (default_file dfl) of
           None \<Rightarrow> None
         | Some (file, ts) \<Rightarrow> parseDirectory dfl now n ts (addFile file directory))
      else if name = ''directory'' then
        (case parseDirectory dfl now n ts (default_directory dfl) of
           None \<Rightarrow> None
         | Some (subdir, ts) \<Rightarrow> parseDirectory dfl now n ts (addSubdirectory subdir directory))
      else if name = ''extendedattribute'' then
        (case parseExtendedAttribute n ts (default_attribute dfl) of
           None \<Rightarrow> None
         | Some (attr, ts) \<Rightarrow>
             parseDirectory dfl now n ts
               (updateFields
                  (\<lambda>m. m\<lparr>dir_extendedAttributes := dir_extendedAttributes m @ [attr]\<rparr>)
                  directory))
      else parseDirectory dfl now n ts directory)"
| "parseDirectory dfl now (Suc n) (t # ts) directory = parseDirectory dfl now n ts directory"

fun parseIndex ::
  "Defaults \<Rightarrow> UtcTime \<Rightarrow> nat \<Rightarrow> XmlToken list \<Rightarrow> LtfsIndex \<Rightarrow>
   (LtfsIndex \<times> XmlToken list) option" where
  "parseIndex dfl now 0 ts index = None"
| "parseIndex dfl now (Suc n) [] index = None"
| "parseIndex dfl now (Suc n) (EndDocument # ts) index = Some (index, EndDocument # ts)"
| "parseIndex dfl now (Suc n) (EndElement name # ts) index =
     (if name = ''ltfsindex'' then Some (index, ts) else parseIndex dfl now n ts index)"
| "parseIndex dfl now (Suc n) (StartElement name attrs # ts) index =
     (if name = ''creator'' then
        with_text ts (\<lambda>s ts. parseIndex dfl now n ts (index\<lparr>creator := s\<rparr>))
      else if name = ''volumeuuid'' then
        with_text ts (\<lambda>s ts. parseIndex dfl now n ts (index\<lparr>volumeUuid := QUuid_fromString s\<rparr>))
      else if name = ''generationnumber'' then
        with_text ts (\<lambda>s ts. parseIndex dfl now n ts (index\<lparr>generationNumber := toULongLong s\<rparr>))
      else if name = ''updatetime'' then
        with_text ts (\<lambda>s ts. parseIndex dfl now n ts (index\<lparr>updateTime := parseTimestamp now s\<rparr>))
      else if name = ''location'' then
        (case parseLocation n ts (default_location dfl) of
           None \<Rightarrow> None
         | Some (location, ts) \<Rightarrow> parseIndex dfl now n ts (index\<lparr>selfLocation := location\<rparr>))
      else if name = ''previousgenerationlocation'' then
        (case parseLocation n ts (default_location dfl) of
           None \<Rightarrow> None
         | Some (location, ts) \<Rightarrow>
             parseIndex dfl now n ts (index\<lparr>previousGenerationLocation := location\<rparr>))
      else if name = ''allowpolicyupdate'' then
        with_text ts (\<lambda>s ts. parseIndex dfl now n ts (index\<lparr>allowPolicyUpdate := parseBoolean s\<rparr>))
      else if name = ''highestfileuid'' then
        with_text ts (\<lambda>s ts. parseIndex dfl now n ts (index\<lparr>highestFileUid := toULongLong s\<rparr>))
      else if name = ''directory'' then
        (case parseDirectory dfl now n ts (default_directory dfl) of
           None \<Rightarrow> None
         | Some (rootDir, ts) \<Rightarrow> parseIndex dfl now n ts (index\<lparr>rootDirectory := rootDir\<rparr>))
      else parseIndex dfl now n ts index)"
| "parseIndex dfl now (Suc n) (t # ts) index = parseIndex dfl now n ts index"

text \<open>
  \<open>IndexParser::parse\<close>: the loop over the document, and the index it returns
  unless the reader ended in its error state. \<open>attribute\<close> is
  \<open>xml.attributes().value(name).toString()\<close>.
\<close>

definition attribute :: "(string \<times> string) list \<Rightarrow> string \<Rightarrow> string" where
  "attribute attrs name = (case map_of attrs name of None \<Rightarrow> [] | Some v \<Rightarrow> v)"

fun parse_loop :: "Defaults \<Rightarrow> UtcTime \<Rightarrow> nat \<Rightarrow> XmlToken list \<Rightarrow> LtfsIndex \<Rightarrow> LtfsIndex option" where
  "parse_loop dfl now 0 ts index = None"
| "parse_loop dfl now (Suc n) [] index = None"
| "parse_loop dfl now (Suc n) (EndDocument # ts) index = Some index"
| "parse_loop dfl now (Suc n) (StartElement name attrs # ts) index =
     (if name = ''ltfsindex'' then
        (case parseIndex dfl now n ts (index\<lparr>version := attribute attrs ''version''\<rparr>) of
           None \<Rightarrow> None
         | Some (index, ts) \<Rightarrow> parse_loop dfl now n ts index)
      else parse_loop dfl now n ts index)"
| "parse_loop dfl now (Suc n) (t # ts) index = parse_loop dfl now n ts index"

definition parse :: "Defaults \<Rightarrow> UtcTime \<Rightarrow> XmlToken list \<Rightarrow> LtfsIndex option" where
  "parse dfl now tokens = parse_loop dfl now (Suc (length tokens)) tokens (default_index dfl)"

subsection \<open>Indexes that can be written and read back\<close>

text \<open>
  A time the writer prints as it is: a valid \<open>QDateTime\<close>, of a year of four
  digits. \<open>optional_time\<close> is for \<open>backuptime\<close>, which the writer leaves out when
  it is not valid.
\<close>

definition written_time :: "QDateTime \<Rightarrow> bool" where
  "written_time dt = (case dt of None \<Rightarrow> False | Some t \<Rightarrow> validTime t)"

definition optional_time :: "QDateTime \<Rightarrow> bool" where
  "optional_time dt = (case dt of None \<Rightarrow> True | Some t \<Rightarrow> validTime t)"

definition file_ok :: "LtfsFile \<Rightarrow> bool" where
  "file_ok file =
     (written_time (file_creationTime file) \<and> written_time (file_changeTime file) \<and>
      written_time (file_modifyTime file) \<and> written_time (file_accessTime file) \<and>
      optional_time (file_backupTime file))"

fun directory_ok :: "LtfsDirectory \<Rightarrow> bool" where
  "directory_ok (LtfsDirectory directory subdirs) =
     (written_time (dir_creationTime directory) \<and> written_time (dir_changeTime directory) \<and>
      written_time (dir_modifyTime directory) \<and> written_time (dir_accessTime directory) \<and>
      optional_time (dir_backupTime directory) \<and>
      list_all file_ok (dir_files directory) \<and> list_all directory_ok subdirs)"

definition canonicalUuid :: "QUuid \<Rightarrow> bool" where
  "canonicalUuid u = (isUuidText u \<and> toLower u = u)"

text \<open>
  The default-constructed objects the parser starts from, as far as the writer can
  leave a field of theirs untouched: no uid, no backup time, empty lists.
\<close>

definition plain_defaults :: "Defaults \<Rightarrow> bool" where
  "plain_defaults dfl =
     (file_uid (default_file dfl) = 0 \<and> file_backupTime (default_file dfl) = None \<and>
      file_extendedAttributes (default_file dfl) = [] \<and>
      dir_uid (dir_fields (default_directory dfl)) = 0 \<and>
      dir_backupTime (dir_fields (default_directory dfl)) = None \<and>
      dir_extendedAttributes (dir_fields (default_directory dfl)) = [] \<and>
      dir_files (dir_fields (default_directory dfl)) = [] \<and>
      subdirectories (default_directory dfl) = [])"

text \<open>
  The indexes of the round trip: a version is set, the uuid is one \<open>QUuid\<close> prints,
  the times are as above, and a previous generation location with start block 0,
  which the writer leaves out, is the one a new index has.
\<close>

definition index_ok :: "Defaults \<Rightarrow> LtfsIndex \<Rightarrow> bool" where
  "index_ok dfl index =
     (version index \<noteq> [] \<and> canonicalUuid (volumeUuid index) \<and>
      written_time (updateTime index) \<and>
      (loc_startBlock (previousGenerationLocation index) > 0 \<or>
       previousGenerationLocation index = previousGenerationLocation (default_index dfl)) \<and>
      directory_ok (rootDirectory index))"

text \<open>
  A loop of the parser going through a run of tokens: given more turns than there
  are tokens in the run, it reaches the tokens after the run, in the state
  \<open>L'\<close>, with the turns to spare still there.
\<close>

definition steps ::
  "(nat \<Rightarrow> XmlToken list \<Rightarrow> 'r option) \<Rightarrow> XmlToken list \<Rightarrow>
   (nat \<Rightarrow> XmlToken list \<Rightarrow> 'r option) \<Rightarrow> bool" where
  "steps L toks L' =
     (\<forall>n k rest. length toks + k \<le> n \<longrightarrow> (\<exists>n'. k \<le> n' \<and> L n (toks @ rest) = L' n' rest))"

subsection \<open>An index of the round-trip shape\<close>

text \<open>
  One directory with two files, the first of two extents. The defaults are what
  the classes plausibly construct: empty strings and lists, zeros, invalid times.
\<close>

definition example_now :: UtcTime where
  "example_now = \<lparr>year = 2026, month = 3, day = 1, hour = 8, minute = 0, second = 0, msec = 0\<rparr>"

definition example_stamp :: QDateTime where
  "example_stamp = Some \<lparr>year = 2024, month = 1, day = 15, hour = 12, minute = 30,
     second = 45, msec = 123\<rparr>"

definition example_stamp_whole :: QDateTime where
  "example_stamp_whole = Some \<lparr>year = 2024, month = 2, day = 29, hour = 23, minute = 59,
     second = 59, msec = 0\<rparr>"

definition example_location :: LocationData where
  "example_location = \<lparr>loc_partition = DataPartition, loc_startBlock = 0\<rparr>"

definition example_directory_fields :: DirectoryFields where
  "example_directory_fields =
     \<lparr>dir_name = [], dir_uid = 0, dir_readonly = False, dir_creationTime = None,
      dir_changeTime = None, dir_modifyTime = None, dir_accessTime = None,
      dir_backupTime = None, dir_extendedAttributes = [], dir_files = []\<rparr>"

definition example_defaults :: Defaults where
  "example_defaults =
     \<lparr>default_index =
        \<lparr>version = [], creator = [], volumeUuid = nullUuid, generationNumber = 0,
         updateTime = None, selfLocation = example_location,
         previousGenerationLocation = example_location, allowPolicyUpdate = False,
         highestFileUid = 0, rootDirectory = LtfsDirectory example_directory_fields []\<rparr>,
      default_directory = LtfsDirectory example_directory_fields [],
      default_file =
        \<lparr>file_name = [], file_uid = 0, file_length = 0, file_readonly = False,
         file_creationTime = None, file_changeTime = None, file_modifyTime = None,
         file_accessTime = None, file_backupTime = None, file_extendedAttributes = [],
         extentInfo = []\<rparr>,
      default_extent =
        \<lparr>ext_partition = DataPartition, ext_startBlock = 0, fileOffset = 0, byteOffset = 0,
         byteCount = 0\<rparr>,
      default_location = example_location,
      default_attribute = \<lparr>ea_key = [], ea_value = []\<rparr>\<rparr>"

definition example_files :: "LtfsFile list" where
  "example_files =
     [\<lparr>file_name = ''a.bin'', file_uid = 2, file_length = 1500, file_readonly = False,
        file_creationTime = example_stamp, file_changeTime = example_stamp_whole,
        file_modifyTime = example_stamp, file_accessTime = example_stamp,
        file_backupTime = None,
        file_extendedAttributes = [\<lparr>ea_key = ''ltfs.hash.sha256sum'', ea_value = ''ab12''\<rparr>],
        extentInfo =
          [\<lparr>ext_partition = DataPartition, ext_startBlock = 10, fileOffset = 1000,
             byteOffset = 0, byteCount = 500\<rparr>,
           \<lparr>ext_partition = IndexPartition, ext_startBlock = 4, fileOffset = 0,
             byteOffset = 12, byteCount = 1000\<rparr>]\<rparr>,
      \<lparr>file_name = ''b.txt'', file_uid = 3, file_length = 0, file_readonly = True,
        file_creationTime = example_stamp, file_changeTime = example_stamp,
        file_modifyTime = example_stamp, file_accessTime = example_stamp,
        file_backupTime = example_stamp_whole, file_extendedAttributes = [],
        extentInfo = []\<rparr>]"

definition example_index :: LtfsIndex where
  "example_index =
     \<lparr>version = ''2.4.0'', creator = ''QLTOTapeMan'',
      volumeUuid = ''12345678-9abc-def0-1234-56789abcdef0'', generationNumber = 7,
      updateTime = example_stamp,
      selfLocation = \<lparr>loc_partition = IndexPartition, loc_startBlock = 5\<rparr>,
      previousGenerationLocation = example_location, allowPolicyUpdate = True,
      highestFileUid = 3,
      rootDirectory =
        LtfsDirectory
          (example_directory_fields
             \<lparr>dir_name := ''volume'', dir_uid := 1, dir_creationTime := example_stamp,
              dir_changeTime := example_stamp, dir_modifyTime := example_stamp,
              dir_accessTime := example_stamp, dir_files := example_files\<rparr>)
          []\<rparr>"

text \<open>The same index before a version was set.\<close>

definition unversioned_index :: LtfsIndex where
  "unversioned_index = example_index\<lparr>version := []\<rparr>"

section \<open>The index written and read back\<close>

subsection \<open>Numbers, times and flags\<close>

lemma digit_value_digit_char: "d < 10 \<Longrightarrow> digit_value (digit_char d) = Some (int d)"
proof -
  assume "d < 10"
  then have "d \<in> {0, 1, 2, 3, 4, 5, 6, 7, 8, 9}" by auto
  then show ?thesis by (auto simp: digit_value_def digit_char_def)
qed

lemma digit_char_not_minus: "d < 10 \<Longrightarrow> digit_char d \<noteq> CHR ''-''"
proof -
  assume "d < 10"
  then have "d \<in> {0, 1, 2, 3, 4, 5, 6, 7, 8, 9}" by auto
  then show ?thesis by (auto simp: digit_char_def)
qed

lemma decimal_from_snoc:
  "decimal_from acc (cs @ [c]) =
     (case decimal_from acc cs of
        None \<Rightarrow> None
      | Some v \<Rightarrow> (case digit_value c of None \<Rightarrow> None | Some d \<Rightarrow> Some (10 * v + d)))"
  by (induction cs arbitrary: acc) (auto split: option.splits)

lemma digits_nonempty: "digits 10 n \<noteq> []"
  by (subst digits.simps) simp

lemma decimal_from_digits: "decimal_from 0 (digits 10 n) = Some (int n)"
proof (induction n rule: less_induct)
  case (less n)
  show ?case
  proof (cases "n < 10")
    case True
    then show ?thesis by (subst digits.simps) (simp add: digit_value_digit_char)
  next
    case False
    then have "n div 10 < n" by simp
    have "10 * int (n div 10) + int (n mod 10) = int n" by presburger
    with less [OF \<open>n div 10 < n\<close>] False show ?thesis
      by (subst digits.simps) (simp add: decimal_from_snoc digit_value_digit_char)
  qed
qed

lemma decimal_digits: "decimal (digits 10 n) = Some (int n)"
  by (simp add: decimal_def digits_nonempty decimal_from_digits)

lemma hd_digits_not_minus: "hd (digits 10 n) \<noteq> CHR ''-''"
proof (induction n rule: less_induct)
  case (less n)
  show ?case
  proof (cases "n < 10")
    case True
    then show ?thesis by (subst digits.simps) (simp add: digit_char_not_minus)
  next
    case False
    then have "n div 10 < n" by simp
    from less [OF this] False show ?thesis
      by (subst digits.simps) (simp add: digits_nonempty)
  qed
qed

lemma length_digits: "n < 10 ^ k \<Longrightarrow> 0 < k \<Longrightarrow> length (digits 10 n) \<le> k"
proof (induction k arbitrary: n)
  case 0
  then show ?case by simp
next
  case (Suc k)
  show ?case
  proof (cases "n < 10")
    case True
    then show ?thesis by (subst digits.simps) simp
  next
    case False
    with Suc.prems have "n div 10 < 10 ^ k" "0 < k"
      by (auto simp: less_mult_imp_div_less mult.commute intro!: Nat.gr0I)
    from Suc.IH [OF this] False show ?thesis by (subst digits.simps) simp
  qed
qed

lemma decimal_from_zeros: "decimal_from 0 (replicate k CHR ''0'' @ cs) = decimal_from 0 cs"
  by (induction k) (simp_all add: digit_value_def)

lemma length_pad: "n < 10 ^ k \<Longrightarrow> 0 < k \<Longrightarrow> length (pad k n) = k"
  using length_digits [of n k] by (simp add: pad_def Let_def)

lemma decimal_pad: "decimal (pad k n) = Some (int n)"
  by (simp add: decimal_def pad_def Let_def digits_nonempty decimal_from_zeros decimal_from_digits)

lemma toULongLong_number: "toULongLong (number_u (unat w)) = w"
proof -
  have "uint w < 2 ^ 64" using uint_lt2p [of w] by simp
  then show ?thesis by (simp add: toULongLong_def number_u_def decimal_digits)
qed

lemma toLongLong_number: "toLongLong (number_i (sint (w :: u64))) = w"
proof (cases "sint w < 0")
  case True
  have "- (2 ^ 63) \<le> sint w" using sint_ge [of w] by simp
  with True have "int (nat (- sint w)) \<le> 2 ^ 63" by simp
  with True show ?thesis
    by (simp add: toLongLong_def number_i_def decimal_digits)
next
  case False
  obtain c cs where cs: "digits 10 (nat (sint w)) = c # cs"
    using digits_nonempty [of "nat (sint w)"] by (cases "digits 10 (nat (sint w))") auto
  with hd_digits_not_minus [of "nat (sint w)"] have c: "c \<noteq> CHR ''-''" by simp
  have "sint w < 2 ^ 63" using sint_lt [of w] by simp
  with False have lt: "int (nat (sint w)) < 2 ^ 63" by simp
  have "decimal (c # cs) = Some (int (nat (sint w)))"
    using decimal_digits [of "nat (sint w)"] cs by simp
  with False c lt cs show ?thesis
    by (simp add: toLongLong_def number_i_def)
qed

lemma parsePartition_formatPartition: "parsePartition (formatPartition p) = p"
  by (cases p) (simp_all add: parsePartition_def formatPartition_def toLower_def toLower_char_def
      trimmed_def isSpace_def)

lemma parseBoolean_formatBoolean: "parseBoolean (formatBoolean b) = b"
  by (simp add: parseBoolean_def formatBoolean_def toLower_def toLower_char_def)

lemma readElementText_element:
  "readElementText ((if s = [] then [] else [Characters s]) @ EndElement name # rest) = Some (s, rest)"
  by (simp add: readElementText_def)

lemma field_read:
  "length pre = start \<Longrightarrow> length xs = width \<Longrightarrow>
   field start width (pre @ xs @ post) = map_option nat (decimal xs)"
  by (simp add: field_def)

lemma parseFields_toString:
  assumes v: "validTime t"
    and fr: "fraction frac = Some (msec t)"
  shows "parseFields (toString_seconds t @ frac) = Some t"
proof -
  define Y where "Y = pad 4 (year t)"
  define Mo where "Mo = pad 2 (month t)"
  define D where "D = pad 2 (day t)"
  define H where "H = pad 2 (hour t)"
  define Mi where "Mi = pad 2 (minute t)"
  define S where "S = pad 2 (second t)"
  have dim: "daysInMonth (year t) (month t) \<le> 31" by (simp add: daysInMonth_def)
  from v dim have len: "length Y = 4" "length Mo = 2" "length D = 2" "length H = 2"
    "length Mi = 2" "length S = 2"
    unfolding Y_def Mo_def D_def H_def Mi_def S_def validTime_def
    by (simp_all add: length_pad)
  have dec: "decimal Y = Some (int (year t))" "decimal Mo = Some (int (month t))"
    "decimal D = Some (int (day t))" "decimal H = Some (int (hour t))"
    "decimal Mi = Some (int (minute t))" "decimal S = Some (int (second t))"
    unfolding Y_def Mo_def D_def H_def Mi_def S_def by (simp_all add: decimal_pad)
  have s: "toString_seconds t @ frac =
      Y @ ''-'' @ Mo @ ''-'' @ D @ ''T'' @ H @ '':'' @ Mi @ '':'' @ S @ frac"
    by (simp add: toString_seconds_def Y_def Mo_def D_def H_def Mi_def S_def)
  have f1: "field 0 4 (toString_seconds t @ frac) = Some (year t)"
    using field_read [of "[]" 0 Y 4] len dec unfolding s by simp
  have f2: "field 5 2 (toString_seconds t @ frac) = Some (month t)"
    using field_read [of "Y @ ''-''" 5 Mo 2] len dec unfolding s by simp
  have f3: "field 8 2 (toString_seconds t @ frac) = Some (day t)"
    using field_read [of "Y @ ''-'' @ Mo @ ''-''" 8 D 2] len dec unfolding s by simp
  have f4: "field 11 2 (toString_seconds t @ frac) = Some (hour t)"
    using field_read [of "Y @ ''-'' @ Mo @ ''-'' @ D @ ''T''" 11 H 2] len dec unfolding s by simp
  have f5: "field 14 2 (toString_seconds t @ frac) = Some (minute t)"
    using field_read [of "Y @ ''-'' @ Mo @ ''-'' @ D @ ''T'' @ H @ '':''" 14 Mi 2] len dec
    unfolding s by simp
  have f6: "field 17 2 (toString_seconds t @ frac) = Some (second t)"
    using field_read [of "Y @ ''-'' @ Mo @ ''-'' @ D @ ''T'' @ H @ '':'' @ Mi @ '':''" 17 S 2] len dec
    unfolding s by simp
  have seps: "19 \<le> length (toString_seconds t @ frac)"
    "(toString_seconds t @ frac) ! 4 = CHR ''-''" "(toString_seconds t @ frac) ! 7 = CHR ''-''"
    "(toString_seconds t @ frac) ! 10 = CHR ''T''" "(toString_seconds t @ frac) ! 13 = CHR '':''"
    "(toString_seconds t @ frac) ! 16 = CHR '':''"
    unfolding s using len by (simp_all add: nth_append)
  have dr: "drop 19 (toString_seconds t @ frac) = frac"
    unfolding s using len by simp
  have t: "\<lparr>year = year t, month = month t, day = day t, hour = hour t,
      minute = minute t, second = second t, msec = msec t\<rparr> = t" by simp
  show ?thesis
    by (simp only: parseFields_def seps f1 f2 f3 f4 f5 f6 dr fr t v Let_def simp_thms if_True
        prod.case option.case)
qed

lemma fraction_pad:
  assumes "0 < m" "m < 1000"
  shows "fraction (CHR ''.'' # pad 3 m) = Some m"
proof -
  from assms have "length (pad 3 m) = 3" by (simp add: length_pad)
  then show ?thesis by (simp add: fraction_def decimal_pad)
qed

lemma parseTimestamp_formatTimestamp:
  assumes "validTime t"
  shows "parseTimestamp now (formatTimestamp now' (Some t)) = Some t"
proof -
  have m: "msec t < 1000" using assms by (simp add: validTime_def)
  have "fromString_ISODateWithMs (formatTimestamp now' (Some t)) = Some t"
  proof (cases "msec t = 0")
    case True
    with parseFields_toString [OF assms, of "[]"] show ?thesis
      by (simp add: fromString_ISODateWithMs_def formatTimestamp_def endsWith_def Let_def
          fraction_def butlast_append)
  next
    case False
    with m have "fraction (''.'' @ pad 3 (msec t)) = Some (msec t)" by (simp add: fraction_pad)
    from parseFields_toString [OF assms this] False show ?thesis
      by (simp add: fromString_ISODateWithMs_def formatTimestamp_def endsWith_def Let_def
          butlast_append)
  qed
  then show ?thesis by (simp add: parseTimestamp_def Let_def)
qed

lemma QUuid_round_trip:
  "isUuidText u \<Longrightarrow> toLower u = u \<Longrightarrow> QUuid_fromString (QUuid_toString u) = u"
  by (simp add: QUuid_fromString_def QUuid_toString_def)

subsection \<open>Loops over runs of tokens\<close>

lemma steps_refl: "steps L [] L"
  unfolding steps_def by auto

lemma steps_append:
  assumes "steps L a L'" and "steps L' b L''"
  shows "steps L (a @ b) L''"
  unfolding steps_def
proof (intro allI impI)
  fix n k rest
  assume "length (a @ b) + k \<le> n"
  then have "length a + (length b + k) \<le> n" by simp
  with assms(1) obtain n1 where n1: "length b + k \<le> n1" "L n (a @ (b @ rest)) = L' n1 (b @ rest)"
    unfolding steps_def by blast
  from assms(2) n1(1) obtain n2 where "k \<le> n2" "L' n1 (b @ rest) = L'' n2 rest"
    unfolding steps_def by blast
  with n1(2) show "\<exists>n'. k \<le> n' \<and> L n ((a @ b) @ rest) = L'' n' rest" by auto
qed

lemma steps_token:
  assumes "\<And>m ts. L (Suc m) (t # ts) = L' m ts"
  shows "steps L [t] L'"
  unfolding steps_def
proof (intro allI impI)
  fix n k rest
  assume "length [t] + k \<le> n"
  then obtain m where "n = Suc m" "k \<le> m" by (cases n) auto
  with assms show "\<exists>n'. k \<le> n' \<and> L n ([t] @ rest) = L' n' rest" by auto
qed

lemma steps_indent:
  assumes "\<And>m ts c. L (Suc m) (Characters c # ts) = L m ts"
  shows "steps L (indent formatted depth) L"
  using assms by (auto simp: indent_def steps_refl intro: steps_token)

lemma steps_text:
  assumes skip: "\<And>m ts c. L (Suc m) (Characters c # ts) = L m ts"
    and disp: "\<And>m ts. L (Suc m) (StartElement name [] # ts) = with_text ts (\<lambda>s ts. K s m ts)"
  shows "steps L (writeTextElement formatted depth name s) (K s)"
proof -
  have "steps L ([StartElement name []] @ (if s = [] then [] else [Characters s]) @ [EndElement name]) (K s)"
    unfolding steps_def
  proof (intro allI impI)
    fix n k rest
    assume "length ([StartElement name []] @ (if s = [] then [] else [Characters s]) @ [EndElement name]) + k \<le> n"
    then obtain m where m: "n = Suc m" "k \<le> m" by (cases n) auto
    have "L (Suc m) (StartElement name [] # ((if s = [] then [] else [Characters s]) @ EndElement name # rest))
        = K s m rest"
      unfolding disp with_text_def readElementText_element by simp
    with m show "\<exists>n'. k \<le> n' \<and>
        L n (([StartElement name []] @ (if s = [] then [] else [Characters s]) @ [EndElement name]) @ rest) = K s n' rest"
      by auto
  qed
  from steps_append [OF steps_indent [of L, OF skip] this] show ?thesis
    by (simp add: writeTextElement_def)
qed

lemma steps_sub:
  assumes skip: "\<And>m ts c. L (Suc m) (Characters c # ts) = L m ts"
    and disp: "\<And>m ts. L (Suc m) (start # ts) =
        (case P m ts of None \<Rightarrow> None | Some (x, ts') \<Rightarrow> K x m ts')"
    and split: "toks = indent formatted depth @ start # body"
    and sub: "\<And>m rest. length body \<le> m \<Longrightarrow> P m (body @ rest) = Some (x, rest)"
  shows "steps L toks (K x)"
proof -
  have "steps L (start # body) (K x)"
    unfolding steps_def
  proof (intro allI impI)
    fix n k rest
    assume "length (start # body) + k \<le> n"
    then obtain m where m: "n = Suc m" "length body + k \<le> m" by (cases n) auto
    then have "length body \<le> m" "k \<le> m" by simp_all
    with sub [of m rest] disp [of m "body @ rest"] m
    have "k \<le> m \<and> L n ((start # body) @ rest) = K x m rest" by simp
    then show "\<exists>n'. k \<le> n' \<and> L n ((start # body) @ rest) = K x n' rest" ..
  qed
  from steps_append [OF steps_indent [of L, OF skip] this] split show ?thesis by simp
qed

lemma steps_finish:
  assumes "steps L body L'"
    and "\<And>m ts. L' (Suc m) (e # ts) = Some (x, ts)"
    and "length body < n"
  shows "L n (body @ e # rest) = Some (x, rest)"
proof -
  from assms(3) have "length body + 1 \<le> n" by simp
  with assms(1) obtain n' where "1 \<le> n'" "L n (body @ (e # rest)) = L' n' (e # rest)"
    unfolding steps_def by blast
  then show ?thesis using assms(2) [of "n' - 1" rest] by simp
qed

subsection \<open>Extents, locations, extended attributes\<close>

lemma parseExtent_steps:
  "steps (\<lambda>n ts. parseExtent n ts e) (indent formatted depth) (\<lambda>n ts. parseExtent n ts e)"
  "steps (\<lambda>n ts. parseExtent n ts e) (writeTextElement formatted depth ''partition'' s)
     (\<lambda>n ts. parseExtent n ts (e\<lparr>ext_partition := parsePartition s\<rparr>))"
  "steps (\<lambda>n ts. parseExtent n ts e) (writeTextElement formatted depth ''startblock'' s)
     (\<lambda>n ts. parseExtent n ts (e\<lparr>ext_startBlock := toULongLong s\<rparr>))"
  "steps (\<lambda>n ts. parseExtent n ts e) (writeTextElement formatted depth ''fileoffset'' s)
     (\<lambda>n ts. parseExtent n ts (e\<lparr>fileOffset := toLongLong s\<rparr>))"
  "steps (\<lambda>n ts. parseExtent n ts e) (writeTextElement formatted depth ''byteoffset'' s)
     (\<lambda>n ts. parseExtent n ts (e\<lparr>byteOffset := toLongLong s\<rparr>))"
  "steps (\<lambda>n ts. parseExtent n ts e) (writeTextElement formatted depth ''bytecount'' s)
     (\<lambda>n ts. parseExtent n ts (e\<lparr>byteCount := toLongLong s\<rparr>))"
       apply (rule steps_indent, simp)
      apply (rule steps_text [where K = "\<lambda>s n ts. parseExtent n ts (e\<lparr>ext_partition := parsePartition s\<rparr>)"]; simp)
     apply (rule steps_text [where K = "\<lambda>s n ts. parseExtent n ts (e\<lparr>ext_startBlock := toULongLong s\<rparr>)"]; simp)
    apply (rule steps_text [where K = "\<lambda>s n ts. parseExtent n ts (e\<lparr>fileOffset := toLongLong s\<rparr>)"]; simp)
   apply (rule steps_text [where K = "\<lambda>s n ts. parseExtent n ts (e\<lparr>byteOffset := toLongLong s\<rparr>)"]; simp)
  apply (rule steps_text [where K = "\<lambda>s n ts. parseExtent n ts (e\<lparr>byteCount := toLongLong s\<rparr>)"]; simp)
  done

lemma parseExtent_writeExtent:
  "\<exists>body. writeExtent formatted depth extent = indent formatted depth @ StartElement ''extent'' [] # body \<and>
     (\<forall>m rest e. length body \<le> m \<longrightarrow> parseExtent m (body @ rest) e = Some (extent, rest))"
proof (intro exI conjI allI impI)
  let ?body = "(writeTextElement formatted (Suc depth) ''partition'' (formatPartition (ext_partition extent)) @
     writeTextElement formatted (Suc depth) ''startblock'' (number_u (unat (ext_startBlock extent))) @
     writeTextElement formatted (Suc depth) ''fileoffset'' (number_i (sint (fileOffset extent))) @
     writeTextElement formatted (Suc depth) ''byteoffset'' (number_i (sint (byteOffset extent))) @
     writeTextElement formatted (Suc depth) ''bytecount'' (number_i (sint (byteCount extent))) @
     indent formatted depth)"
  show "writeExtent formatted depth extent =
      indent formatted depth @ StartElement ''extent'' [] # ?body @ [EndElement ''extent'']"
    by (simp add: writeExtent_def)
  fix m rest e
  assume "length (?body @ [EndElement ''extent'']) \<le> m"
  then have len: "length ?body < m" by simp
  have "parseExtent m (?body @ EndElement ''extent'' # rest) e = Some (extent, rest)"
    apply (rule steps_finish [where L = "\<lambda>n ts. parseExtent n ts e", OF _ _ len])
     apply ((rule steps_append, rule parseExtent_steps)+, rule parseExtent_steps)
    apply (simp add: parsePartition_formatPartition toULongLong_number toLongLong_number)
    done
  then show "parseExtent m ((?body @ [EndElement ''extent'']) @ rest) e = Some (extent, rest)"
    by simp
qed

lemma parseLocation_steps:
  "steps (\<lambda>n ts. parseLocation n ts l) (indent formatted depth) (\<lambda>n ts. parseLocation n ts l)"
  "steps (\<lambda>n ts. parseLocation n ts l) (writeTextElement formatted depth ''partition'' s)
     (\<lambda>n ts. parseLocation n ts (l\<lparr>loc_partition := parsePartition s\<rparr>))"
  "steps (\<lambda>n ts. parseLocation n ts l) (writeTextElement formatted depth ''startblock'' s)
     (\<lambda>n ts. parseLocation n ts (l\<lparr>loc_startBlock := toULongLong s\<rparr>))"
    apply (rule steps_indent, simp)
   apply (rule steps_text [where K = "\<lambda>s n ts. parseLocation n ts (l\<lparr>loc_partition := parsePartition s\<rparr>)"]; simp)
  apply (rule steps_text [where K = "\<lambda>s n ts. parseLocation n ts (l\<lparr>loc_startBlock := toULongLong s\<rparr>)"]; simp)
  done

lemma parseLocation_writeLocation:
  assumes name: "name = ''location'' \<or> name = ''previousgenerationlocation''"
  shows "\<exists>body. writeLocation formatted depth name location =
        indent formatted depth @ StartElement name [] # body \<and>
     (\<forall>m rest l. length body \<le> m \<longrightarrow> parseLocation m (body @ rest) l = Some (location, rest))"
proof (intro exI conjI allI impI)
  let ?body = "(writeTextElement formatted (Suc depth) ''partition'' (formatPartition (loc_partition location)) @
     writeTextElement formatted (Suc depth) ''startblock'' (number_u (unat (loc_startBlock location))) @
     indent formatted depth)"
  show "writeLocation formatted depth name location =
      indent formatted depth @ StartElement name [] # ?body @ [EndElement name]"
    by (simp add: writeLocation_def)
  fix m rest l
  assume "length (?body @ [EndElement name]) \<le> m"
  then have len: "length ?body < m" by simp
  have "parseLocation m (?body @ EndElement name # rest) l = Some (location, rest)"
    apply (rule steps_finish [where L = "\<lambda>n ts. parseLocation n ts l", OF _ _ len])
     apply ((rule steps_append, rule parseLocation_steps)+, rule parseLocation_steps)
    using name apply (auto simp add: parsePartition_formatPartition toULongLong_number)
    done
  then show "parseLocation m ((?body @ [EndElement name]) @ rest) l = Some (location, rest)"
    by simp
qed

lemma parseExtendedAttribute_steps:
  "steps (\<lambda>n ts. parseExtendedAttribute n ts a) (indent formatted depth)
     (\<lambda>n ts. parseExtendedAttribute n ts a)"
  "steps (\<lambda>n ts. parseExtendedAttribute n ts a) (writeTextElement formatted depth ''key'' s)
     (\<lambda>n ts. parseExtendedAttribute n ts (a\<lparr>ea_key := s\<rparr>))"
  "steps (\<lambda>n ts. parseExtendedAttribute n ts a) (writeTextElement formatted depth ''value'' s)
     (\<lambda>n ts. parseExtendedAttribute n ts (a\<lparr>ea_value := s\<rparr>))"
    apply (rule steps_indent, simp)
   apply (rule steps_text [where K = "\<lambda>s n ts. parseExtendedAttribute n ts (a\<lparr>ea_key := s\<rparr>)"]; simp)
  apply (rule steps_text [where K = "\<lambda>s n ts. parseExtendedAttribute n ts (a\<lparr>ea_value := s\<rparr>)"]; simp)
  done

lemma parseExtendedAttribute_writeExtendedAttribute:
  "\<exists>body. writeExtendedAttribute formatted depth attr =
        indent formatted depth @ StartElement ''extendedattribute'' [] # body \<and>
     (\<forall>m rest a. length body \<le> m \<longrightarrow> parseExtendedAttribute m (body @ rest) a = Some (attr, rest))"
proof (intro exI conjI allI impI)
  let ?body = "(writeTextElement formatted (Suc depth) ''key'' (ea_key attr) @
     writeTextElement formatted (Suc depth) ''value'' (ea_value attr) @
     indent formatted depth)"
  show "writeExtendedAttribute formatted depth attr =
      indent formatted depth @ StartElement ''extendedattribute'' [] # ?body @ [EndElement ''extendedattribute'']"
    by (simp add: writeExtendedAttribute_def)
  fix m rest a
  assume "length (?body @ [EndElement ''extendedattribute'']) \<le> m"
  then have len: "length ?body < m" by simp
  have "parseExtendedAttribute m (?body @ EndElement ''extendedattribute'' # rest) a = Some (attr, rest)"
    apply (rule steps_finish [where L = "\<lambda>n ts. parseExtendedAttribute n ts a", OF _ _ len])
     apply ((rule steps_append, rule parseExtendedAttribute_steps)+, rule parseExtendedAttribute_steps)
    apply simp
    done
  then show "parseExtendedAttribute m ((?body @ [EndElement ''extendedattribute'']) @ rest) a = Some (attr, rest)"
    by simp
qed

subsection \<open>Files\<close>

lemma parseFile_steps:
  "steps (\<lambda>n ts. parseFile dfl now n ts es f) (indent formatted depth)
     (\<lambda>n ts. parseFile dfl now n ts es f)"
  "steps (\<lambda>n ts. parseFile dfl now n ts es f) (writeTextElement formatted depth ''name'' s)
     (\<lambda>n ts. parseFile dfl now n ts es (f\<lparr>file_name := s\<rparr>))"
  "steps (\<lambda>n ts. parseFile dfl now n ts es f) (writeTextElement formatted depth ''uid'' s)
     (\<lambda>n ts. parseFile dfl now n ts es (f\<lparr>file_uid := toULongLong s\<rparr>))"
  "steps (\<lambda>n ts. parseFile dfl now n ts es f) (writeTextElement formatted depth ''length'' s)
     (\<lambda>n ts. parseFile dfl now n ts es (f\<lparr>file_length := toLongLong s\<rparr>))"
  "steps (\<lambda>n ts. parseFile dfl now n ts es f) (writeTextElement formatted depth ''readonly'' s)
     (\<lambda>n ts. parseFile dfl now n ts es (f\<lparr>file_readonly := parseBoolean s\<rparr>))"
  "steps (\<lambda>n ts. parseFile dfl now n ts es f) (writeTextElement formatted depth ''creationtime'' s)
     (\<lambda>n ts. parseFile dfl now n ts es (f\<lparr>file_creationTime := parseTimestamp now s\<rparr>))"
  "steps (\<lambda>n ts. parseFile dfl now n ts es f) (writeTextElement formatted depth ''changetime'' s)
     (\<lambda>n ts. parseFile dfl now n ts es (f\<lparr>file_changeTime := parseTimestamp now s\<rparr>))"
  "steps (\<lambda>n ts. parseFile dfl now n ts es f) (writeTextElement formatted depth ''modifytime'' s)
     (\<lambda>n ts. parseFile dfl now n ts es (f\<lparr>file_modifyTime := parseTimestamp now s\<rparr>))"
  "steps (\<lambda>n ts. parseFile dfl now n ts es f) (writeTextElement formatted depth ''accesstime'' s)
     (\<lambda>n ts. parseFile dfl now n ts es (f\<lparr>file_accessTime := parseTimestamp now s\<rparr>))"
  "steps (\<lambda>n ts. parseFile dfl now n ts es f) (writeTextElement formatted depth ''backuptime'' s)
     (\<lambda>n ts. parseFile dfl now n ts es (f\<lparr>file_backupTime := parseTimestamp now s\<rparr>))"
           apply (rule steps_indent, simp)
          apply (rule steps_text [where K = "\<lambda>s n ts. parseFile dfl now n ts es (f\<lparr>file_name := s\<rparr>)"]; simp)
         apply (rule steps_text [where K = "\<lambda>s n ts. parseFile dfl now n ts es (f\<lparr>file_uid := toULongLong s\<rparr>)"]; simp)
        apply (rule steps_text [where K = "\<lambda>s n ts. parseFile dfl now n ts es (f\<lparr>file_length := toLongLong s\<rparr>)"]; simp)
       apply (rule steps_text [where K = "\<lambda>s n ts. parseFile dfl now n ts es (f\<lparr>file_readonly := parseBoolean s\<rparr>)"]; simp)
      apply (rule steps_text [where K = "\<lambda>s n ts. parseFile dfl now n ts es (f\<lparr>file_creationTime := parseTimestamp now s\<rparr>)"]; simp)
     apply (rule steps_text [where K = "\<lambda>s n ts. parseFile dfl now n ts es (f\<lparr>file_changeTime := parseTimestamp now s\<rparr>)"]; simp)
    apply (rule steps_text [where K = "\<lambda>s n ts. parseFile dfl now n ts es (f\<lparr>file_modifyTime := parseTimestamp now s\<rparr>)"]; simp)
   apply (rule steps_text [where K = "\<lambda>s n ts. parseFile dfl now n ts es (f\<lparr>file_accessTime := parseTimestamp now s\<rparr>)"]; simp)
  apply (rule steps_text [where K = "\<lambda>s n ts. parseFile dfl now n ts es (f\<lparr>file_backupTime := parseTimestamp now s\<rparr>)"]; simp)
  done

lemma parseFile_extent:
  "steps (\<lambda>n ts. parseFile dfl now n ts es f) (writeExtent formatted depth x)
     (\<lambda>n ts. parseFile dfl now n ts (es @ [x]) f)"
proof -
  from parseExtent_writeExtent [of formatted depth x] obtain body where
    b: "writeExtent formatted depth x = indent formatted depth @ StartElement ''extent'' [] # body"
    "\<And>m rest e. length body \<le> m \<Longrightarrow> parseExtent m (body @ rest) e = Some (x, rest)"
    by blast
  show ?thesis
    by (rule steps_sub [where P = "\<lambda>m ts. parseExtent m ts (default_extent dfl)"
          and K = "\<lambda>x n ts. parseFile dfl now n ts (es @ [x]) f", OF _ _ b(1)])
      (simp_all add: b(2))
qed

lemma parseFile_extents:
  "steps (\<lambda>n ts. parseFile dfl now n ts es f) (concat (map (writeExtent formatted depth) xs))
     (\<lambda>n ts. parseFile dfl now n ts (es @ xs) f)"
proof (induction xs arbitrary: es)
  case Nil
  show ?case by (simp add: steps_refl)
next
  case (Cons x xs)
  from steps_append [OF parseFile_extent Cons [of "es @ [x]"]] show ?case by simp
qed

lemma parseFile_extentinfo:
  "steps (\<lambda>n ts. parseFile dfl now n ts es f)
     (if xs \<noteq> [] then
        indent formatted depth @ [StartElement ''extentinfo'' []] @
        concat (map (writeExtent formatted depth') xs) @
        indent formatted depth @ [EndElement ''extentinfo'']
      else [])
     (\<lambda>n ts. parseFile dfl now n ts (es @ xs) f)"
proof (cases "xs = []")
  case True
  then show ?thesis by (simp add: steps_refl)
next
  case False
  have "steps (\<lambda>n ts. parseFile dfl now n ts es f)
     (indent formatted depth @ [StartElement ''extentinfo'' []] @
        concat (map (writeExtent formatted depth') xs) @
        indent formatted depth @ [EndElement ''extentinfo''])
     (\<lambda>n ts. parseFile dfl now n ts (es @ xs) f)"
    apply (rule steps_append, rule parseFile_steps)
    apply (rule steps_append, rule steps_token [where L' = "\<lambda>n ts. parseFile dfl now n ts es f"], simp)
    apply (rule steps_append, rule parseFile_extents)
    apply (rule steps_append, rule parseFile_steps)
    apply (rule steps_token, simp)
    done
  with False show ?thesis by simp
qed

lemma parseFile_attribute:
  "steps (\<lambda>n ts. parseFile dfl now n ts es f) (writeExtendedAttribute formatted depth a)
     (\<lambda>n ts. parseFile dfl now n ts es (f\<lparr>file_extendedAttributes := file_extendedAttributes f @ [a]\<rparr>))"
proof -
  from parseExtendedAttribute_writeExtendedAttribute [of formatted depth a] obtain body where
    b: "writeExtendedAttribute formatted depth a =
        indent formatted depth @ StartElement ''extendedattribute'' [] # body"
    "\<And>m rest e. length body \<le> m \<Longrightarrow> parseExtendedAttribute m (body @ rest) e = Some (a, rest)"
    by blast
  show ?thesis
    by (rule steps_sub [where P = "\<lambda>m ts. parseExtendedAttribute m ts (default_attribute dfl)"
          and K = "\<lambda>x n ts. parseFile dfl now n ts es
             (f\<lparr>file_extendedAttributes := file_extendedAttributes f @ [x]\<rparr>)", OF _ _ b(1)])
      (simp_all add: b(2))
qed

lemma parseFile_attributes:
  "steps (\<lambda>n ts. parseFile dfl now n ts es f)
     (concat (map (writeExtendedAttribute formatted depth) as))
     (\<lambda>n ts. parseFile dfl now n ts es (f\<lparr>file_extendedAttributes := file_extendedAttributes f @ as\<rparr>))"
proof (induction as arbitrary: f)
  case Nil
  show ?case by (simp add: steps_refl)
next
  case (Cons a as)
  from steps_append [OF parseFile_attribute Cons [of "f\<lparr>file_extendedAttributes := file_extendedAttributes f @ [a]\<rparr>"]]
  show ?case by simp
qed

lemma parseFile_optional:
  "steps (\<lambda>n ts. parseFile dfl now n ts es f)
     (if c then writeTextElement formatted depth ''uid'' s else [])
     (\<lambda>n ts. parseFile dfl now n ts es (if c then f\<lparr>file_uid := toULongLong s\<rparr> else f))"
  "steps (\<lambda>n ts. parseFile dfl now n ts es f)
     (if c then writeTextElement formatted depth ''backuptime'' s else [])
     (\<lambda>n ts. parseFile dfl now n ts es (if c then f\<lparr>file_backupTime := parseTimestamp now s\<rparr> else f))"
  by (cases c; simp add: steps_refl parseFile_steps)+

lemma written_time_round_trip:
  "written_time dt \<Longrightarrow> parseTimestamp now (formatTimestamp now' dt) = dt"
  by (cases dt) (simp_all add: written_time_def parseTimestamp_formatTimestamp)

lemma optional_time_round_trip:
  "optional_time dt \<Longrightarrow> dt \<noteq> None \<Longrightarrow> parseTimestamp now (formatTimestamp now' dt) = dt"
  by (cases dt) (simp_all add: optional_time_def parseTimestamp_formatTimestamp)

lemma parseFile_writeFile:
  assumes pd: "plain_defaults dfl" and ok: "file_ok x"
  shows "\<exists>body. writeFile formatted now' depth x =
        indent formatted depth @ StartElement ''file'' [] # body \<and>
     (\<forall>m rest. length body \<le> m \<longrightarrow>
        parseFile dfl now m (body @ rest) [] (default_file dfl) = Some (x, rest))"
proof (intro exI conjI allI impI)
  let ?body = "(writeTextElement formatted (Suc depth) ''name'' (file_name x) @
     (if file_uid x > 0
      then writeTextElement formatted (Suc depth) ''uid'' (number_u (unat (file_uid x)))
      else []) @
     writeTextElement formatted (Suc depth) ''length'' (number_i (sint (file_length x))) @
     writeTextElement formatted (Suc depth) ''readonly'' (formatBoolean (file_readonly x)) @
     writeTextElement formatted (Suc depth) ''creationtime'' (formatTimestamp now' (file_creationTime x)) @
     writeTextElement formatted (Suc depth) ''changetime'' (formatTimestamp now' (file_changeTime x)) @
     writeTextElement formatted (Suc depth) ''modifytime'' (formatTimestamp now' (file_modifyTime x)) @
     writeTextElement formatted (Suc depth) ''accesstime'' (formatTimestamp now' (file_accessTime x)) @
     (if file_backupTime x \<noteq> None
      then writeTextElement formatted (Suc depth) ''backuptime'' (formatTimestamp now' (file_backupTime x))
      else []) @
     concat (map (writeExtendedAttribute formatted (Suc depth)) (file_extendedAttributes x)) @
     (if extentInfo x \<noteq> [] then
        indent formatted (Suc depth) @ [StartElement ''extentinfo'' []] @
        concat (map (writeExtent formatted (Suc (Suc depth))) (extentInfo x)) @
        indent formatted (Suc depth) @ [EndElement ''extentinfo'']
      else []) @
     indent formatted depth)"
  show "writeFile formatted now' depth x =
      indent formatted depth @ StartElement ''file'' [] # ?body @ [EndElement ''file'']"
    by (simp add: writeFile_def)
  fix m rest
  assume "length (?body @ [EndElement ''file'']) \<le> m"
  then have len: "length ?body < m" by simp
  note rules = parseFile_steps parseFile_optional parseFile_attributes parseFile_extentinfo
  from ok have times:
    "parseTimestamp now (formatTimestamp now' (file_creationTime x)) = file_creationTime x"
    "parseTimestamp now (formatTimestamp now' (file_changeTime x)) = file_changeTime x"
    "parseTimestamp now (formatTimestamp now' (file_modifyTime x)) = file_modifyTime x"
    "parseTimestamp now (formatTimestamp now' (file_accessTime x)) = file_accessTime x"
    "file_backupTime x \<noteq> None \<Longrightarrow>
       parseTimestamp now (formatTimestamp now' (file_backupTime x)) = file_backupTime x"
    by (simp_all add: file_ok_def written_time_round_trip optional_time_round_trip)
  from pd have dflt: "file_uid (default_file dfl) = 0" "file_backupTime (default_file dfl) = None"
    "file_extendedAttributes (default_file dfl) = []"
    by (simp_all add: plain_defaults_def)
  have uid: "\<not> 0 < file_uid x \<Longrightarrow> file_uid x = 0" by (simp add: word_greater_zero_iff)
  have "parseFile dfl now m (?body @ EndElement ''file'' # rest) [] (default_file dfl) = Some (x, rest)"
    apply (rule steps_finish [where L = "\<lambda>n ts. parseFile dfl now n ts [] (default_file dfl)", OF _ _ len])
     apply ((rule steps_append, rule rules)+, rule rules)
    apply (auto simp add: times dflt uid parseBoolean_formatBoolean toULongLong_number
        toLongLong_number intro!: LtfsFile.equality)
    done
  then show "parseFile dfl now m ((?body @ [EndElement ''file'']) @ rest) [] (default_file dfl) = Some (x, rest)"
    by simp
qed

subsection \<open>Directories\<close>

lemma parseDirectory_steps:
  "steps (\<lambda>n ts. parseDirectory dfl now n ts dir) (indent formatted depth)
     (\<lambda>n ts. parseDirectory dfl now n ts dir)"
  "steps (\<lambda>n ts. parseDirectory dfl now n ts dir) (writeTextElement formatted depth ''name'' s)
     (\<lambda>n ts. parseDirectory dfl now n ts (updateFields (\<lambda>m. m\<lparr>dir_name := s\<rparr>) dir))"
  "steps (\<lambda>n ts. parseDirectory dfl now n ts dir) (writeTextElement formatted depth ''uid'' s)
     (\<lambda>n ts. parseDirectory dfl now n ts (updateFields (\<lambda>m. m\<lparr>dir_uid := toULongLong s\<rparr>) dir))"
  "steps (\<lambda>n ts. parseDirectory dfl now n ts dir) (writeTextElement formatted depth ''readonly'' s)
     (\<lambda>n ts. parseDirectory dfl now n ts (updateFields (\<lambda>m. m\<lparr>dir_readonly := parseBoolean s\<rparr>) dir))"
  "steps (\<lambda>n ts. parseDirectory dfl now n ts dir) (writeTextElement formatted depth ''creationtime'' s)
     (\<lambda>n ts. parseDirectory dfl now n ts
        (updateFields (\<lambda>m. m\<lparr>dir_creationTime := parseTimestamp now s\<rparr>) dir))"
  "steps (\<lambda>n ts. parseDirectory dfl now n ts dir) (writeTextElement formatted depth ''changetime'' s)
     (\<lambda>n ts. parseDirectory dfl now n ts
        (updateFields (\<lambda>m. m\<lparr>dir_changeTime := parseTimestamp now s\<rparr>) dir))"
  "steps (\<lambda>n ts. parseDirectory dfl now n ts dir) (writeTextElement formatted depth ''modifytime'' s)
     (\<lambda>n ts. parseDirectory dfl now n ts
        (updateFields (\<lambda>m. m\<lparr>dir_modifyTime := parseTimestamp now s\<rparr>) dir))"
  "steps (\<lambda>n ts. parseDirectory dfl now n ts dir) (writeTextElement formatted depth ''accesstime'' s)
     (\<lambda>n ts. parseDirectory dfl now n ts
        (updateFields (\<lambda>m. m\<lparr>dir_accessTime := parseTimestamp now s\<rparr>) dir))"
  "steps (\<lambda>n ts. parseDirectory dfl now n ts dir) (writeTextElement formatted depth ''backuptime'' s)
     (\<lambda>n ts. parseDirectory dfl now n ts
        (updateFields (\<lambda>m. m\<lparr>dir_backupTime := parseTimestamp now s\<rparr>) dir))"
          apply (rule steps_indent, simp)
         apply (rule steps_text [where K = "\<lambda>s n ts. parseDirectory dfl now n ts (updateFields (\<lambda>m. m\<lparr>dir_name := s\<rparr>) dir)"]; simp)
        apply (rule steps_text [where K = "\<lambda>s n ts. parseDirectory dfl now n ts (updateFields (\<lambda>m. m\<lparr>dir_uid := toULongLong s\<rparr>) dir)"]; simp)
       apply (rule steps_text [where K = "\<lambda>s n ts. parseDirectory dfl now n ts (updateFields (\<lambda>m. m\<lparr>dir_readonly := parseBoolean s\<rparr>) dir)"]; simp)
      apply (rule steps_text [where K = "\<lambda>s n ts. parseDirectory dfl now n ts (updateFields (\<lambda>m. m\<lparr>dir_creationTime := parseTimestamp now s\<rparr>) dir)"]; simp)
     apply (rule steps_text [where K = "\<lambda>s n ts. parseDirectory dfl now n ts (updateFields (\<lambda>m. m\<lparr>dir_changeTime := parseTimestamp now s\<rparr>) dir)"]; simp)
    apply (rule steps_text [where K = "\<lambda>s n ts. parseDirectory dfl now n ts (updateFields (\<lambda>m. m\<lparr>dir_modifyTime := parseTimestamp now s\<rparr>) dir)"]; simp)
   apply (rule steps_text [where K = "\<lambda>s n ts. parseDirectory dfl now n ts (updateFields (\<lambda>m. m\<lparr>dir_accessTime := parseTimestamp now s\<rparr>) dir)"]; simp)
  apply (rule steps_text [where K = "\<lambda>s n ts. parseDirectory dfl now n ts (updateFields (\<lambda>m. m\<lparr>dir_backupTime := parseTimestamp now s\<rparr>) dir)"]; simp)
  done

lemma parseDirectory_optional:
  "steps (\<lambda>n ts. parseDirectory dfl now n ts dir)
     (if c then writeTextElement formatted depth ''uid'' s else [])
     (\<lambda>n ts. parseDirectory dfl now n ts
        (if c then updateFields (\<lambda>m. m\<lparr>dir_uid := toULongLong s\<rparr>) dir else dir))"
  "steps (\<lambda>n ts. parseDirectory dfl now n ts dir)
     (if c then writeTextElement formatted depth ''backuptime'' s else [])
     (\<lambda>n ts. parseDirectory dfl now n ts
        (if c then updateFields (\<lambda>m. m\<lparr>dir_backupTime := parseTimestamp now s\<rparr>) dir else dir))"
  by (cases c; simp add: steps_refl parseDirectory_steps)+

lemma parseDirectory_attribute:
  "steps (\<lambda>n ts. parseDirectory dfl now n ts dir) (writeExtendedAttribute formatted depth a)
     (\<lambda>n ts. parseDirectory dfl now n ts
        (updateFields (\<lambda>m. m\<lparr>dir_extendedAttributes := dir_extendedAttributes m @ [a]\<rparr>) dir))"
proof -
  from parseExtendedAttribute_writeExtendedAttribute [of formatted depth a] obtain body where
    b: "writeExtendedAttribute formatted depth a =
        indent formatted depth @ StartElement ''extendedattribute'' [] # body"
    "\<And>m rest e. length body \<le> m \<Longrightarrow> parseExtendedAttribute m (body @ rest) e = Some (a, rest)"
    by blast
  show ?thesis
    by (rule steps_sub [where P = "\<lambda>m ts. parseExtendedAttribute m ts (default_attribute dfl)"
          and K = "\<lambda>x n ts. parseDirectory dfl now n ts
             (updateFields (\<lambda>m. m\<lparr>dir_extendedAttributes := dir_extendedAttributes m @ [x]\<rparr>) dir)",
          OF _ _ b(1)])
      (simp_all add: b(2))
qed

lemma parseDirectory_attributes:
  "steps (\<lambda>n ts. parseDirectory dfl now n ts dir)
     (concat (map (writeExtendedAttribute formatted depth) as))
     (\<lambda>n ts. parseDirectory dfl now n ts
        (updateFields (\<lambda>m. m\<lparr>dir_extendedAttributes := dir_extendedAttributes m @ as\<rparr>) dir))"
proof (induction as arbitrary: dir)
  case Nil
  show ?case by (cases dir) (simp add: steps_refl updateFields_def)
next
  case (Cons a as)
  from steps_append [OF parseDirectory_attribute Cons]
  show ?case by (simp add: updateFields_def)
qed

lemma parseDirectory_file:
  assumes "plain_defaults dfl" and "file_ok x"
  shows "steps (\<lambda>n ts. parseDirectory dfl now n ts dir) (writeFile formatted now' depth x)
     (\<lambda>n ts. parseDirectory dfl now n ts (addFile x dir))"
proof -
  from parseFile_writeFile [OF assms, of formatted now' depth now] obtain body where
    b: "writeFile formatted now' depth x = indent formatted depth @ StartElement ''file'' [] # body"
    "\<And>m rest. length body \<le> m \<Longrightarrow>
       parseFile dfl now m (body @ rest) [] (default_file dfl) = Some (x, rest)"
    by blast
  show ?thesis
    by (rule steps_sub [where P = "\<lambda>m ts. parseFile dfl now m ts [] (default_file dfl)"
          and K = "\<lambda>x n ts. parseDirectory dfl now n ts (addFile x dir)", OF _ _ b(1)])
      (simp_all add: b(2))
qed

lemma parseDirectory_files:
  assumes "plain_defaults dfl" and "list_all file_ok fs"
  shows "steps (\<lambda>n ts. parseDirectory dfl now n ts dir)
     (concat (map (writeFile formatted now' depth) fs))
     (\<lambda>n ts. parseDirectory dfl now n ts
        (updateFields (\<lambda>m. m\<lparr>dir_files := dir_files m @ fs\<rparr>) dir))"
  using assms(2)
proof (induction fs arbitrary: dir)
  case Nil
  show ?case by (cases dir) (simp add: steps_refl updateFields_def)
next
  case (Cons x fs)
  then have "file_ok x" "list_all file_ok fs" by simp_all
  from steps_append [OF parseDirectory_file [OF assms(1) this(1)] Cons.IH [OF this(2)]]
  show ?case by (simp add: updateFields_def addFile_def)
qed

lemma parseDirectory_subdirectories:
  assumes "\<And>x. x \<in> set subs \<Longrightarrow>
      \<exists>body. writeDirectory formatted now' depth x =
          indent formatted depth @ StartElement ''directory'' [] # body \<and>
        (\<forall>m rest. length body \<le> m \<longrightarrow>
           parseDirectory dfl now m (body @ rest) (default_directory dfl) = Some (x, rest))"
  shows "steps (\<lambda>n ts. parseDirectory dfl now n ts dir)
     (concat (map (writeDirectory formatted now' depth) subs))
     (\<lambda>n ts. parseDirectory dfl now n ts
        (LtfsDirectory (dir_fields dir) (subdirectories dir @ subs)))"
  using assms
proof (induction subs arbitrary: dir)
  case Nil
  show ?case by (simp add: steps_refl)
next
  case (Cons x subs)
  from Cons.prems [of x] obtain body where
    b: "writeDirectory formatted now' depth x =
        indent formatted depth @ StartElement ''directory'' [] # body"
    "\<And>m rest. length body \<le> m \<Longrightarrow>
       parseDirectory dfl now m (body @ rest) (default_directory dfl) = Some (x, rest)"
    by auto
  have first: "steps (\<lambda>n ts. parseDirectory dfl now n ts dir) (writeDirectory formatted now' depth x)
     (\<lambda>n ts. parseDirectory dfl now n ts (addSubdirectory x dir))"
    by (rule steps_sub [where P = "\<lambda>m ts. parseDirectory dfl now m ts (default_directory dfl)"
          and K = "\<lambda>x n ts. parseDirectory dfl now n ts (addSubdirectory x dir)", OF _ _ b(1)])
      (simp_all add: b(2))
  have "steps (\<lambda>n ts. parseDirectory dfl now n ts (addSubdirectory x dir))
     (concat (map (writeDirectory formatted now' depth) subs))
     (\<lambda>n ts. parseDirectory dfl now n ts
        (LtfsDirectory (dir_fields (addSubdirectory x dir)) (subdirectories (addSubdirectory x dir) @ subs)))"
    by (rule Cons.IH) (use Cons.prems in auto)
  from steps_append [OF first this] show ?case by (simp add: addSubdirectory_def)
qed

lemma parseDirectory_writeDirectory:
  assumes pd: "plain_defaults dfl" and ok: "directory_ok x"
  shows "\<exists>body. writeDirectory formatted now' depth x =
        indent formatted depth @ StartElement ''directory'' [] # body \<and>
     (\<forall>m rest. length body \<le> m \<longrightarrow>
        parseDirectory dfl now m (body @ rest) (default_directory dfl) = Some (x, rest))"
  using ok
proof (induction x arbitrary: depth)
  case (LtfsDirectory d subs)
  let ?body = "(writeTextElement formatted (Suc depth) ''name'' (dir_name d) @
     (if dir_uid d > 0
      then writeTextElement formatted (Suc depth) ''uid'' (number_u (unat (dir_uid d)))
      else []) @
     writeTextElement formatted (Suc depth) ''readonly'' (formatBoolean (dir_readonly d)) @
     writeTextElement formatted (Suc depth) ''creationtime'' (formatTimestamp now' (dir_creationTime d)) @
     writeTextElement formatted (Suc depth) ''changetime'' (formatTimestamp now' (dir_changeTime d)) @
     writeTextElement formatted (Suc depth) ''modifytime'' (formatTimestamp now' (dir_modifyTime d)) @
     writeTextElement formatted (Suc depth) ''accesstime'' (formatTimestamp now' (dir_accessTime d)) @
     (if dir_backupTime d \<noteq> None
      then writeTextElement formatted (Suc depth) ''backuptime'' (formatTimestamp now' (dir_backupTime d))
      else []) @
     concat (map (writeExtendedAttribute formatted (Suc depth)) (dir_extendedAttributes d)) @
     concat (map (writeFile formatted now' (Suc depth)) (dir_files d)) @
     concat (map (writeDirectory formatted now' (Suc depth)) subs) @
     indent formatted depth)"
  from LtfsDirectory.prems have files: "list_all file_ok (dir_files d)"
    and subs_ok: "\<And>s. s \<in> set subs \<Longrightarrow> directory_ok s"
    by (simp_all add: list_all_iff)
  from LtfsDirectory.prems have times:
    "parseTimestamp now (formatTimestamp now' (dir_creationTime d)) = dir_creationTime d"
    "parseTimestamp now (formatTimestamp now' (dir_changeTime d)) = dir_changeTime d"
    "parseTimestamp now (formatTimestamp now' (dir_modifyTime d)) = dir_modifyTime d"
    "parseTimestamp now (formatTimestamp now' (dir_accessTime d)) = dir_accessTime d"
    "dir_backupTime d \<noteq> None \<Longrightarrow>
       parseTimestamp now (formatTimestamp now' (dir_backupTime d)) = dir_backupTime d"
    by (simp_all add: written_time_round_trip optional_time_round_trip)
  obtain d0 where d0: "default_directory dfl = LtfsDirectory d0 []"
    using pd by (cases "default_directory dfl") (simp add: plain_defaults_def)
  with pd have dflt: "dir_uid d0 = 0" "dir_backupTime d0 = None" "dir_extendedAttributes d0 = []"
    "dir_files d0 = []"
    by (simp_all add: plain_defaults_def)
  have uid: "\<not> 0 < dir_uid d \<Longrightarrow> dir_uid d = 0" by (simp add: word_greater_zero_iff)
  have subs: "steps (\<lambda>n ts. parseDirectory dfl now n ts dir)
     (concat (map (writeDirectory formatted now' (Suc depth)) subs))
     (\<lambda>n ts. parseDirectory dfl now n ts
        (LtfsDirectory (dir_fields dir) (subdirectories dir @ subs)))" for dir
    by (rule parseDirectory_subdirectories) (use LtfsDirectory.IH subs_ok in blast)
  note rules = parseDirectory_steps parseDirectory_optional parseDirectory_attributes
    parseDirectory_files [OF pd files] subs
  show ?case
  proof (intro exI conjI allI impI)
    show "writeDirectory formatted now' depth (LtfsDirectory d subs) =
        indent formatted depth @ StartElement ''directory'' [] # ?body @ [EndElement ''directory'']"
      by simp
    fix m rest
    assume "length (?body @ [EndElement ''directory'']) \<le> m"
    then have len: "length ?body < m" by simp
    have "parseDirectory dfl now m (?body @ EndElement ''directory'' # rest) (default_directory dfl) =
        Some (LtfsDirectory d subs, rest)"
      apply (rule steps_finish [where L = "\<lambda>n ts. parseDirectory dfl now n ts (default_directory dfl)",
            OF _ _ len])
       apply ((rule steps_append, rule rules)+, rule rules)
      apply (auto simp add: d0 updateFields_def times dflt uid parseBoolean_formatBoolean
          toULongLong_number intro!: DirectoryFields.equality)
      done
    then show "parseDirectory dfl now m ((?body @ [EndElement ''directory'']) @ rest)
        (default_directory dfl) = Some (LtfsDirectory d subs, rest)"
      by simp
  qed
qed

subsection \<open>The index and the document\<close>

lemma parseIndex_steps:
  "steps (\<lambda>n ts. parseIndex dfl now n ts idx) (indent formatted depth)
     (\<lambda>n ts. parseIndex dfl now n ts idx)"
  "steps (\<lambda>n ts. parseIndex dfl now n ts idx) (writeTextElement formatted depth ''creator'' s)
     (\<lambda>n ts. parseIndex dfl now n ts (idx\<lparr>creator := s\<rparr>))"
  "steps (\<lambda>n ts. parseIndex dfl now n ts idx) (writeTextElement formatted depth ''volumeuuid'' s)
     (\<lambda>n ts. parseIndex dfl now n ts (idx\<lparr>volumeUuid := QUuid_fromString s\<rparr>))"
  "steps (\<lambda>n ts. parseIndex dfl now n ts idx) (writeTextElement formatted depth ''generationnumber'' s)
     (\<lambda>n ts. parseIndex dfl now n ts (idx\<lparr>generationNumber := toULongLong s\<rparr>))"
  "steps (\<lambda>n ts. parseIndex dfl now n ts idx) (writeTextElement formatted depth ''updatetime'' s)
     (\<lambda>n ts. parseIndex dfl now n ts (idx\<lparr>updateTime := parseTimestamp now s\<rparr>))"
  "steps (\<lambda>n ts. parseIndex dfl now n ts idx) (writeTextElement formatted depth ''allowpolicyupdate'' s)
     (\<lambda>n ts. parseIndex dfl now n ts (idx\<lparr>allowPolicyUpdate := parseBoolean s\<rparr>))"
  "steps (\<lambda>n ts. parseIndex dfl now n ts idx) (writeTextElement formatted depth ''highestfileuid'' s)
     (\<lambda>n ts. parseIndex dfl now n ts (idx\<lparr>highestFileUid := toULongLong s\<rparr>))"
        apply (rule steps_indent, simp)
       apply (rule steps_text [where K = "\<lambda>s n ts. parseIndex dfl now n ts (idx\<lparr>creator := s\<rparr>)"]; simp)
      apply (rule steps_text [where K = "\<lambda>s n ts. parseIndex dfl now n ts (idx\<lparr>volumeUuid := QUuid_fromString s\<rparr>)"]; simp)
     apply (rule steps_text [where K = "\<lambda>s n ts. parseIndex dfl now n ts (idx\<lparr>generationNumber := toULongLong s\<rparr>)"]; simp)
    apply (rule steps_text [where K = "\<lambda>s n ts. parseIndex dfl now n ts (idx\<lparr>updateTime := parseTimestamp now s\<rparr>)"]; simp)
   apply (rule steps_text [where K = "\<lambda>s n ts. parseIndex dfl now n ts (idx\<lparr>allowPolicyUpdate := parseBoolean s\<rparr>)"]; simp)
  apply (rule steps_text [where K = "\<lambda>s n ts. parseIndex dfl now n ts (idx\<lparr>highestFileUid := toULongLong s\<rparr>)"]; simp)
  done

lemma parseIndex_location:
  "steps (\<lambda>n ts. parseIndex dfl now n ts idx) (writeLocation formatted depth ''location'' l)
     (\<lambda>n ts. parseIndex dfl now n ts (idx\<lparr>selfLocation := l\<rparr>))"
proof -
  from parseLocation_writeLocation [of "''location''" formatted depth l] obtain body where
    b: "writeLocation formatted depth ''location'' l =
        indent formatted depth @ StartElement ''location'' [] # body"
    "\<And>m rest e. length body \<le> m \<Longrightarrow> parseLocation m (body @ rest) e = Some (l, rest)"
    by auto
  show ?thesis
    by (rule steps_sub [where P = "\<lambda>m ts. parseLocation m ts (default_location dfl)"
          and K = "\<lambda>x n ts. parseIndex dfl now n ts (idx\<lparr>selfLocation := x\<rparr>)", OF _ _ b(1)])
      (simp_all add: b(2))
qed

lemma parseIndex_previous:
  "steps (\<lambda>n ts. parseIndex dfl now n ts idx)
     (if c then writeLocation formatted depth ''previousgenerationlocation'' l else [])
     (\<lambda>n ts. parseIndex dfl now n ts (if c then idx\<lparr>previousGenerationLocation := l\<rparr> else idx))"
proof (cases c)
  case False
  then show ?thesis by (simp add: steps_refl)
next
  case True
  from parseLocation_writeLocation [of "''previousgenerationlocation''" formatted depth l]
  obtain body where
    b: "writeLocation formatted depth ''previousgenerationlocation'' l =
        indent formatted depth @ StartElement ''previousgenerationlocation'' [] # body"
    "\<And>m rest e. length body \<le> m \<Longrightarrow> parseLocation m (body @ rest) e = Some (l, rest)"
    by auto
  have "steps (\<lambda>n ts. parseIndex dfl now n ts idx)
     (writeLocation formatted depth ''previousgenerationlocation'' l)
     (\<lambda>n ts. parseIndex dfl now n ts (idx\<lparr>previousGenerationLocation := l\<rparr>))"
    by (rule steps_sub [where P = "\<lambda>m ts. parseLocation m ts (default_location dfl)"
          and K = "\<lambda>x n ts. parseIndex dfl now n ts (idx\<lparr>previousGenerationLocation := x\<rparr>)",
          OF _ _ b(1)])
      (simp_all add: b(2))
  with True show ?thesis by simp
qed

lemma parseIndex_directory:
  assumes "plain_defaults dfl" and "directory_ok x"
  shows "steps (\<lambda>n ts. parseIndex dfl now n ts idx) (writeDirectory formatted now' depth x)
     (\<lambda>n ts. parseIndex dfl now n ts (idx\<lparr>rootDirectory := x\<rparr>))"
proof -
  from parseDirectory_writeDirectory [OF assms, of formatted now' depth now] obtain body where
    b: "writeDirectory formatted now' depth x =
        indent formatted depth @ StartElement ''directory'' [] # body"
    "\<And>m rest. length body \<le> m \<Longrightarrow>
       parseDirectory dfl now m (body @ rest) (default_directory dfl) = Some (x, rest)"
    by blast
  show ?thesis
    by (rule steps_sub [where P = "\<lambda>m ts. parseDirectory dfl now m ts (default_directory dfl)"
          and K = "\<lambda>x n ts. parseIndex dfl now n ts (idx\<lparr>rootDirectory := x\<rparr>)", OF _ _ b(1)])
      (simp_all add: b(2))
qed

lemma parseIndex_writeIndex:
  assumes pd: "plain_defaults dfl"
    and uuid: "canonicalUuid (volumeUuid x)"
    and upd: "written_time (updateTime x)"
    and prev: "loc_startBlock (previousGenerationLocation x) > 0 \<or>
       previousGenerationLocation x = previousGenerationLocation (default_index dfl)"
    and root: "directory_ok (rootDirectory x)"
    and v: "v = (if version x = [] then ''2.4.0'' else version x)"
  shows "\<exists>body. writeIndex formatted now' x =
        indent formatted 0 @ StartElement ''ltfsindex'' [(''version'', v)] # body \<and>
     (\<forall>m rest. length body \<le> m \<longrightarrow>
        parseIndex dfl now m (body @ rest) (default_index dfl\<lparr>version := v\<rparr>)
          = Some (x\<lparr>version := v\<rparr>, rest))"
proof (intro exI conjI allI impI)
  let ?body = "(writeTextElement formatted 1 ''creator'' (creator x) @
     writeTextElement formatted 1 ''volumeuuid'' (QUuid_toString (volumeUuid x)) @
     writeTextElement formatted 1 ''generationnumber'' (number_u (unat (generationNumber x))) @
     writeTextElement formatted 1 ''updatetime'' (formatTimestamp now' (updateTime x)) @
     writeLocation formatted 1 ''location'' (selfLocation x) @
     (if loc_startBlock (previousGenerationLocation x) > 0
      then writeLocation formatted 1 ''previousgenerationlocation'' (previousGenerationLocation x)
      else []) @
     writeTextElement formatted 1 ''allowpolicyupdate'' (formatBoolean (allowPolicyUpdate x)) @
     writeTextElement formatted 1 ''highestfileuid'' (number_u (unat (highestFileUid x))) @
     writeDirectory formatted now' 1 (rootDirectory x) @
     indent formatted 0)"
  show "writeIndex formatted now' x =
      indent formatted 0 @ StartElement ''ltfsindex'' [(''version'', v)] # ?body @ [EndElement ''ltfsindex'']"
    by (simp add: writeIndex_def v)
  fix m rest
  assume "length (?body @ [EndElement ''ltfsindex'']) \<le> m"
  then have len: "length ?body < m" by simp
  note rules = parseIndex_steps parseIndex_location parseIndex_previous
    parseIndex_directory [OF pd root]
  from uuid have u: "QUuid_fromString (QUuid_toString (volumeUuid x)) = volumeUuid x"
    by (simp add: canonicalUuid_def QUuid_round_trip)
  from upd have t: "parseTimestamp now (formatTimestamp now' (updateTime x)) = updateTime x"
    by (rule written_time_round_trip)
  from prev have p: "\<not> 0 < loc_startBlock (previousGenerationLocation x) \<Longrightarrow>
      previousGenerationLocation (default_index dfl) = previousGenerationLocation x"
    by auto
  have "parseIndex dfl now m (?body @ EndElement ''ltfsindex'' # rest) (default_index dfl\<lparr>version := v\<rparr>)
      = Some (x\<lparr>version := v\<rparr>, rest)"
    apply (rule steps_finish [where L = "\<lambda>n ts. parseIndex dfl now n ts (default_index dfl\<lparr>version := v\<rparr>)",
          OF _ _ len])
     apply ((rule steps_append, rule rules)+, rule rules)
    apply (auto simp add: u t p parseBoolean_formatBoolean toULongLong_number
        intro!: LtfsIndex.equality)
    done
  then show "parseIndex dfl now m ((?body @ [EndElement ''ltfsindex'']) @ rest)
      (default_index dfl\<lparr>version := v\<rparr>) = Some (x\<lparr>version := v\<rparr>, rest)"
    by simp
qed

lemma parse_write:
  assumes pd: "plain_defaults dfl"
    and uuid: "canonicalUuid (volumeUuid x)"
    and upd: "written_time (updateTime x)"
    and prev: "loc_startBlock (previousGenerationLocation x) > 0 \<or>
       previousGenerationLocation x = previousGenerationLocation (default_index dfl)"
    and root: "directory_ok (rootDirectory x)"
  shows "parse dfl now (IndexWriter_write formatted now' x) =
     Some (x\<lparr>version := (if version x = [] then ''2.4.0'' else version x)\<rparr>)"
proof -
  define v where "v = (if version x = [] then ''2.4.0'' else version x)"
  from parseIndex_writeIndex [OF pd uuid upd prev root v_def, of formatted now' now]
  obtain body where
    b: "writeIndex formatted now' x =
        indent formatted 0 @ StartElement ''ltfsindex'' [(''version'', v)] # body"
    "\<And>m rest. length body \<le> m \<Longrightarrow>
       parseIndex dfl now m (body @ rest) (default_index dfl\<lparr>version := v\<rparr>)
         = Some (x\<lparr>version := v\<rparr>, rest)"
    by blast
  let ?L = "\<lambda>idx n ts. parse_loop dfl now n ts idx"
  have s1: "steps (?L (default_index dfl)) [StartDocument] (?L (default_index dfl))"
    by (rule steps_token) simp
  have s2: "steps (?L (default_index dfl)) (writeIndex formatted now' x) (?L (x\<lparr>version := v\<rparr>))"
    by (rule steps_sub [where P = "\<lambda>m ts. parseIndex dfl now m ts (default_index dfl\<lparr>version := v\<rparr>)"
          and K = "\<lambda>x n ts. parse_loop dfl now n ts x", OF _ _ b(1)])
      (simp_all add: b(2) attribute_def)
  have "length ([StartDocument] @ writeIndex formatted now' x) + 1
      \<le> Suc (length (IndexWriter_write formatted now' x))"
    by (simp add: IndexWriter_write_def)
  with steps_append [OF s1 s2] obtain n' where
    "1 \<le> n'"
    "parse_loop dfl now (Suc (length (IndexWriter_write formatted now' x)))
        (([StartDocument] @ writeIndex formatted now' x) @ [EndDocument]) (default_index dfl)
      = parse_loop dfl now n' [EndDocument] (x\<lparr>version := v\<rparr>)"
    unfolding steps_def by blast
  moreover from \<open>1 \<le> n'\<close> obtain k where "n' = Suc k" by (cases n') auto
  ultimately show ?thesis
    by (simp add: parse_def IndexWriter_write_def v_def)
qed

subsection \<open>The round trip\<close>

lemma example_plain_defaults: "plain_defaults example_defaults"
  by (simp add: plain_defaults_def example_defaults_def example_directory_fields_def)

lemma example_stamps: "written_time example_stamp" "written_time example_stamp_whole"
  "optional_time example_stamp_whole" "optional_time None"
  by (simp_all add: written_time_def optional_time_def example_stamp_def example_stamp_whole_def
      validTime_def daysInMonth_def isLeapYear_def)

lemma example_uuid: "canonicalUuid ''12345678-9abc-def0-1234-56789abcdef0''"
  by (simp add: canonicalUuid_def isUuidText_def uuidShape_def isHexDigit_def toLower_def
      toLower_char_def)

lemma example_directory_ok: "directory_ok (rootDirectory example_index)"
  by (simp add: example_index_def example_directory_fields_def example_files_def file_ok_def
      example_stamps)

text \<open>
  Claim C5 says that every index of the round-trip shape is read back from the
  writer's XML equal to the one written, field for field. \<open>writeIndex\<close> puts
  \<open>2.4.0\<close> in the version attribute of an index whose version is empty: the
  example index, one directory with two files, the first of two extents, taken
  before a version was set, is read back with the version \<open>2.4.0\<close>.
\<close>

theorem unversioned_index_not_restored:
  "version unversioned_index = [] \<and>
   parse example_defaults example_now (IndexWriter_write True example_now unversioned_index)
     = Some (unversioned_index\<lparr>version := ''2.4.0''\<rparr>)"
  using parse_write [of example_defaults unversioned_index example_now True example_now]
    example_plain_defaults example_directory_ok
  by (simp add: unversioned_index_def example_index_def example_stamps example_uuid
      example_defaults_def)

text \<open>
  Claim C5, amended. Take an index with a version set, the volume uuid in the form
  \<open>QUuid\<close> prints, every time that is written valid and of a year from 1 to 9999
  (a backup time may also be absent), and a previous generation location that either
  has a start block above 0 or is the one of a new index; directories may nest and
  hold any number of files, extents and extended attributes, which covers one
  directory with two files, one of two extents. Let new files and directories have
  no uid, no backup time and empty lists. Then parsing what the writer produces,
  formatted or not, succeeds and gives the index written, field for field: extents
  in their order, times to the millisecond, partitions as they were. The writer
  prints the partitions as \<open>a\<close> (index) and \<open>b\<close> (data); the parser reads these
  and also \<open>0\<close> and \<open>1\<close>.
\<close>

theorem index_round_trip:
  assumes "plain_defaults dfl" and "index_ok dfl index"
  shows "parse dfl now (IndexWriter_write formatted now' index) = Some index \<and>
     formatPartition IndexPartition = ''a'' \<and> formatPartition DataPartition = ''b'' \<and>
     parsePartition ''a'' = IndexPartition \<and> parsePartition ''b'' = DataPartition \<and>
     parsePartition ''0'' = IndexPartition \<and> parsePartition ''1'' = DataPartition"
proof -
  from assms have "parse dfl now (IndexWriter_write formatted now' index) = Some index"
    using parse_write [of dfl index now formatted now'] by (simp add: index_ok_def)
  then show ?thesis
    by (simp add: formatPartition_def parsePartition_def toLower_def toLower_char_def
        trimmed_def isSpace_def)
qed

theorem index_round_trip_witness:
  "plain_defaults example_defaults \<and> index_ok example_defaults example_index \<and>
   map (length \<circ> extentInfo) (dir_files (dir_fields (rootDirectory example_index))) = [2, 0] \<and>
   subdirectories (rootDirectory example_index) = [] \<and>
   parse example_defaults example_now (IndexWriter_write True example_now example_index)
     = Some example_index"
  using index_round_trip [of example_defaults example_index example_now True example_now]
    example_plain_defaults example_directory_ok
  by (simp add: index_ok_def example_index_def example_stamps example_uuid example_defaults_def
      example_files_def example_directory_fields_def)

section \<open>Local files and the hash calculator (io/HashCalculator)\<close>

subsection \<open>A local file read through \<open>QFile\<close>\<close>

text \<open>
  A local file behind a \<open>QFile\<close> opened for reading: whether it opens,
  its bytes, the read position, the offset from which reads fail (if any), whether
  the last read failed, and the text of \<open>errorString()\<close>.
\<close>

record SourceFile =
  src_openable :: bool
  src_bytes :: QByteArray
  src_pos :: nat
  src_bad :: "nat option"
  src_error :: bool
  src_errorString :: string

definition atEnd :: "SourceFile \<Rightarrow> bool" where
  "atEnd file = (src_pos file \<ge> length (src_bytes file))"

definition file_read :: "nat \<Rightarrow> SourceFile \<Rightarrow> QByteArray \<times> SourceFile" where
  "file_read n file =
     (case src_bad file of
        Some k \<Rightarrow>
          if k \<le> src_pos file then ([], file\<lparr>src_error := True\<rparr>)
          else
            let chunk = take (min n (k - src_pos file)) (drop (src_pos file) (src_bytes file))
            in (chunk, file\<lparr>src_pos := src_pos file + length chunk\<rparr>)
      | None \<Rightarrow>
          let chunk = take n (drop (src_pos file) (src_bytes file))
          in (chunk, file\<lparr>src_pos := src_pos file + length chunk\<rparr>))"

text \<open>How a loop body ends: by a \<open>return\<close> of the function, or by leaving the loop.\<close>

datatype ('r, 's) flow = Returned 'r | Left_loop 's

lemma file_read_progress:
  assumes "\<not> atEnd f" and "fst (file_read n f) \<noteq> []"
  shows "length (src_bytes (snd (file_read n f))) - src_pos (snd (file_read n f))
           < length (src_bytes f) - src_pos f"
proof -
  have "src_pos f < length (src_bytes f)" using assms(1) by (simp add: atEnd_def)
  moreover have "src_bytes (snd (file_read n f)) = src_bytes f"
    by (simp add: file_read_def Let_def split: option.splits)
  moreover have "src_pos (snd (file_read n f)) > src_pos f"
    using assms(2) by (auto simp: file_read_def Let_def split: option.splits if_splits)
  ultimately show ?thesis by simp
qed


lemma file_read_empty:
  assumes "\<not> atEnd f" and "0 < n" and "fst (file_read n f) = []"
  shows "src_error (snd (file_read n f))"
  using assms by (auto simp: file_read_def atEnd_def Let_def split: option.splits if_splits)

subsection \<open>Hash modes and results\<close>

text \<open>
  The hash modes and \<open>struct HashResult\<close> of \<open>HashCalculator.h\<close>. The mode
  \<open>None\<close> and three fields carry a prefix because their names are taken;
  \<open>base64String\<close>, which Qt's \<open>toBase64\<close> fills and nothing modelled reads, is
  left out.
\<close>

datatype HashMode = HashMode_None | MD5 | SHA1 | SHA256 | SHA512 | XXH64

record HashResult =
  hash_success :: bool
  hash_mode :: HashMode
  hash :: QByteArray
  hexString :: string
  hash_bytesProcessed :: int
  hash_errorMessage :: string

definition HashResult_default :: HashResult where
  "HashResult_default =
     \<lparr>hash_success = False, hash_mode = HashMode_None, hash = [], hexString = [],
      hash_bytesProcessed = 0, hash_errorMessage = []\<rparr>"

subsection \<open>\<open>class XXHash64\<close>\<close>

text \<open>
  \<open>class XXHash64\<close> of \<open>HashCalculator.cpp\<close>. \<open>m_buffer\<close> is the list of the
  \<open>m_bufferSize\<close> bytes kept; the pointer \<open>p\<close> of the loops is the list of the bytes
  from \<open>p\<close> to \<open>end\<close>.
\<close>

definition PRIME1 :: u64 where "PRIME1 = 0x9E3779B185EBCA87"
definition PRIME2 :: u64 where "PRIME2 = 0xC2B2AE3D27D4EB4F"
definition PRIME3 :: u64 where "PRIME3 = 0x165667B19E3779F9"
definition PRIME4 :: u64 where "PRIME4 = 0x85EBCA77C2B2AE63"
definition PRIME5 :: u64 where "PRIME5 = 0x27D4EB2F165667C5"

record XXHash64 =
  m_seed :: u64
  m_v1 :: u64
  m_v2 :: u64
  m_v3 :: u64
  m_v4 :: u64
  m_totalLen :: u64
  m_buffer :: "u8 list"

definition rotl64 :: "u64 \<Rightarrow> nat \<Rightarrow> u64" where
  "rotl64 x r = push_bit r x OR drop_bit (64 - r) x"

definition readLE64 :: "u8 list \<Rightarrow> u64" where
  "readLE64 p =
     ucast (p ! 0) OR push_bit 8 (ucast (p ! 1)) OR push_bit 16 (ucast (p ! 2)) OR
     push_bit 24 (ucast (p ! 3)) OR push_bit 32 (ucast (p ! 4)) OR push_bit 40 (ucast (p ! 5)) OR
     push_bit 48 (ucast (p ! 6)) OR push_bit 56 (ucast (p ! 7))"

definition readLE32 :: "u8 list \<Rightarrow> u32" where
  "readLE32 p =
     ucast (p ! 0) OR push_bit 8 (ucast (p ! 1)) OR push_bit 16 (ucast (p ! 2)) OR
     push_bit 24 (ucast (p ! 3))"

definition xx_round :: "u64 \<Rightarrow> u64 \<Rightarrow> u64" where
  "xx_round acc input = rotl64 (acc + input * PRIME2) 31 * PRIME1"

definition mergeRound :: "u64 \<Rightarrow> u64 \<Rightarrow> u64" where
  "mergeRound acc val = (acc XOR xx_round 0 val) * PRIME1 + PRIME4"

definition processBlock :: "u8 list \<Rightarrow> XXHash64 \<Rightarrow> XXHash64" where
  "processBlock p st =
     st\<lparr>m_v1 := xx_round (m_v1 st) (readLE64 p),
        m_v2 := xx_round (m_v2 st) (readLE64 (drop 8 p)),
        m_v3 := xx_round (m_v3 st) (readLE64 (drop 16 p)),
        m_v4 := xx_round (m_v4 st) (readLE64 (drop 24 p))\<rparr>"

definition XXHash64_reset :: "XXHash64 \<Rightarrow> XXHash64" where
  "XXHash64_reset st =
     st\<lparr>m_totalLen := 0,
        m_v1 := m_seed st + PRIME1 + PRIME2,
        m_v2 := m_seed st + PRIME2,
        m_v3 := m_seed st,
        m_v4 := m_seed st - PRIME1,
        m_buffer := []\<rparr>"

definition XXHash64_new :: "u64 \<Rightarrow> XXHash64" where
  "XXHash64_new seed =
     XXHash64_reset
       \<lparr>m_seed = seed, m_v1 = 0, m_v2 = 0, m_v3 = 0, m_v4 = 0, m_totalLen = 0, m_buffer = []\<rparr>"

text \<open>\<open>while (p + 32 <= end) { processBlock(p); p += 32; }\<close> of \<open>update\<close>.\<close>

fun process_blocks :: "XXHash64 \<Rightarrow> u8 list \<Rightarrow> XXHash64 \<times> u8 list" where
  "process_blocks st p =
     (if 32 \<le> length p then process_blocks (processBlock p st) (drop 32 p) else (st, p))"

declare process_blocks.simps [simp del]

definition XXHash64_update :: "u8 list \<Rightarrow> XXHash64 \<Rightarrow> XXHash64" where
  "XXHash64_update input st0 =
     (let st = st0\<lparr>m_totalLen := m_totalLen st0 + of_nat (length input)\<rparr> in
      if length (m_buffer st) + length input < 32
      then st\<lparr>m_buffer := m_buffer st @ input\<rparr>
      else
        let (st, p) =
              (if length (m_buffer st) > 0 then
                 (let fillLen = 32 - length (m_buffer st)
                  in ((processBlock (m_buffer st @ take fillLen input) st)\<lparr>m_buffer := []\<rparr>,
                      drop fillLen input))
               else (st, input));
            (st, p) = process_blocks st p
        in if p \<noteq> [] then st\<lparr>m_buffer := p\<rparr> else st)"

text \<open>The three loops of \<open>finalize\<close> over what is left in the buffer.\<close>

fun finalize8 :: "u64 \<Rightarrow> u8 list \<Rightarrow> u64 \<times> u8 list" where
  "finalize8 h64 p =
     (if 8 \<le> length p then
        (let k1 = rotl64 (readLE64 p * PRIME2) 31 * PRIME1;
             h64 = h64 XOR k1
         in finalize8 (rotl64 h64 27 * PRIME1 + PRIME4) (drop 8 p))
      else (h64, p))"

declare finalize8.simps [simp del]

fun finalize4 :: "u64 \<Rightarrow> u8 list \<Rightarrow> u64 \<times> u8 list" where
  "finalize4 h64 p =
     (if 4 \<le> length p then
        (let h64 = h64 XOR ucast (readLE32 p) * PRIME1
         in finalize4 (rotl64 h64 23 * PRIME2 + PRIME3) (drop 4 p))
      else (h64, p))"

declare finalize4.simps [simp del]

fun finalize1 :: "u64 \<Rightarrow> u8 list \<Rightarrow> u64" where
  "finalize1 h64 [] = h64"
| "finalize1 h64 (b # p) = finalize1 (rotl64 (h64 XOR ucast b * PRIME5) 11 * PRIME1) p"

definition XXHash64_finalize :: "XXHash64 \<Rightarrow> u64" where
  "XXHash64_finalize st =
     (let h64 =
            (if m_totalLen st \<ge> 32 then
               (let h64 = rotl64 (m_v1 st) 1 + rotl64 (m_v2 st) 7 + rotl64 (m_v3 st) 12 +
                          rotl64 (m_v4 st) 18;
                    h64 = mergeRound h64 (m_v1 st);
                    h64 = mergeRound h64 (m_v2 st);
                    h64 = mergeRound h64 (m_v3 st)
                in mergeRound h64 (m_v4 st))
             else m_seed st + PRIME5);
          h64 = h64 + m_totalLen st;
          (h64, p) = finalize8 h64 (m_buffer st);
          (h64, p) = finalize4 h64 p;
          h64 = finalize1 h64 p;
          h64 = h64 XOR drop_bit 33 h64;
          h64 = h64 * PRIME2;
          h64 = h64 XOR drop_bit 29 h64;
          h64 = h64 * PRIME3
      in h64 XOR drop_bit 32 h64)"

subsection \<open>\<open>class HashCalculator\<close>\<close>

text \<open>
  \<open>HashCalculator::Private\<close>. A \<open>QCryptographicHash\<close> is Qt's: the object is
  modelled by the bytes added to it since the last reset, and its \<open>result()\<close> is
  the answer of a parameter \<open>qt\<close>, the digest of those bytes by the algorithm of the
  mode. \<open>None\<close> is the null pointer.
\<close>

record HashCalculator =
  calc_mode :: HashMode
  qtHash :: "QByteArray option"
  xxHash :: "XXHash64 option"
  bytesProcessed :: int

definition createHasher :: "HashCalculator \<Rightarrow> HashCalculator" where
  "createHasher c =
     (case calc_mode c of
        HashMode_None \<Rightarrow> c\<lparr>qtHash := None, xxHash := None\<rparr>
      | XXH64 \<Rightarrow> c\<lparr>qtHash := None, xxHash := Some (XXHash64_new 0)\<rparr>
      | _ \<Rightarrow> c\<lparr>qtHash := Some [], xxHash := None\<rparr>)"

definition HashCalculator_new :: "HashMode \<Rightarrow> HashCalculator" where
  "HashCalculator_new mode =
     createHasher \<lparr>calc_mode = mode, qtHash = None, xxHash = None, bytesProcessed = 0\<rparr>"

definition calc_reset :: "HashCalculator \<Rightarrow> HashCalculator" where
  "calc_reset c =
     c\<lparr>qtHash := map_option (\<lambda>added. []) (qtHash c),
       xxHash := map_option XXHash64_reset (xxHash c),
       bytesProcessed := 0\<rparr>"

definition addData :: "QByteArray \<Rightarrow> HashCalculator \<Rightarrow> HashCalculator" where
  "addData input c =
     c\<lparr>qtHash := map_option (\<lambda>added. added @ input) (qtHash c),
       xxHash := map_option (XXHash64_update input) (xxHash c),
       bytesProcessed := bytesProcessed c + int (length input)\<rparr>"

text \<open>
  \<open>QByteArray::toHex\<close>, and \<open>QStringLiteral("%1").arg(h, 16, 16, QLatin1Char('0'))\<close>
  for a \<open>quint64\<close>.
\<close>

definition toHex :: "QByteArray \<Rightarrow> string" where
  "toHex bytes =
     concat (map (\<lambda>b. let ds = digits 16 (unat b) in replicate (2 - length ds) CHR ''0'' @ ds) bytes)"

definition arg_hex16 :: "u64 \<Rightarrow> string" where
  "arg_hex16 h = (let ds = digits 16 (unat h) in replicate (16 - length ds) CHR ''0'' @ ds)"

definition getResult :: "(HashMode \<Rightarrow> QByteArray \<Rightarrow> QByteArray) \<Rightarrow> HashCalculator \<Rightarrow> HashResult" where
  "getResult qt c =
     (let result = HashResult_default
            \<lparr>hash_mode := calc_mode c, hash_bytesProcessed := bytesProcessed c, hash_success := True\<rparr>
      in
      case qtHash c of
        Some added \<Rightarrow>
          result\<lparr>hash := qt (calc_mode c) added, hexString := toHex (qt (calc_mode c) added)\<rparr>
      | None \<Rightarrow>
          (case xxHash c of
             Some xx \<Rightarrow>
               (let h = XXHash64_finalize xx
                in result\<lparr>hash := map (\<lambda>i. ucast (drop_bit (i * 8) h AND 0xFF)) [0..<8],
                          hexString := arg_hex16 h\<rparr>)
           | None \<Rightarrow>
               if calc_mode c = HashMode_None then result\<lparr>hash_success := True\<rparr>
               else result\<lparr>hash_success := False, hash_errorMessage := ''Hash not initialized''\<rparr>))"

text \<open>
  The read loop of \<open>HashCalculator::hashFile\<close>, in chunks of \<open>BUFFER_SIZE\<close>. The
  progress callback and the \<open>progressChanged\<close> signal change nothing and are left
  out.
\<close>

definition BUFFER_SIZE :: nat where
  "BUFFER_SIZE = 1024 * 1024"

function hash_chunks ::
  "HashResult \<Rightarrow> HashCalculator \<Rightarrow> SourceFile \<Rightarrow> (HashResult, HashCalculator) flow" where
  "hash_chunks result c file =
     (if atEnd file then Left_loop c
      else
        if fst (file_read BUFFER_SIZE file) = [] \<and> src_error (snd (file_read BUFFER_SIZE file))
        then Returned (result\<lparr>hash_success := False,
               hash_errorMessage := ''Read error: '' @ src_errorString file\<rparr>)
        else hash_chunks result (addData (fst (file_read BUFFER_SIZE file)) c)
               (snd (file_read BUFFER_SIZE file)))"
  by pat_completeness auto
termination
proof (relation "measure (\<lambda>(result, c, f). length (src_bytes f) - src_pos f)")
  show "wf (measure (\<lambda>(result, c, f). length (src_bytes f) - src_pos f))" by simp
next
  fix result :: HashResult and c :: HashCalculator and f :: SourceFile
  assume a: "\<not> atEnd f"
    and b: "\<not> (fst (file_read BUFFER_SIZE f) = [] \<and> src_error (snd (file_read BUFFER_SIZE f)))"
  have "fst (file_read BUFFER_SIZE f) \<noteq> []"
    using file_read_empty [OF a, of BUFFER_SIZE] b by (auto simp: BUFFER_SIZE_def)
  from file_read_progress [OF a this]
  show "((result, addData (fst (file_read BUFFER_SIZE f)) c, snd (file_read BUFFER_SIZE f)),
         (result, c, f))
        \<in> measure (\<lambda>(result, c, f). length (src_bytes f) - src_pos f)"
    by simp
qed

declare hash_chunks.simps [simp del]

text \<open>
  \<open>HashCalculator::hashFile\<close>, on the file its path names; it opens the file
  anew, at the start.
\<close>

definition HashCalculator_hashFile ::
  "(HashMode \<Rightarrow> QByteArray \<Rightarrow> QByteArray) \<Rightarrow> HashCalculator \<Rightarrow> SourceFile \<Rightarrow> HashResult" where
  "HashCalculator_hashFile qt c file0 =
     (let result = HashResult_default\<lparr>hash_mode := calc_mode c\<rparr>;
          file = file0\<lparr>src_pos := 0, src_error := False\<rparr>
      in
      if \<not> src_openable file then
        result\<lparr>hash_success := False,
               hash_errorMessage := ''Failed to open file: '' @ src_errorString file\<rparr>
      else
        case hash_chunks result (calc_reset c) file of
          Returned r \<Rightarrow> r
        | Left_loop c \<Rightarrow> getResult qt c)"

section \<open>Transfer orchestrator (io/TapeIO)\<close>

datatype TransferStatus = Pending | InProgress | Completed | Failed | Skipped | Cancelled

text \<open>
  \<open>struct TransferItem\<close>. Three fields carry the prefix \<open>item_\<close> because their
  names are taken (\<open>size\<close>, \<open>status\<close>, \<open>bytesTransferred\<close>); \<open>modifiedTime\<close>
  is read only where \<open>writeFileToTape\<close> fills a local \<open>LtfsFile\<close> that it then
  drops, and is left out with that block.
\<close>

record TransferItem =
  sourcePath :: string
  destPath :: string
  relativePath :: string
  item_size :: int
  item_status :: TransferStatus
  errorMessage :: string
  item_bytesTransferred :: int
  sourceHash :: string
  destHash :: string
  hashVerified :: bool
  isDirectory :: bool

definition TransferItem_default :: TransferItem where
  "TransferItem_default =
     \<lparr>sourcePath = [], destPath = [], relativePath = [], item_size = 0, item_status = Pending,
      errorMessage = [], item_bytesTransferred = 0, sourceHash = [], destHash = [],
      hashVerified = False, isDirectory = False\<rparr>"

text \<open>\<open>struct TransferOptions\<close>, the fields the transfer functions read.\<close>

record TransferOptions =
  hashMode :: HashMode
  verifyAfterWrite :: bool
  createDirectories :: bool
  continueOnError :: bool
  blockSize :: u32

text \<open>
  What a run depends on besides its arguments: the digests of Qt's
  \<open>QCryptographicHash\<close>, by mode, and the two cooperative flags \<open>cancelled\<close> and \<open>paused\<close>, which other threads write. The
  flags are given as the values the loop finds at each tick of a clock that advances
  with every blocking step of the loop (a sleep of the pause wait, a block written or
  read).
\<close>

record IoEnv =
  cryptographicHash :: "HashMode \<Rightarrow> QByteArray \<Rightarrow> QByteArray"
  cancelledAt :: "nat \<Rightarrow> bool"
  pausedAt :: "nat \<Rightarrow> bool"

text \<open>
  The signals of \<open>TapeIO::readFile\<close>, with the item they carry.
\<close>

datatype FileSignal =
  FileStarted TransferItem
  | FileCompleted TransferItem
  | FileError TransferItem string

text \<open>
  \<open>TapeIO::Private\<close>: the device (the pointer is taken to be set), the options,
  \<open>lastError\<close>, the \<open>completedBytes\<close> counter of the statistics, the clock, the
  \<open>fileProgress(item, done, total)\<close> signals emitted (their two numbers), and the
  signals of \<open>readFile\<close>. \<open>updateStatistics\<close> derives elapsed time and rates
  from a timer in floating point and changes nothing else; it is not modelled.
\<close>

record TapeIO =
  device :: TapeDevice
  options :: TransferOptions
  io_lastError :: string
  completedBytes :: int
  clock :: nat
  progress :: "(int \<times> int) list"
  fileSignals :: "FileSignal list"

text \<open>
  \<open>while (d->paused) { msleep(100); if (d->cancelled) ...return... }\<close>. The wait
  ends with the tick reached and whether it ended by cancellation; it has no value
  when the flag is never cleared.
\<close>

partial_function (option) wait_while_paused :: "IoEnv \<Rightarrow> nat \<Rightarrow> (bool \<times> nat) option" where
  "wait_while_paused env t =
     (if pausedAt env t then
        (if cancelledAt env (Suc t) then Some (True, Suc t)
         else wait_while_paused env (Suc t))
      else Some (False, t))"

text \<open>The chunk loop of \<open>TapeIO::writeFileToTape\<close>.\<close>

function write_chunks ::
  "IoEnv \<Rightarrow> u32 \<Rightarrow> int \<Rightarrow> SourceFile \<Rightarrow> TransferItem \<Rightarrow> TapeIO \<Rightarrow> int
     \<Rightarrow> (bool \<times> TransferItem \<times> TapeIO, TransferItem \<times> TapeIO) flow option" where
  "write_chunks env bsize fileSize file item io totalWritten =
     (if atEnd file then Some (Left_loop (item, io))
      else if cancelledAt env (clock io)
      then Some (Returned (False, item\<lparr>item_status := Cancelled\<rparr>, io))
      else
        case wait_while_paused env (clock io) of
          None \<Rightarrow> None
        | Some (cancelledSeen, t) \<Rightarrow>
            if cancelledSeen
            then Some (Returned (False, item\<lparr>item_status := Cancelled\<rparr>, io\<lparr>clock := t\<rparr>))
            else
              if fst (file_read (unat bsize) file) = [] then
                (if src_error (snd (file_read (unat bsize) file))
                 then Some (Returned (False,
                        item\<lparr>errorMessage := ''Read error: '' @ src_errorString file,
                             item_status := Failed\<rparr>, io\<lparr>clock := t\<rparr>))
                 else Some (Left_loop (item, io\<lparr>clock := t\<rparr>)))
              else
                let buffer = fst (file_read (unat bsize) file);
                    written = fst (writeBlock buffer (device io));
                    dev = snd (writeBlock buffer (device io));
                    io = io\<lparr>device := dev, clock := Suc t\<rparr>
                in
                if written < 0
                then Some (Returned (False,
                       item\<lparr>errorMessage := ''Write error: '' @ lastError dev,
                            item_status := Failed\<rparr>, io))
                else
                  write_chunks env bsize fileSize (snd (file_read (unat bsize) file))
                    (item\<lparr>item_bytesTransferred := totalWritten + written\<rparr>)
                    (io\<lparr>completedBytes := completedBytes io + written,
                        progress := progress io @ [(totalWritten + written, fileSize)]\<rparr>)
                    (totalWritten + written))"
  by pat_completeness auto
termination
  by (relation "measure (\<lambda>(env, bsize, fileSize, file, item, io, totalWritten).
                   length (src_bytes file) - src_pos file)")
     (auto simp: file_read_progress)

declare write_chunks.simps [simp del]

text \<open>
  \<open>TapeIO::writeFileToTape\<close>. After the filemark the source fills a local \<open>LtfsFile\<close> and drops
  it (the call that would add it to the index is commented out), so that block has
  no effect and is left out.
\<close>

definition writeFileToTape ::
  "IoEnv \<Rightarrow> SourceFile \<Rightarrow> TransferItem \<Rightarrow> TapeIO \<Rightarrow> (bool \<times> TransferItem \<times> TapeIO) option" where
  "writeFileToTape env file item0 io0 =
     (if isDirectory item0 then Some (True, item0\<lparr>item_status := Completed\<rparr>, io0)
      else if \<not> src_openable file then
        Some (False,
          item0\<lparr>errorMessage := ''Failed to open source file: '' @ src_errorString file,
                item_status := Failed\<rparr>, io0)
      else
        let item =
              (if verifyAfterWrite (options io0) then
                 (let hashResult =
                        HashCalculator_hashFile (cryptographicHash env)
                          (HashCalculator_new (hashMode (options io0))) file
                  in if hash_success hashResult
                     then item0\<lparr>sourceHash := hexString hashResult\<rparr> else item0)
               else item0);
            (ok, dev) = seekToEnd 1 (device io0);
            io = io0\<lparr>device := dev\<rparr>
        in
        if \<not> ok then
          Some (False,
            item\<lparr>errorMessage := ''Failed to seek to end of data'', item_status := Failed\<rparr>, io)
        else
          case write_chunks env (blockSize (options io)) (int (length (src_bytes file)))
                 file item io 0 of
            None \<Rightarrow> None
          | Some (Returned r) \<Rightarrow> Some r
          | Some (Left_loop (item, io)) \<Rightarrow>
              let (ok, dev) = writeFilemark 1 (device io);
                  io = io\<lparr>device := dev\<rparr>
              in
              if \<not> ok then
                Some (False,
                  item\<lparr>errorMessage := ''Failed to write filemark'', item_status := Failed\<rparr>, io)
              else Some (True, item\<lparr>item_status := Completed\<rparr>, io))"

subsection \<open>Reading a file back\<close>

text \<open>
  The local file system as \<open>readFileFromTape\<close> uses it: whether \<open>mkpath\<close> and
  opening for writing succeed, how many bytes a file can take before a write comes
  back short (if bounded), the text of \<open>errorString()\<close>, the files by path, and the
  calls made, in order.
\<close>

datatype FsOp = Mkpath string | Open string | Write string nat | Close string | Remove string

record LocalFs =
  mkpath_ok :: bool
  open_ok :: bool
  capacity :: "nat option"
  fs_errorString :: string
  files :: "string \<Rightarrow> QByteArray option"
  fs_ops :: "FsOp list"

definition fs_mkpath :: "string \<Rightarrow> LocalFs \<Rightarrow> bool \<times> LocalFs" where
  "fs_mkpath path fs = (mkpath_ok fs, fs\<lparr>fs_ops := fs_ops fs @ [Mkpath path]\<rparr>)"

definition fs_open_truncate :: "string \<Rightarrow> LocalFs \<Rightarrow> bool \<times> LocalFs" where
  "fs_open_truncate path fs =
     (if open_ok fs
      then (True, fs\<lparr>files := (files fs)(path \<mapsto> []), fs_ops := fs_ops fs @ [Open path]\<rparr>)
      else (False, fs\<lparr>fs_ops := fs_ops fs @ [Open path]\<rparr>))"

definition fs_write :: "string \<Rightarrow> QByteArray \<Rightarrow> LocalFs \<Rightarrow> int \<times> LocalFs" where
  "fs_write path buf fs =
     (let cur = (case files fs path of None \<Rightarrow> [] | Some b \<Rightarrow> b);
          n = (case capacity fs of
                 None \<Rightarrow> length buf
               | Some c \<Rightarrow> min (length buf) (c - length cur))
      in (int n, fs\<lparr>files := (files fs)(path \<mapsto> cur @ take n buf),
                     fs_ops := fs_ops fs @ [Write path n]\<rparr>))"

definition fs_close :: "string \<Rightarrow> LocalFs \<Rightarrow> LocalFs" where
  "fs_close path fs = fs\<lparr>fs_ops := fs_ops fs @ [Close path]\<rparr>"

definition fs_remove :: "string \<Rightarrow> LocalFs \<Rightarrow> LocalFs" where
  "fs_remove path fs =
     fs\<lparr>files := (files fs)(path := None), fs_ops := fs_ops fs @ [Remove path]\<rparr>"

text \<open>\<open>QString::compare(..., Qt::CaseInsensitive) == 0\<close>.\<close>

definition equal_CaseInsensitive :: "string \<Rightarrow> string \<Rightarrow> bool" where
  "equal_CaseInsensitive a b = (toLower a = toLower b)"

text \<open>
  A file of the local file system opened for reading: it opens when it exists, and
  reading it does not fail.
\<close>

definition fs_file :: "LocalFs \<Rightarrow> string \<Rightarrow> SourceFile" where
  "fs_file fs path =
     \<lparr>src_openable = (files fs path \<noteq> None),
      src_bytes = (case files fs path of None \<Rightarrow> [] | Some bytes \<Rightarrow> bytes),
      src_pos = 0, src_bad = None, src_error = False, src_errorString = fs_errorString fs\<rparr>"

text \<open>\<open>TapeIO::verifyFileHash\<close>.\<close>

definition verifyFileHash ::
  "IoEnv \<Rightarrow> TransferOptions \<Rightarrow> TransferItem \<Rightarrow> LocalFs \<Rightarrow> bool \<times> TransferItem" where
  "verifyFileHash env opts item0 fs =
     (let result =
            HashCalculator_hashFile (cryptographicHash env) (HashCalculator_new (hashMode opts))
              (fs_file fs (destPath item0))
      in
      if \<not> hash_success result then
        (False, item0\<lparr>errorMessage := ''Hash calculation failed'', item_status := Failed\<rparr>)
      else
        let item = item0\<lparr>destHash := hexString result\<rparr>;
            item = item\<lparr>hashVerified := equal_CaseInsensitive (sourceHash item) (destHash item)\<rparr>
        in
        if \<not> hashVerified item then
          (False, item\<lparr>errorMessage := ''Hash verification failed'', item_status := Failed\<rparr>)
        else (True, item))"

text \<open>
  The block loop of \<open>TapeIO::readFileFromTape\<close>. \<open>buffer\<close> is the local array
  the loop reuses; leaving the function inside the loop closes and removes the
  destination file.
\<close>

function read_chunks ::
  "IoEnv \<Rightarrow> u32 \<Rightarrow> int \<Rightarrow> TransferItem \<Rightarrow> TapeIO \<Rightarrow> LocalFs \<Rightarrow> QByteArray \<Rightarrow> int
     \<Rightarrow> (bool \<times> TransferItem \<times> TapeIO \<times> LocalFs, TransferItem \<times> TapeIO \<times> LocalFs) flow option" where
  "read_chunks env bsize expectedSize item io fs buffer totalRead =
     (if \<not> totalRead < expectedSize then Some (Left_loop (item, io, fs))
      else if cancelledAt env (clock io)
      then Some (Returned (False, item\<lparr>item_status := Cancelled\<rparr>, io,
                  fs_remove (destPath item) (fs_close (destPath item) fs)))
      else
        case wait_while_paused env (clock io) of
          None \<Rightarrow> None
        | Some (cancelledSeen, t) \<Rightarrow>
            if cancelledSeen
            then Some (Returned (False, item\<lparr>item_status := Cancelled\<rparr>, io\<lparr>clock := t\<rparr>,
                        fs_remove (destPath item) (fs_close (destPath item) fs)))
            else
              let toRead = min (uint bsize) (expectedSize - totalRead);
                  rd = readBlock buffer (of_int toRead) (device io);
                  bytesRead = fst rd;
                  buffer = fst (snd rd);
                  dev = snd (snd rd);
                  io = io\<lparr>device := dev, clock := Suc t\<rparr>
              in
              if bytesRead < 0 then
                Some (Returned (False,
                  item\<lparr>errorMessage := ''Read error: '' @ lastError dev, item_status := Failed\<rparr>,
                  io, fs_remove (destPath item) (fs_close (destPath item) fs)))
              else if bytesRead = 0 then Some (Left_loop (item, io, fs))
              else if fst (fs_write (destPath item) buffer fs) \<noteq> int (length buffer) then
                Some (Returned (False,
                  item\<lparr>errorMessage := ''Write error: '' @ fs_errorString fs, item_status := Failed\<rparr>,
                  io,
                  fs_remove (destPath item)
                    (fs_close (destPath item) (snd (fs_write (destPath item) buffer fs)))))
              else
                read_chunks env bsize expectedSize
                  (item\<lparr>item_bytesTransferred := totalRead + bytesRead\<rparr>)
                  (io\<lparr>completedBytes := completedBytes io + bytesRead,
                      progress := progress io @ [(totalRead + bytesRead, expectedSize)]\<rparr>)
                  (snd (fs_write (destPath item) buffer fs))
                  buffer (totalRead + bytesRead))"
  by pat_completeness auto
termination
  by (relation "measure (\<lambda>(env, bsize, expectedSize, item, io, fs, buffer, totalRead).
                   nat (expectedSize - totalRead))")
     auto

declare read_chunks.simps [simp del]

text \<open>
  \<open>QFileInfo(path).absolutePath()\<close> for an absolute path: the path without the
  file name. (A relative path Qt resolves against the working directory, which the
  model does not have.)
\<close>

definition absolutePath :: "string \<Rightarrow> string" where
  "absolutePath path =
     (let dir = rev (tl (dropWhile (\<lambda>c. c \<noteq> CHR ''/'') (rev path)))
      in if dir = [] then ''/'' else dir)"

text \<open>\<open>TapeIO::readFileFromTape\<close>.\<close>

definition readFileFromTape ::
  "IoEnv \<Rightarrow> TransferItem \<Rightarrow> TapeIO \<Rightarrow> LocalFs
     \<Rightarrow> (bool \<times> TransferItem \<times> TapeIO \<times> LocalFs) option" where
  "readFileFromTape env item0 io0 fs0 =
     (let (dirOk, fs1) =
            (if createDirectories (options io0) then fs_mkpath (absolutePath (destPath item0)) fs0
             else (True, fs0))
      in
      if \<not> dirOk then
        Some (False,
          item0\<lparr>errorMessage := ''Failed to create directory'', item_status := Failed\<rparr>, io0, fs1)
      else
        let (opened, fs2) = fs_open_truncate (destPath item0) fs1 in
        if \<not> opened then
          Some (False,
            item0\<lparr>errorMessage := ''Failed to create destination file: '' @ fs_errorString fs2,
                  item_status := Failed\<rparr>, io0, fs2)
        else
          case read_chunks env (blockSize (options io0)) (item_size item0) item0 io0 fs2 [] 0 of
            None \<Rightarrow> None
          | Some (Returned r) \<Rightarrow> Some r
          | Some (Left_loop (item, io, fs3)) \<Rightarrow>
              let fs = fs_close (destPath item) fs3 in
              if verifyAfterWrite (options io) \<and> sourceHash item \<noteq> [] then
                (case verifyFileHash env (options io) item fs of
                   (False, item) \<Rightarrow> Some (False, item, io, fs)
                 | (True, item) \<Rightarrow> Some (True, item\<lparr>item_status := Completed\<rparr>, io, fs))
              else Some (True, item\<lparr>item_status := Completed\<rparr>, io, fs))"

text \<open>
  \<open>TapeIO::readFile\<close>, the public entry to \<open>readFileFromTape\<close> (which is
  private): the item it builds from the file of the index, and the function. The
  item is a local of the function; the signals carry it.
\<close>

definition readFile_item :: "LtfsFile \<Rightarrow> string \<Rightarrow> TransferItem" where
  "readFile_item tapeFile path =
     TransferItem_default
       \<lparr>sourcePath := file_name tapeFile, destPath := path,
        item_size := sint (file_length tapeFile), item_status := InProgress\<rparr>"

definition readFile ::
  "IoEnv \<Rightarrow> LtfsFile \<Rightarrow> string \<Rightarrow> TapeIO \<Rightarrow> LocalFs \<Rightarrow> (bool \<times> TapeIO \<times> LocalFs) option" where
  "readFile env tapeFile path io0 fs0 =
     (if \<not> isOpen (device io0) then Some (False, io0\<lparr>io_lastError := ''Device not open''\<rparr>, fs0)
      else
        let item = readFile_item tapeFile path;
            io = io0\<lparr>fileSignals := fileSignals io0 @ [FileStarted item]\<rparr>
        in
        case readFileFromTape env item io fs0 of
          None \<Rightarrow> None
        | Some (ok, item, io, fs) \<Rightarrow>
            if ok then
              (let item = item\<lparr>item_status := Completed\<rparr>
               in Some (True, io\<lparr>fileSignals := fileSignals io @ [FileCompleted item]\<rparr>, fs))
            else
              (let item = item\<lparr>item_status := Failed\<rparr>
               in Some (False,
                    io\<lparr>fileSignals := fileSignals io @ [FileError item (errorMessage item)]\<rparr>,
                    fs)))"
section \<open>Observations on the transfer orchestrator\<close>

text \<open>
  A reply of a drive that accepted the command and moved every byte, a drive that
  answers every command so, and the operation codes (byte 0 of each command block)
  among a list of events.
\<close>

definition reply_ok :: "sg_reply \<Rightarrow> bool" where
  "reply_ok r = (ret r \<ge> 0 \<and> host_status r = 0 \<and> driver_status r = 0 \<and> io_status r = 0 \<and> resid r = 0)"

definition healthy :: "TapeDevice \<Rightarrow> bool" where
  "healthy dev = (\<forall>n. reply_ok (replies (sg dev) n))"

definition opcodes :: "Event list \<Rightarrow> u8 list" where
  "opcodes es = map (\<lambda>h. cmdp h ! 0) (commands_of es)"

text \<open>
  The file-system calls a read added, the two message prefixes of the I/O failures of
  the block loop, and the block loop of \<open>readFileFromTape\<close> started as the
  function starts it.
\<close>

definition new_ops :: "LocalFs \<Rightarrow> LocalFs \<Rightarrow> FsOp list" where
  "new_ops before after = drop (length (fs_ops before)) (fs_ops after)"

definition io_error_text :: "string \<Rightarrow> bool" where
  "io_error_text msg = (prefix ''Read error: '' msg \<or> prefix ''Write error: '' msg)"

definition read_phase ::
  "IoEnv \<Rightarrow> TransferItem \<Rightarrow> TapeIO \<Rightarrow> LocalFs
     \<Rightarrow> (bool \<times> TransferItem \<times> TapeIO \<times> LocalFs, TransferItem \<times> TapeIO \<times> LocalFs) flow option" where
  "read_phase env item io fs =
     (let fs1 = (if createDirectories (options io)
                 then snd (fs_mkpath (absolutePath (destPath item)) fs) else fs);
          fs2 = snd (fs_open_truncate (destPath item) fs1)
      in read_chunks env (blockSize (options io)) (item_size item) item io fs2 [] 0)"

text \<open>How the block loop can end, relative to the state it started from.\<close>

definition loop_left_ok ::
  "TransferItem \<Rightarrow> TapeIO \<Rightarrow> LocalFs \<Rightarrow> TransferItem \<Rightarrow> TapeIO \<Rightarrow> LocalFs \<Rightarrow> bool" where
  "loop_left_ok item io fs item' io' fs' =
     (destPath item' = destPath item \<and> sourceHash item' = sourceHash item \<and>
      options io' = options io \<and>
      (\<exists>xs. fs_ops fs' = fs_ops fs @ xs \<and> (\<forall>p. Remove p \<notin> set xs)) \<and>
      (files fs (destPath item) \<noteq> None \<longrightarrow> files fs' (destPath item) \<noteq> None))"

definition loop_returned_ok ::
  "TransferItem \<Rightarrow> LocalFs \<Rightarrow> bool \<Rightarrow> TransferItem \<Rightarrow> LocalFs \<Rightarrow> bool" where
  "loop_returned_ok item fs ok item' fs' =
     (\<not> ok \<and> (\<exists>xs. fs_ops fs' = fs_ops fs @ xs \<and> Remove (destPath item) \<in> set xs) \<and>
      files fs' (destPath item) = None \<and>
      (item_status item' = Cancelled \<or>
       item_status item' = Failed \<and> io_error_text (errorMessage item')))"

text \<open>
  Example runs: a three-byte file of the index to read back, whose extended
  attribute holds \<open>00000000000000aa\<close> as the hash stored when it was written; a
  10 MiB source file to write; options with 512 KiB blocks and the hash mode XXH64;
  and what is looked at in a result.
\<close>

definition example_tape_file :: LtfsFile where
  "example_tape_file =
     \<lparr>file_name = ''a.bin'', file_uid = 2, file_length = 3, file_readonly = False,
      file_creationTime = None, file_changeTime = None, file_modifyTime = None,
      file_accessTime = None, file_backupTime = None,
      file_extendedAttributes =
        [\<lparr>ea_key = ''ltfs.hash.xxh64sum'', ea_value = ''00000000000000aa''\<rparr>],
      extentInfo =
        [\<lparr>ext_partition = DataPartition, ext_startBlock = 0, fileOffset = 0, byteOffset = 0,
           byteCount = 3\<rparr>]\<rparr>"

definition example_io :: "bool \<Rightarrow> (nat \<Rightarrow> sg_reply) \<Rightarrow> TapeIO" where
  "example_io verify rs =
     \<lparr>device = example_device rs,
      options = \<lparr>hashMode = XXH64, verifyAfterWrite = verify, createDirectories = True,
                 continueOnError = True, blockSize = 524288\<rparr>,
      io_lastError = [], completedBytes = 0, clock = 0, progress = [], fileSignals = []\<rparr>"

definition example_env :: "(nat \<Rightarrow> bool) \<Rightarrow> IoEnv" where
  "example_env cancel =
     \<lparr>cryptographicHash = (\<lambda>mode bytes. []),
      cancelledAt = cancel, pausedAt = (\<lambda>t. False)\<rparr>"

definition example_fs :: LocalFs where
  "example_fs =
     \<lparr>mkpath_ok = True, open_ok = True, capacity = None, fs_errorString = [],
      files = (\<lambda>p. None), fs_ops = []\<rparr>"

definition read_outcome ::
  "string \<Rightarrow> (bool \<times> TapeIO \<times> LocalFs) option
     \<Rightarrow> (bool \<times> FileSignal list \<times> QByteArray option) option" where
  "read_outcome path r = map_option (\<lambda>(ok, io', fs'). (ok, fileSignals io', files fs' path)) r"

text \<open>
  The digest \<open>verifyFileHash\<close> would take of the file a read left at a path.
\<close>

definition restored_hash ::
  "IoEnv \<Rightarrow> string \<Rightarrow> (bool \<times> TapeIO \<times> LocalFs) option \<Rightarrow> string option" where
  "restored_hash env path r =
     map_option (\<lambda>(ok, io', fs').
        hexString (HashCalculator_hashFile (cryptographicHash env)
          (HashCalculator_new (hashMode (options io'))) (fs_file fs' path))) r"

definition example_source :: SourceFile where
  "example_source =
     \<lparr>src_openable = True, src_bytes = replicate (10 * 1024 * 1024) 0, src_pos = 0,
      src_bad = None, src_error = False, src_errorString = []\<rparr>"

definition example_write_item :: TransferItem where
  "example_write_item =
     \<lparr>sourcePath = ''/data/big.bin'', destPath = ''big.bin'', relativePath = ''big.bin'',
      item_size = 10 * 1024 * 1024, item_status = InProgress, errorMessage = [],
      item_bytesTransferred = 0, sourceHash = [], destHash = [], hashVerified = False,
      isDirectory = False\<rparr>"

definition write_outcome ::
  "(bool \<times> TransferItem \<times> TapeIO) option \<Rightarrow> (bool \<times> TransferStatus \<times> int \<times> u8 list) option" where
  "write_outcome r =
     map_option (\<lambda>(ok, item', io').
        (ok, item_status item', item_bytesTransferred item', opcodes (events (device io')))) r"

section \<open>Properties of the transfer orchestrator\<close>

subsection \<open>A drive that accepts every command\<close>

lemma opcodes_append [simp]: "opcodes (xs @ ys) = opcodes xs @ opcodes ys"
  by (simp add: opcodes_def)

lemma opcodes_simps [simp]:
  "opcodes [] = []"
  "opcodes (Command h # es) = cmdp h ! 0 # opcodes es"
  "opcodes (Emit s # es) = opcodes es"
  by (simp_all add: opcodes_def)

lemma execute_ok:
  assumes "scsi_isOpen d" and "reply_ok (replies tp (length (issued tp)))"
    and "dir \<noteq> FromDevice"
  shows "success (fst (execute d cdb dir buf len tp))"
    and "bytesTransferred (fst (execute d cdb dir buf len tp)) = len"
    and "replies (snd (snd (execute d cdb dir buf len tp))) = replies tp"
    and "\<exists>h. issued (snd (snd (execute d cdb dir buf len tp))) = issued tp @ [h] \<and> cmdp h = cdb"
  using assms
  by (simp_all add: execute_def ioctl_SG_IO_def reply_ok_def Let_def split_def
      SCSI_STATUS_GOOD_def ScsiCommandResult_default_def)

lemma scsi_call_ok:
  assumes "isOpen dev" and "healthy dev"
    and m: "\<And>d tp. scsi_isOpen d \<Longrightarrow> reply_ok (replies tp (length (issued tp))) \<Longrightarrow>
              success (fst (m d tp)) \<and> Q (fst (m d tp)) \<and> replies (snd (m d tp)) = replies tp \<and>
              (\<exists>h. issued (snd (m d tp)) = issued tp @ [h] \<and> cmdp h ! 0 = opc)"
  shows "success (fst (scsi_call m dev))"
    and "Q (fst (scsi_call m dev))"
    and "healthy (snd (scsi_call m dev))"
    and "\<exists>h. events (snd (scsi_call m dev)) = events dev @ [Command h] \<and> cmdp h ! 0 = opc"
proof -
  have ok: "reply_ok (replies (sg dev) (length (issued (sg dev))))"
    using assms(2) by (simp add: healthy_def)
  note mm = m [OF isOpen_the [OF assms(1)] ok]
  show "success (fst (scsi_call m dev))" "Q (fst (scsi_call m dev))"
    using mm by (simp_all add: scsi_call_def split_def Let_def)
  show "healthy (snd (scsi_call m dev))"
    using mm assms(2) by (simp add: scsi_call_def split_def Let_def healthy_def)
  from mm obtain h where "issued (snd (m (the (scsi dev)) (sg dev))) = issued (sg dev) @ [h]"
    "cmdp h ! 0 = opc" by blast
  then show "\<exists>h. events (snd (scsi_call m dev)) = events dev @ [Command h] \<and> cmdp h ! 0 = opc"
    by (simp add: scsi_call_def split_def Let_def)
qed

lemma write6_ok:
  assumes "scsi_isOpen d" and "reply_ok (replies tp (length (issued tp)))"
  shows "success (fst (scsi_write6 buf fixed d tp)) \<and>
         bytesTransferred (fst (scsi_write6 buf fixed d tp)) = of_nat (length buf) \<and>
         replies (snd (scsi_write6 buf fixed d tp)) = replies tp \<and>
         (\<exists>h. issued (snd (scsi_write6 buf fixed d tp)) = issued tp @ [h] \<and> cmdp h ! 0 = 0x0A)"
proof -
  let ?cdb = "(replicate 6 0)
            [0 := 0x0A, 1 := (if fixed then 0x01 else 0x00),
             2 := ucast (drop_bit 16 (of_nat (length buf) :: u32) AND 0xFF),
             3 := ucast (drop_bit 8 (of_nat (length buf) :: u32) AND 0xFF),
             4 := ucast ((of_nat (length buf) :: u32) AND 0xFF)]"
  have c0: "?cdb ! 0 = (0x0A :: u8)" by (simp add: numeral_eq_Suc)
  have e: "scsi_write6 buf fixed d tp =
      (fst (execute d ?cdb ToDevice buf (of_nat (length buf)) tp),
       snd (snd (execute d ?cdb ToDevice buf (of_nat (length buf)) tp)))"
    by (simp add: scsi_write6_def Let_def split_def)
  show ?thesis
    unfolding e fst_conv snd_conv
    using execute_ok [OF assms, of ToDevice ?cdb buf "of_nat (length buf)"] c0
    by auto
qed

lemma locate16_ok:
  assumes "scsi_isOpen d" and "reply_ok (replies tp (length (issued tp)))"
  shows "success (fst (scsi_locate16 part blockNo d tp)) \<and> True \<and>
         replies (snd (scsi_locate16 part blockNo d tp)) = replies tp \<and>
         (\<exists>h. issued (snd (scsi_locate16 part blockNo d tp)) = issued tp @ [h] \<and> cmdp h ! 0 = 0x92)"
proof -
  have e: "scsi_locate16 part blockNo d tp =
      (fst (execute d (locate_cdb part blockNo) Direction_None [] 0 tp),
       snd (snd (execute d (locate_cdb part blockNo) Direction_None [] 0 tp)))"
    by (simp add: scsi_locate16_def Let_def split_def locate_cdb_def numeral_eq_Suc)
  show ?thesis
    unfolding e fst_conv snd_conv
    using execute_ok [OF assms, of Direction_None "locate_cdb part blockNo" "[]" 0]
    by (auto simp: locate_cdb_def)
qed

lemma space_ok:
  assumes "scsi_isOpen d" and "reply_ok (replies tp (length (issued tp)))"
  shows "success (fst (scsi_space code cnt d tp)) \<and> True \<and>
         replies (snd (scsi_space code cnt d tp)) = replies tp \<and>
         (\<exists>h. issued (snd (scsi_space code cnt d tp)) = issued tp @ [h] \<and> cmdp h ! 0 = 0x11)"
proof -
  let ?cdb = "(replicate 6 0)
            [0 := 0x11, 1 := code AND 0x07,
             2 := ucast (signed_drop_bit 16 cnt AND 0xFF),
             3 := ucast (signed_drop_bit 8 cnt AND 0xFF),
             4 := ucast (cnt AND 0xFF)]"
  have c0: "?cdb ! 0 = (0x11 :: u8)" by (simp add: numeral_eq_Suc)
  have e: "scsi_space code cnt d tp =
      (fst (execute d ?cdb Direction_None [] 0 tp),
       snd (snd (execute d ?cdb Direction_None [] 0 tp)))"
    by (simp add: scsi_space_def Let_def split_def)
  show ?thesis
    unfolding e fst_conv snd_conv
    using execute_ok [OF assms, of Direction_None ?cdb "[]" 0] c0
    by auto
qed

lemma scsi_writeFilemark_ok:
  assumes "scsi_isOpen d" and "reply_ok (replies tp (length (issued tp)))"
  shows "success (fst (scsi_writeFilemark cnt sm imm d tp)) \<and> True \<and>
         replies (snd (scsi_writeFilemark cnt sm imm d tp)) = replies tp \<and>
         (\<exists>h. issued (snd (scsi_writeFilemark cnt sm imm d tp)) = issued tp @ [h] \<and> cmdp h ! 0 = 0x10)"
proof -
  let ?cdb = "(replicate 6 0)
            [0 := 0x10,
             1 := (if imm then 0x01 else 0x00) OR (if sm then 0x02 else 0x00),
             2 := ucast (drop_bit 16 cnt AND 0xFF),
             3 := ucast (drop_bit 8 cnt AND 0xFF),
             4 := ucast (cnt AND 0xFF)]"
  have c0: "?cdb ! 0 = (0x10 :: u8)" by (simp add: numeral_eq_Suc)
  have e: "scsi_writeFilemark cnt sm imm d tp =
      (fst (execute d ?cdb Direction_None [] 0 tp),
       snd (snd (execute d ?cdb Direction_None [] 0 tp)))"
    by (simp add: scsi_writeFilemark_def Let_def split_def)
  show ?thesis
    unfolding e fst_conv snd_conv
    using execute_ok [OF assms, of Direction_None ?cdb "[]" 0] c0
    by auto
qed

lemma healthy_cong: "sg d' = sg d \<Longrightarrow> healthy d' = healthy d"
  by (simp add: healthy_def)

lemma healthy_setStatus [simp]: "healthy (setStatus st dev) = healthy dev"
  by (simp add: healthy_def)

lemma writeBlock_healthy:
  assumes "isOpen dev" and "healthy dev" and "length buf < 2 ^ 32"
  shows "fst (writeBlock buf dev) = int (length buf)"
    and "isOpen (snd (writeBlock buf dev))"
    and "healthy (snd (writeBlock buf dev))"
    and "\<exists>es. events (snd (writeBlock buf dev)) = events dev @ es \<and> opcodes es = [0x0A]"
proof -
  let ?d1 = "setStatus Writing dev"
  let ?c = "scsi_call (scsi_write6 buf False) ?d1"
  have o1: "isOpen ?d1" "healthy ?d1" using assms by simp_all
  note c = scsi_call_ok [OF o1, of "scsi_write6 buf False"
      "\<lambda>r. bytesTransferred r = of_nat (length buf)" "0x0A", OF write6_ok]
  have wb: "writeBlock buf dev =
      (uint (bytesTransferred (fst ?c)),
       setStatus Ready ((snd ?c)\<lparr>lastSenseData := senseData (fst ?c),
          position := (position (snd ?c))\<lparr>blockNumber := blockNumber (position (snd ?c)) + 1\<rparr>\<rparr>))"
    using assms(1) c(1)
    by (simp add: writeBlock_def checkOpen_def split_def Let_def)
  have "uint (of_nat (length buf) :: u32) = int (length buf)"
    using assms(3) by (simp add: uint_nat unat_of_nat)
  then show "fst (writeBlock buf dev) = int (length buf)"
    using wb c(2) by simp
  show "isOpen (snd (writeBlock buf dev))"
    using wb assms(1) by (simp add: isOpen_def)
  show "healthy (snd (writeBlock buf dev))"
    using wb c(3) by (simp add: healthy_def)
  from c(4) obtain h where h: "events (snd ?c) = events ?d1 @ [Command h]" "cmdp h ! 0 = 0x0A"
    by blast
  show "\<exists>es. events (snd (writeBlock buf dev)) = events dev @ es \<and> opcodes es = [0x0A]"
    using wb h by (simp add: events_setStatus)
qed

lemma locate_healthy:
  assumes "isOpen dev" and "healthy dev"
  shows "fst (locate part blockNo dev)"
    and "isOpen (snd (locate part blockNo dev))"
    and "healthy (snd (locate part blockNo dev))"
    and "\<exists>es. events (snd (locate part blockNo dev)) = events dev @ es \<and> opcodes es = [0x92]"
proof -
  let ?d1 = "setStatus Locating dev"
  let ?c = "scsi_call (scsi_locate16 part blockNo) ?d1"
  have o1: "isOpen ?d1" "healthy ?d1" using assms by simp_all
  note c = scsi_call_ok [OF o1, of "scsi_locate16 part blockNo" "\<lambda>r. True" "0x92", OF locate16_ok]
  have lc: "locate part blockNo dev =
      (True, setStatus Ready ((snd ?c)\<lparr>lastSenseData := senseData (fst ?c),
          position := (position (snd ?c))\<lparr>partition := part, blockNumber := blockNo\<rparr>\<rparr>))"
    using assms(1) c(1)
    by (simp add: locate_def checkOpen_def split_def Let_def)
  show "fst (locate part blockNo dev)" using lc by simp
  show "isOpen (snd (locate part blockNo dev))"
    using lc assms(1) by (simp add: isOpen_def)
  show "healthy (snd (locate part blockNo dev))"
    using lc c(3) by (simp add: healthy_def)
  from c(4) obtain h where h: "events (snd ?c) = events ?d1 @ [Command h]" "cmdp h ! 0 = 0x92"
    by blast
  show "\<exists>es. events (snd (locate part blockNo dev)) = events dev @ es \<and> opcodes es = [0x92]"
    using lc h by (simp add: events_setStatus)
qed

lemma spaceToEndOfData_healthy:
  assumes "isOpen dev" and "healthy dev"
  shows "fst (spaceToEndOfData dev)"
    and "isOpen (snd (spaceToEndOfData dev))"
    and "healthy (snd (spaceToEndOfData dev))"
    and "\<exists>es. events (snd (spaceToEndOfData dev)) = events dev @ es \<and> opcodes es = [0x11]"
proof -
  let ?c = "scsi_call (scsi_space 3 0) dev"
  note c = scsi_call_ok [OF assms, of "scsi_space 3 0" "\<lambda>r. True" "0x11", OF space_ok]
  have sp: "spaceToEndOfData dev =
      (True, (snd ?c)\<lparr>lastSenseData := senseData (fst ?c),
          position := (position (snd ?c))\<lparr>endOfPartition := True\<rparr>\<rparr>)"
    using assms(1) c(1)
    by (simp add: spaceToEndOfData_def checkOpen_def split_def Let_def)
  show "fst (spaceToEndOfData dev)" using sp by simp
  show "isOpen (snd (spaceToEndOfData dev))"
    using sp assms(1) by (simp add: isOpen_def)
  show "healthy (snd (spaceToEndOfData dev))"
    using sp c(3) by (simp add: healthy_def)
  from c(4) obtain h where h: "events (snd ?c) = events dev @ [Command h]" "cmdp h ! 0 = 0x11"
    by blast
  show "\<exists>es. events (snd (spaceToEndOfData dev)) = events dev @ es \<and> opcodes es = [0x11]"
    using sp h by simp
qed

lemma seekToEnd_healthy:
  assumes "isOpen dev" and "healthy dev"
  shows "fst (seekToEnd part dev)"
    and "isOpen (snd (seekToEnd part dev))"
    and "healthy (snd (seekToEnd part dev))"
    and "\<exists>es. events (snd (seekToEnd part dev)) = events dev @ es \<and> opcodes es = [0x92, 0x11]"
proof -
  let ?l = "locate part 0 dev"
  note l = locate_healthy [OF assms, of part 0]
  note s = spaceToEndOfData_healthy [OF l(2) l(3)]
  have sk: "seekToEnd part dev = spaceToEndOfData (snd ?l)"
    using l(1) by (simp add: seekToEnd_def split_def Let_def)
  show "fst (seekToEnd part dev)" "isOpen (snd (seekToEnd part dev))"
    "healthy (snd (seekToEnd part dev))"
    using sk s by simp_all
  from l(4) s(4) show "\<exists>es. events (snd (seekToEnd part dev)) = events dev @ es \<and> opcodes es = [0x92, 0x11]"
    unfolding sk by auto
qed

subsection \<open>Writing a file\<close>

lemma wait_not_paused:
  assumes "\<not> pausedAt env t"
  shows "wait_while_paused env t = Some (False, t)"
  using assms by (subst wait_while_paused.simps) simp

lemma file_read_full_chunk:
  assumes "src_bad f = None" and "src_pos f + n \<le> length (src_bytes f)"
  shows "file_read n f = (take n (drop (src_pos f) (src_bytes f)), f\<lparr>src_pos := src_pos f + n\<rparr>)"
    and "length (take n (drop (src_pos f) (src_bytes f))) = n"
  using assms by (auto simp: file_read_def Let_def min_def)

lemma write_chunks_step:
  assumes op: "isOpen (device io)" and he: "healthy (device io)"
    and np: "\<not> pausedAt env (clock io)"
    and nc: "\<not> cancelledAt env (clock io)"
    and nb: "src_bad f = None"
    and full: "src_pos f + unat bsize \<le> length (src_bytes f)"
    and pos: "0 < unat bsize"
  shows "\<exists>item' io'.
      write_chunks env bsize fileSize f item io tot
        = write_chunks env bsize fileSize (f\<lparr>src_pos := src_pos f + unat bsize\<rparr>) item' io'
            (tot + int (unat bsize)) \<and>
      isOpen (device io') \<and> healthy (device io') \<and> clock io' = Suc (clock io) \<and>
      item_bytesTransferred item' = tot + int (unat bsize) \<and>
      (\<exists>es. events (device io') = events (device io) @ es \<and> opcodes es = [0x0A])"
proof -
  let ?chunk = "take (unat bsize) (drop (src_pos f) (src_bytes f))"
  have rd: "file_read (unat bsize) f = (?chunk, f\<lparr>src_pos := src_pos f + unat bsize\<rparr>)"
    and len: "length ?chunk = unat bsize"
    using file_read_full_chunk [OF nb full] by simp_all
  have ne: "?chunk \<noteq> []" using len pos by auto
  have lt: "length ?chunk < 2 ^ 32"
    using len unsigned_less [of bsize, where 'a = nat] by simp
  note wb = writeBlock_healthy [OF op he lt]
  have nat_end: "\<not> atEnd f" using full pos by (simp add: atEnd_def)
  let ?dev = "snd (writeBlock ?chunk (device io))"
  let ?item = "item\<lparr>item_bytesTransferred := tot + int (unat bsize)\<rparr>"
  let ?io = "io\<lparr>device := ?dev, clock := Suc (clock io),
                completedBytes := completedBytes io + int (unat bsize),
                progress := progress io @ [(tot + int (unat bsize), fileSize)]\<rparr>"
  have "write_chunks env bsize fileSize f item io tot
        = write_chunks env bsize fileSize (f\<lparr>src_pos := src_pos f + unat bsize\<rparr>) ?item ?io
            (tot + int (unat bsize))"
    using nat_end nc ne wb(1) len
    by (subst write_chunks.simps) (simp add: wait_not_paused [OF np] rd Let_def)
  moreover have "isOpen (device ?io)" "healthy (device ?io)" using wb(2,3) by simp_all
  moreover have "\<exists>es. events (device ?io) = events (device io) @ es \<and> opcodes es = [0x0A]"
    using wb(4) by simp
  ultimately show ?thesis
    by (intro exI [of _ ?item] exI [of _ ?io]) simp
qed

lemma write_chunks_healthy:
  assumes "isOpen (device io)" and "healthy (device io)"
    and "\<forall>t. \<not> pausedAt env t"
    and "\<forall>j<k. \<not> cancelledAt env (clock io + j)"
    and "src_bad f = None"
    and "src_pos f + k * unat bsize \<le> length (src_bytes f)"
    and "0 < unat bsize"
  shows "\<exists>item' io'.
      write_chunks env bsize fileSize f item io tot
        = write_chunks env bsize fileSize (f\<lparr>src_pos := src_pos f + k * unat bsize\<rparr>) item' io'
            (tot + int (k * unat bsize)) \<and>
      isOpen (device io') \<and> healthy (device io') \<and> clock io' = clock io + k \<and>
      (0 < k \<longrightarrow> item_bytesTransferred item' = tot + int (k * unat bsize)) \<and>
      (\<exists>es. events (device io') = events (device io) @ es \<and> opcodes es = replicate k 0x0A)"
  using assms
proof (induction k arbitrary: f item io tot)
  case 0
  show ?case
    by (intro exI [of _ item] exI [of _ io]) (use 0 in simp)
next
  case (Suc k)
  have full1: "src_pos f + unat bsize \<le> length (src_bytes f)"
    using Suc.prems(6) by simp
  have nc0: "\<not> cancelledAt env (clock io)" using Suc.prems(4) by force
  have np0: "\<not> pausedAt env (clock io)" using Suc.prems(3) by simp
  obtain item1 io1 where s1:
    "write_chunks env bsize fileSize f item io tot
        = write_chunks env bsize fileSize (f\<lparr>src_pos := src_pos f + unat bsize\<rparr>) item1 io1
            (tot + int (unat bsize))"
    "isOpen (device io1)" "healthy (device io1)" "clock io1 = Suc (clock io)"
    "item_bytesTransferred item1 = tot + int (unat bsize)"
    "\<exists>es. events (device io1) = events (device io) @ es \<and> opcodes es = [0x0A]"
    using write_chunks_step [OF Suc.prems(1,2) np0 nc0 Suc.prems(5) full1 Suc.prems(7),
        of fileSize item tot] by blast
  let ?f1 = "f\<lparr>src_pos := src_pos f + unat bsize\<rparr>"
  have c1: "\<forall>j<k. \<not> cancelledAt env (clock io1 + j)"
  proof (intro allI impI)
    fix j assume "j < k"
    then have "Suc j < Suc k" by simp
    with Suc.prems(4) have "\<not> cancelledAt env (clock io + Suc j)" by blast
    then show "\<not> cancelledAt env (clock io1 + j)" using s1(4) by simp
  qed
  have b1: "src_bad ?f1 = None" using Suc.prems(5) by simp
  have p1: "src_pos ?f1 + k * unat bsize \<le> length (src_bytes ?f1)"
    using Suc.prems(6) by (simp add: algebra_simps)
  obtain item2 io2 where s2:
    "write_chunks env bsize fileSize ?f1 item1 io1 (tot + int (unat bsize))
        = write_chunks env bsize fileSize (?f1\<lparr>src_pos := src_pos ?f1 + k * unat bsize\<rparr>) item2 io2
            (tot + int (unat bsize) + int (k * unat bsize))"
    "isOpen (device io2)" "healthy (device io2)" "clock io2 = clock io1 + k"
    "0 < k \<longrightarrow> item_bytesTransferred item2 = tot + int (unat bsize) + int (k * unat bsize)"
    "\<exists>es. events (device io2) = events (device io1) @ es \<and> opcodes es = replicate k 0x0A"
    using Suc.IH [OF s1(2,3) Suc.prems(3) c1 b1 p1 Suc.prems(7), of item1 "tot + int (unat bsize)"]
    by blast
  have k0: "k = 0 \<Longrightarrow> item2 = item2" by simp
  have pos_eq: "?f1\<lparr>src_pos := src_pos ?f1 + k * unat bsize\<rparr>
      = f\<lparr>src_pos := src_pos f + Suc k * unat bsize\<rparr>"
    by (simp add: algebra_simps)
  have tot_eq: "tot + int (unat bsize) + int (k * unat bsize) = tot + int (Suc k * unat bsize)"
    by (simp add: algebra_simps)
  have ev: "\<exists>es. events (device io2) = events (device io) @ es \<and> opcodes es = replicate (Suc k) 0x0A"
  proof -
    from s1(6) obtain e1 where e1: "events (device io1) = events (device io) @ e1" "opcodes e1 = [0x0A]"
      by blast
    from s2(6) obtain e2 where e2: "events (device io2) = events (device io1) @ e2"
      "opcodes e2 = replicate k 0x0A" by blast
    have "events (device io2) = events (device io) @ (e1 @ e2)" using e1 e2 by simp
    moreover have "opcodes (e1 @ e2) = replicate (Suc k) 0x0A" using e1 e2 by simp
    ultimately show ?thesis by blast
  qed
  have bt: "item_bytesTransferred item2 = tot + int (Suc k * unat bsize) \<or> k = 0"
    using s2(5) tot_eq by auto
  show ?case
  proof (cases "k = 0")
    case True
    have "write_chunks env bsize fileSize f item io tot
        = write_chunks env bsize fileSize (f\<lparr>src_pos := src_pos f + Suc k * unat bsize\<rparr>) item1 io1
            (tot + int (Suc k * unat bsize))"
      using s1(1) True by simp
    moreover have "\<exists>es. events (device io1) = events (device io) @ es \<and> opcodes es = replicate (Suc k) 0x0A"
      using s1(6) True by simp
    ultimately show ?thesis
      using s1 True by (intro exI [of _ item1] exI [of _ io1]) simp
  next
    case False
    have "write_chunks env bsize fileSize f item io tot
        = write_chunks env bsize fileSize (f\<lparr>src_pos := src_pos f + Suc k * unat bsize\<rparr>) item2 io2
            (tot + int (Suc k * unat bsize))"
      unfolding s1(1) s2(1) pos_eq tot_eq ..
    then show ?thesis
      using s2(2,3,4) s1(4) bt False ev
      by (intro exI [of _ item2] exI [of _ io2]) simp
  qed
qed

lemma healthy_example: "healthy (example_device (\<lambda>n. reply_good))"
  by (simp add: healthy_def reply_ok_def reply_good_def example_device_def)

text \<open>
  Claim C6. A 10 MiB source file is written in 512 KiB chunks to a drive that accepts
  every command, nobody pauses, and the cancelled flag is clear at the first three
  ticks of the run and set at the fourth, that is, once exactly three chunks have
  been written. Then \<open>writeFileToTape\<close> returns \<open>false\<close>, the item is Cancelled,
  its \<open>bytesTransferred\<close> is 3 * 512 KiB, and the commands issued are LOCATE(16),
  SPACE and three WRITE(6): no fourth chunk and no WRITE FILEMARKS (0x10).
\<close>

theorem write_cancelled_after_three_chunks:
  assumes "\<not> isDirectory item" and "src_openable f" and "src_pos f = 0" and "src_bad f = None"
    and "length (src_bytes f) = 10 * 1024 * 1024"
    and "blockSize (options io) = 512 * 1024"
    and "isOpen (device io)" and "healthy (device io)"
    and "\<forall>t. \<not> pausedAt env t"
    and "\<forall>j<3. \<not> cancelledAt env (clock io + j)"
    and "cancelledAt env (clock io + 3)"
  shows "\<exists>item' io' es.
      writeFileToTape env f item io = Some (False, item', io') \<and>
      item_status item' = Cancelled \<and>
      item_bytesTransferred item' = 3 * (512 * 1024) \<and>
      events (device io') = events (device io) @ es \<and>
      opcodes es = [0x92, 0x11, 0x0A, 0x0A, 0x0A] \<and>
      0x10 \<notin> set (opcodes es)"
proof -
  define item1 where "item1 =
     (if verifyAfterWrite (options io) then
        (let hashResult =
               HashCalculator_hashFile (cryptographicHash env)
                 (HashCalculator_new (hashMode (options io))) f
         in if hash_success hashResult then item\<lparr>sourceHash := hexString hashResult\<rparr> else item)
      else item)"
  define io1 where "io1 = io\<lparr>device := snd (seekToEnd 1 (device io))\<rparr>"
  note sk = seekToEnd_healthy [OF assms(7,8), of 1]
  have bs: "unat (blockSize (options io1)) = 524288"
    using assms(6) by (simp add: io1_def)
  have o1: "isOpen (device io1)" "healthy (device io1)" "clock io1 = clock io"
    using sk by (simp_all add: io1_def)
  have c1: "\<forall>j<3. \<not> cancelledAt env (clock io1 + j)" using assms(10) o1(3) by simp
  have p1: "src_pos f + 3 * unat (blockSize (options io1)) \<le> length (src_bytes f)"
    using assms(3,5) bs by simp
  have bp: "0 < unat (blockSize (options io1))" using bs by simp
  from write_chunks_healthy [OF o1(1,2) assms(9) c1 assms(4) p1 bp,
        of "int (length (src_bytes f))" item1 0]
  obtain item2 io2 where w0:
    "write_chunks env (blockSize (options io1)) (int (length (src_bytes f))) f item1 io1 0
        = write_chunks env (blockSize (options io1)) (int (length (src_bytes f)))
            (f\<lparr>src_pos := src_pos f + 3 * unat (blockSize (options io1))\<rparr>) item2 io2
            (0 + int (3 * unat (blockSize (options io1)))) \<and>
     isOpen (device io2) \<and> healthy (device io2) \<and> clock io2 = clock io1 + 3 \<and>
     (0 < (3::nat) \<longrightarrow>
        item_bytesTransferred item2 = 0 + int (3 * unat (blockSize (options io1)))) \<and>
     (\<exists>es. events (device io2) = events (device io1) @ es \<and> opcodes es = replicate 3 0x0A)"
    by (elim exE) (rule that)
  have w:
    "write_chunks env (blockSize (options io1)) (int (length (src_bytes f))) f item1 io1 0
        = write_chunks env (blockSize (options io1)) (int (length (src_bytes f)))
            (f\<lparr>src_pos := src_pos f + 3 * unat (blockSize (options io1))\<rparr>) item2 io2
            (0 + int (3 * unat (blockSize (options io1))))"
    "isOpen (device io2)" "healthy (device io2)" "clock io2 = clock io1 + 3"
    "item_bytesTransferred item2 = 0 + int (3 * unat (blockSize (options io1)))"
    "\<exists>es. events (device io2) = events (device io1) @ es \<and> opcodes es = replicate 3 0x0A"
    using w0 by simp_all
  let ?f3 = "f\<lparr>src_pos := src_pos f + 3 * unat (blockSize (options io1))\<rparr>"
  have ne: "\<not> atEnd ?f3" using assms(3,5) bs by (simp add: atEnd_def)
  have cn: "cancelledAt env (clock io2)" using assms(11) w(4) o1(3) by simp
  have fin: "write_chunks env (blockSize (options io1)) (int (length (src_bytes f))) ?f3 item2 io2
            (0 + int (3 * unat (blockSize (options io1))))
        = Some (Returned (False, item2\<lparr>item_status := Cancelled\<rparr>, io2))"
    using ne cn by (subst write_chunks.simps) simp
  have res: "writeFileToTape env f item io = Some (False, item2\<lparr>item_status := Cancelled\<rparr>, io2)"
    using assms(1,2) sk(1) w(1) fin
    by (simp add: writeFileToTape_def split_def Let_def item1_def io1_def)
  from sk(4) obtain e1 where e1: "events (device io1) = events (device io) @ e1"
    "opcodes e1 = [0x92, 0x11]" by (auto simp: io1_def)
  from w(6) obtain e2 where e2: "events (device io2) = events (device io1) @ e2"
    "opcodes e2 = replicate 3 0x0A" by blast
  have ev: "events (device io2) = events (device io) @ (e1 @ e2)" using e1 e2 by simp
  have oc: "opcodes (e1 @ e2) = [0x92, 0x11, 0x0A, 0x0A, 0x0A]"
    using e1 e2 by (simp add: numeral_3_eq_3)
  have bt: "item_bytesTransferred (item2\<lparr>item_status := Cancelled\<rparr>) = 3 * (512 * 1024)"
    using w(5) bs by simp
  show ?thesis
    using res ev oc bt
    by (intro exI [of _ "item2\<lparr>item_status := Cancelled\<rparr>"] exI [of _ io2] exI [of _ "e1 @ e2"])
       simp
qed

theorem write_cancelled_after_three_chunks_witness:
  "write_outcome (writeFileToTape (example_env (\<lambda>t. 3 \<le> t)) example_source example_write_item
       (example_io True (\<lambda>n. reply_good)))
     = Some (False, Cancelled, 3 * (512 * 1024), [0x92, 0x11, 0x0A, 0x0A, 0x0A])"
proof -
  let ?env = "example_env (\<lambda>t. 3 \<le> t)"
  let ?io = "example_io True (\<lambda>n. reply_good)"
  have h: "\<not> isDirectory example_write_item" "src_openable example_source"
    "src_pos example_source = 0" "src_bad example_source = None"
    "length (src_bytes example_source) = 10 * 1024 * 1024"
    "blockSize (options ?io) = 512 * 1024"
    "isOpen (device ?io)" "healthy (device ?io)"
    "\<forall>t. \<not> pausedAt ?env t"
    "\<forall>j<3. \<not> cancelledAt ?env (clock ?io + j)"
    "cancelledAt ?env (clock ?io + 3)"
    by (simp_all add: example_write_item_def example_source_def example_io_def example_env_def
        healthy_example)
  have e0: "events (device ?io) = []" by (simp add: example_io_def example_device_def)
  from write_cancelled_after_three_chunks [OF h] e0
  show ?thesis by (auto simp: write_outcome_def)
qed

subsection \<open>Reading a file back\<close>

lemma io_error_text_simps [simp]:
  "io_error_text (''Read error: '' @ m)"
  "io_error_text (''Write error: '' @ m)"
  "\<not> io_error_text ''Hash verification failed''"
  "\<not> io_error_text ''Hash calculation failed''"
  "\<not> io_error_text ''Failed to create directory''"
  "\<not> io_error_text (''Failed to create destination file: '' @ m)"
  by (simp_all add: io_error_text_def)

lemma fs_simps [simp]:
  "fs_ops (fs_close p fs) = fs_ops fs @ [Close p]"
  "files (fs_close p fs) = files fs"
  "fs_ops (fs_remove p fs) = fs_ops fs @ [Remove p]"
  "files (fs_remove p fs) = (files fs)(p := None)"
  "fs_ops (snd (fs_write p b fs)) = fs_ops fs @ [Write p (nat (fst (fs_write p b fs)))]"
  "files (snd (fs_write p b fs)) p \<noteq> None"
  "fs_ops (snd (fs_mkpath p fs)) = fs_ops fs @ [Mkpath p]"
  "files (snd (fs_mkpath p fs)) = files fs"
  "fst (fs_mkpath p fs) = mkpath_ok fs"
  "mkpath_ok (snd (fs_mkpath p fs)) = mkpath_ok fs"
  "open_ok (snd (fs_mkpath p fs)) = open_ok fs"
  "fs_ops (snd (fs_open_truncate p fs)) = fs_ops fs @ [Open p]"
  "fst (fs_open_truncate p fs) = open_ok fs"
  "open_ok fs \<Longrightarrow> files (snd (fs_open_truncate p fs)) p = Some []"
  by (simp_all add: fs_close_def fs_remove_def fs_write_def fs_mkpath_def fs_open_truncate_def
      Let_def)

lemma read_chunks_result:
  assumes "read_chunks env bsize expected item io fs buffer tot = Some r"
  shows "case r of
           Left_loop (item', io', fs') \<Rightarrow> loop_left_ok item io fs item' io' fs'
         | Returned (ok, item', io', fs') \<Rightarrow> loop_returned_ok item fs ok item' fs'"
  using assms
proof (induction env bsize expected item io fs buffer tot arbitrary: r rule: read_chunks.induct)
  case (1 env bsize expectedSize item io fs buffer totalRead)
  note run = "1.prems"
  show ?case
  proof (cases "\<not> totalRead < expectedSize")
    case True
    then have "r = Left_loop (item, io, fs)"
      using run by (subst (asm) read_chunks.simps) simp
    then show ?thesis by (simp add: loop_left_ok_def)
  next
    case more: False
    show ?thesis
    proof (cases "cancelledAt env (clock io)")
      case True
      then have "r = Returned (False, item\<lparr>item_status := Cancelled\<rparr>, io,
                  fs_remove (destPath item) (fs_close (destPath item) fs))"
        using run more by (subst (asm) read_chunks.simps) simp
      then show ?thesis by (simp add: loop_returned_ok_def io_error_text_def)
    next
      case nc: False
      show ?thesis
      proof (cases "wait_while_paused env (clock io)")
        case None
        then show ?thesis
          using run more nc by (subst (asm) read_chunks.simps) simp
      next
        case (Some w)
        obtain seen t where w: "w = (seen, t)" by (cases w)
        show ?thesis
        proof (cases seen)
          case True
          then have "r = Returned (False, item\<lparr>item_status := Cancelled\<rparr>, io\<lparr>clock := t\<rparr>,
                  fs_remove (destPath item) (fs_close (destPath item) fs))"
            using run more nc Some w by (subst (asm) read_chunks.simps) simp
          then show ?thesis by (simp add: loop_returned_ok_def io_error_text_def)
        next
          case ns: False
          define toRead where "toRead = min (uint bsize) (expectedSize - totalRead)"
          define rd where "rd = readBlock buffer (of_int toRead) (device io)"
          define io1 where "io1 = io\<lparr>device := snd (snd rd), clock := Suc t\<rparr>"
          show ?thesis
          proof (cases "fst rd < 0")
            case True
            then have "r = Returned (False,
                  item\<lparr>errorMessage := ''Read error: '' @ lastError (snd (snd rd)), item_status := Failed\<rparr>,
                  io1, fs_remove (destPath item) (fs_close (destPath item) fs))"
              using run more nc Some w ns
              by (subst (asm) read_chunks.simps)
                 (simp add: Let_def rd_def toRead_def io1_def)
            then show ?thesis by (simp add: loop_returned_ok_def io_error_text_def)
          next
            case nn: False
            show ?thesis
            proof (cases "fst rd = 0")
              case True
              then have "r = Left_loop (item, io1, fs)"
                using run more nc Some w ns nn
                by (subst (asm) read_chunks.simps)
                   (simp add: Let_def rd_def toRead_def io1_def)
              then show ?thesis by (simp add: loop_left_ok_def io1_def)
            next
              case pos: False
              let ?buf = "fst (snd rd)"
              show ?thesis
              proof (cases "fst (fs_write (destPath item) ?buf fs) \<noteq> int (length ?buf)")
                case True
                then have "r = Returned (False,
                    item\<lparr>errorMessage := ''Write error: '' @ fs_errorString fs, item_status := Failed\<rparr>,
                    io1,
                    fs_remove (destPath item)
                      (fs_close (destPath item) (snd (fs_write (destPath item) ?buf fs))))"
                  using run more nc Some w ns nn pos
                  by (subst (asm) read_chunks.simps)
                     (simp add: Let_def rd_def toRead_def io1_def)
                then show ?thesis by (simp add: loop_returned_ok_def io_error_text_def)
              next
                case wrote: False
                let ?item = "item\<lparr>item_bytesTransferred := totalRead + fst rd\<rparr>"
                let ?io = "io1\<lparr>completedBytes := completedBytes io1 + fst rd,
                      progress := progress io1 @ [(totalRead + fst rd, expectedSize)]\<rparr>"
                let ?fs = "snd (fs_write (destPath item) ?buf fs)"
                have rec: "read_chunks env bsize expectedSize ?item ?io ?fs ?buf (totalRead + fst rd) = Some r"
                  using run more nc Some w ns nn pos wrote
                  by (subst (asm) read_chunks.simps)
                     (simp add: Let_def rd_def toRead_def io1_def)
                have ih: "case r of
                     Left_loop (item', io', fs') \<Rightarrow> loop_left_ok ?item ?io ?fs item' io' fs'
                   | Returned (ok, item', io', fs') \<Rightarrow> loop_returned_ok ?item ?fs ok item' fs'"
                  using "1.IH" [OF more nc Some w [symmetric] ns toRead_def rd_def refl refl refl _ nn pos _ rec]
                    wrote io1_def
                  by (simp add: rd_def toRead_def io1_def)
                show ?thesis
                proof (cases r)
                  case (Left_loop s)
                  obtain item' io' fs' where s: "s = (item', io', fs')" by (cases s)
                  show ?thesis using ih Left_loop s
                    by (auto simp: loop_left_ok_def io1_def)
                next
                  case (Returned s)
                  obtain ok item' io' fs' where s: "s = (ok, item', io', fs')" by (cases s)
                  show ?thesis using ih Returned s
                    by (auto simp: loop_returned_ok_def)
                qed
              qed
            qed
          qed
        qed
      qed
    qed
  qed
qed

lemma new_ops_append: "fs_ops fs' = fs_ops fs @ xs \<Longrightarrow> new_ops fs fs' = xs"
  by (simp add: new_ops_def)

lemma fs_file_close [simp]: "fs_file (fs_close p fs) q = fs_file fs q"
  by (simp add: fs_file_def fs_close_def)

lemma verifyFileHash_destPath [simp]:
  "destPath (snd (verifyFileHash env opts item fs)) = destPath item"
  by (simp add: verifyFileHash_def Let_def)

lemma verifyFileHash_not_io_error:
  "\<not> fst (verifyFileHash env opts item fs) \<Longrightarrow>
     item_status (snd (verifyFileHash env opts item fs)) = Failed \<and>
     \<not> io_error_text (errorMessage (snd (verifyFileHash env opts item fs)))"
  by (auto simp: verifyFileHash_def Let_def io_error_text_def)

lemma readFileFromTape_unfold:
  "readFileFromTape env item io fs =
     (let fsA = (if createDirectories (options io)
                 then snd (fs_mkpath (absolutePath (destPath item)) fs) else fs);
          fsB = snd (fs_open_truncate (destPath item) fsA)
      in
      if \<not> (createDirectories (options io) \<longrightarrow> mkpath_ok fs) then
        Some (False,
          item\<lparr>errorMessage := ''Failed to create directory'', item_status := Failed\<rparr>, io, fsA)
      else if \<not> open_ok fs then
        Some (False,
          item\<lparr>errorMessage := ''Failed to create destination file: '' @ fs_errorString fsB,
                item_status := Failed\<rparr>, io, fsB)
      else
        case read_chunks env (blockSize (options io)) (item_size item) item io fsB [] 0 of
          None \<Rightarrow> None
        | Some (Returned r) \<Rightarrow> Some r
        | Some (Left_loop (item2, io2, fs2)) \<Rightarrow>
            let fsC = fs_close (destPath item2) fs2 in
            if verifyAfterWrite (options io2) \<and> sourceHash item2 \<noteq> [] then
              (if fst (verifyFileHash env (options io2) item2 fsC)
               then Some (True,
                      (snd (verifyFileHash env (options io2) item2 fsC))\<lparr>item_status := Completed\<rparr>,
                      io2, fsC)
               else Some (False, snd (verifyFileHash env (options io2) item2 fsC), io2, fsC))
            else Some (True, item2\<lparr>item_status := Completed\<rparr>, io2, fsC))"
  by (cases "createDirectories (options io)")
     (auto simp: readFileFromTape_def split_def Let_def
        split: option.splits flow.splits prod.splits bool.splits)

lemma example_readBlock:
  "fst (readBlock [] 3 (example_device (\<lambda>n. reply_data [1, 2, 3] 0))) = 3"
  "fst (snd (readBlock [] 3 (example_device (\<lambda>n. reply_data [1, 2, 3] 0)))) = [1, 2, 3]"
  by (simp_all add: readBlock_def checkOpen_def isOpen_def scsi_read6_def reply_data_def eval_defs)

lemma example_readFile:
  "\<exists>io' fs'.
     readFile (example_env (\<lambda>t. False)) example_tape_file ''/restore/a.bin''
         (example_io True (\<lambda>n. reply_data [1, 2, 3] 0)) example_fs
       = Some (True, io', fs') \<and>
     fileSignals io' =
       [FileStarted
          \<lparr>sourcePath = ''a.bin'', destPath = ''/restore/a.bin'', relativePath = [],
           item_size = 3, item_status = InProgress, errorMessage = [],
           item_bytesTransferred = 0, sourceHash = [], destHash = [], hashVerified = False,
           isDirectory = False\<rparr>,
        FileCompleted
          \<lparr>sourcePath = ''a.bin'', destPath = ''/restore/a.bin'', relativePath = [],
           item_size = 3, item_status = Completed, errorMessage = [],
           item_bytesTransferred = 3, sourceHash = [], destHash = [], hashVerified = False,
           isDirectory = False\<rparr>] \<and>
     hashMode (options io') = XXH64 \<and>
     files fs' ''/restore/a.bin'' = Some [1, 2, 3]"
  apply (simp add: readFile_def readFile_item_def TransferItem_default_def example_tape_file_def
      readFileFromTape_unfold example_io_def example_env_def example_fs_def
      fs_mkpath_def fs_open_truncate_def absolutePath_def Let_def)
  apply (subst read_chunks.simps)
  apply (simp add: wait_not_paused example_readBlock fs_write_def Let_def)
  apply (subst read_chunks.simps)
  apply (simp add: fs_close_def)
  done

text \<open>
  The private function \<open>readFileFromTape\<close>, for any item handed to it. For
  every run that returns: the destination file is removed exactly when the item ends
  Cancelled or ends Failed with a tape-read or local-write error of the block loop.
  And when the destination could be created, the block loop ran to its end,
  \<open>verifyAfterWrite\<close> is set, the item has a source hash, and the hash of the
  destination file was computed and differs from it (letter case ignored), then the
  run fails, the item is Failed with the message \<open>Hash verification failed\<close>,
  which is neither of the I/O error messages, and the destination file is still
  there with the bytes read.
\<close>

lemma readFileFromTape_supplied_hash:
  assumes run: "readFileFromTape env item io fs = Some (ok, item', io', fs')"
  shows
    "(Remove (destPath item) \<in> set (new_ops fs fs') \<longleftrightarrow>
        item_status item' = Cancelled \<or>
        item_status item' = Failed \<and> io_error_text (errorMessage item')) \<and>
     ((createDirectories (options io) \<longrightarrow> mkpath_ok fs) \<and> open_ok fs \<and>
      read_phase env item io fs = Some (Left_loop (item1, io1, fs1)) \<and>
      verifyAfterWrite (options io) \<and> sourceHash item \<noteq> [] \<and>
      h = HashCalculator_hashFile (cryptographicHash env)
            (HashCalculator_new (hashMode (options io))) (fs_file fs1 (destPath item)) \<and>
      hash_success h \<and>
      \<not> equal_CaseInsensitive (sourceHash item) (hexString h)
      \<longrightarrow>
        \<not> ok \<and> item_status item' = Failed \<and>
        errorMessage item' = ''Hash verification failed'' \<and>
        \<not> io_error_text (errorMessage item') \<and>
        destHash item' = hexString h \<and> \<not> hashVerified item' \<and>
        files fs' (destPath item) = files fs1 (destPath item) \<and>
        files fs' (destPath item) \<noteq> None \<and>
        Remove (destPath item) \<notin> set (new_ops fs fs'))"
proof -
  let ?p = "destPath item"
  define fsA where
    "fsA = (if createDirectories (options io) then snd (fs_mkpath (absolutePath ?p) fs) else fs)"
  define fsB where "fsB = snd (fs_open_truncate ?p fsA)"
  have opsA: "\<exists>xs. fs_ops fsA = fs_ops fs @ xs \<and> (\<forall>q. Remove q \<notin> set xs)"
    by (simp add: fsA_def)
  have opsB: "\<exists>xs. fs_ops fsB = fs_ops fs @ xs \<and> (\<forall>q. Remove q \<notin> set xs)"
    using opsA by (auto simp: fsB_def)
  have dirOk: "fst (if createDirectories (options io) then fs_mkpath (absolutePath ?p) fs else (True, fs))
      = (createDirectories (options io) \<longrightarrow> mkpath_ok fs)" by simp
  have phase: "read_phase env item io fs
      = read_chunks env (blockSize (options io)) (item_size item) item io fsB [] 0"
    by (simp add: read_phase_def fsA_def fsB_def Let_def)
  show ?thesis
  proof (cases "createDirectories (options io) \<longrightarrow> mkpath_ok fs")
    case False
    then have "ok = False \<and> item' = item\<lparr>errorMessage := ''Failed to create directory'', item_status := Failed\<rparr>
        \<and> fs' = fsA"
      using run by (auto simp: readFileFromTape_unfold Let_def fsA_def)
    then show ?thesis
      using False opsA by (auto simp: io_error_text_def dest!: new_ops_append)
  next
    case dir: True
    show ?thesis
    proof (cases "open_ok fs")
      case False
      then have oA: "\<not> open_ok fsA" by (simp add: fsA_def)
      then have "ok = False \<and> item' = item\<lparr>errorMessage :=
            ''Failed to create destination file: '' @ fs_errorString fsB, item_status := Failed\<rparr>
          \<and> fs' = fsB"
        using run dir by (auto simp: readFileFromTape_unfold Let_def fsA_def fsB_def)
      then show ?thesis
        using False opsB by (auto simp: io_error_text_def dest!: new_ops_append)
    next
      case opn: True
      then have oA: "open_ok fsA" by (simp add: fsA_def)
      have present: "files fsB ?p \<noteq> None" using oA by (simp add: fsB_def)
      show ?thesis
      proof (cases "read_chunks env (blockSize (options io)) (item_size item) item io fsB [] 0")
        case None
        then show ?thesis
          using run dir opn by (simp add: readFileFromTape_unfold Let_def fsA_def fsB_def)
      next
        case (Some r)
        note res = read_chunks_result [OF Some]
        show ?thesis
        proof (cases r)
          case (Returned s)
          obtain ok2 item2 io2 fs2 where s: "s = (ok2, item2, io2, fs2)" by (cases s)
          have eq: "ok = ok2 \<and> item' = item2 \<and> io' = io2 \<and> fs' = fs2"
            using run dir opn Some Returned s
            by (simp add: readFileFromTape_unfold Let_def fsA_def fsB_def)
          have lr: "loop_returned_ok item fsB ok2 item2 fs2" using res Returned s by simp
          then obtain xs where xs: "fs_ops fs2 = fs_ops fsB @ xs" "Remove ?p \<in> set xs"
            by (auto simp: loop_returned_ok_def)
          from opsB obtain ys where ys: "fs_ops fsB = fs_ops fs @ ys" by blast
          have "fs_ops fs2 = fs_ops fs @ (ys @ xs)" using xs ys by simp
          from new_ops_append [OF this] xs(2) have rm: "Remove ?p \<in> set (new_ops fs fs2)" by simp
          show ?thesis
            using eq lr rm phase Some Returned by (auto simp: loop_returned_ok_def)
        next
          case (Left_loop s)
          obtain item2 io2 fs2 where s: "s = (item2, io2, fs2)" by (cases s)
          have ll: "loop_left_ok item io fsB item2 io2 fs2" using res Left_loop s by simp
          then obtain xs where xs: "fs_ops fs2 = fs_ops fsB @ xs" "\<forall>q. Remove q \<notin> set xs"
            by (auto simp: loop_left_ok_def)
          from opsB obtain ys where ys: "fs_ops fsB = fs_ops fs @ ys" "\<forall>q. Remove q \<notin> set ys"
            by blast
          let ?fs = "fs_close (destPath item2) fs2"
          have dp: "destPath item2 = ?p" "sourceHash item2 = sourceHash item" "options io2 = options io"
            using ll by (simp_all add: loop_left_ok_def)
          have pres2: "files fs2 ?p \<noteq> None" using ll present by (simp add: loop_left_ok_def)
          have "fs_ops ?fs = fs_ops fs @ (ys @ xs @ [Close ?p])" using xs ys dp by simp
          from new_ops_append [OF this] xs(2) ys(2)
          have norm: "Remove ?p \<notin> set (new_ops fs ?fs)" by simp
          have i1: "item1 = item2 \<and> io1 = io2 \<and> fs1 = fs2"
            if "read_phase env item io fs = Some (Left_loop (item1, io1, fs1))"
            using that phase Some Left_loop s by simp
          show ?thesis
          proof (cases "verifyAfterWrite (options io) \<and> sourceHash item \<noteq> []")
            case False
            then have "ok = True \<and> item' = item2\<lparr>item_status := Completed\<rparr> \<and> fs' = ?fs"
              using run dir opn Some Left_loop s dp
              by (auto simp: readFileFromTape_unfold Let_def fsA_def fsB_def)
            then show ?thesis using norm False by auto
          next
            case vf: True
            let ?v = "verifyFileHash env (options io2) item2 ?fs"
            have r2: "ok = fst ?v \<and> fs' = ?fs \<and>
                item' = (if fst ?v then (snd ?v)\<lparr>item_status := Completed\<rparr> else snd ?v)"
              using run dir opn Some Left_loop s dp vf
              by (auto simp: readFileFromTape_unfold Let_def fsA_def fsB_def)
            have first: "Remove ?p \<in> set (new_ops fs fs') \<longleftrightarrow>
                item_status item' = Cancelled \<or>
                item_status item' = Failed \<and> io_error_text (errorMessage item')"
              using r2 norm verifyFileHash_not_io_error [of env "options io2" item2 ?fs]
              by (cases "fst ?v") auto
            have second: "\<not> ok \<and> item_status item' = Failed \<and>
                errorMessage item' = ''Hash verification failed'' \<and>
                \<not> io_error_text (errorMessage item') \<and>
                destHash item' = hexString h \<and> \<not> hashVerified item' \<and>
                files fs' ?p = files fs1 ?p \<and> files fs' ?p \<noteq> None \<and>
                Remove ?p \<notin> set (new_ops fs fs')"
              if a: "read_phase env item io fs = Some (Left_loop (item1, io1, fs1))"
                and b: "h = HashCalculator_hashFile (cryptographicHash env)
                    (HashCalculator_new (hashMode (options io))) (fs_file fs1 ?p)"
                  "hash_success h"
                  "\<not> equal_CaseInsensitive (sourceHash item) (hexString h)"
            proof -
              have e: "fs1 = fs2" using i1 [OF a] by simp
              obtain bytes where bys: "files fs2 ?p = Some bytes" using pres2 by auto
              have v: "?v = (False, item2\<lparr>destHash := hexString h, hashVerified := False,
                    errorMessage := ''Hash verification failed'', item_status := Failed\<rparr>)"
                using b e bys dp
                by (simp add: verifyFileHash_def Let_def)
              show ?thesis using r2 v norm e bys dp
                by (simp add: io_error_text_def)
            qed
            show ?thesis using first second by blast
          qed
        qed
      qed
    qed
  qed
qed

subsection \<open>Reading through \<open>readFile\<close>\<close>

lemma xxh64_example:
  "hexString (HashCalculator_hashFile qt (HashCalculator_new XXH64)
      \<lparr>src_openable = True, src_bytes = [1, 2, 3], src_pos = 0, src_bad = None,
       src_error = False, src_errorString = e\<rparr>)
     = ''743e13ee0c4ee5a5''"
proof -
  have x: "XXHash64_finalize (XXHash64_update [1, 2, 3] (XXHash64_reset (XXHash64_new 0)))
      = 0x743e13ee0c4ee5a5"
    by (simp add: XXHash64_finalize_def XXHash64_update_def XXHash64_new_def XXHash64_reset_def
        finalize8.simps finalize4.simps rotl64_def PRIME1_def PRIME2_def PRIME3_def PRIME4_def
        PRIME5_def Let_def)
  have h: "arg_hex16 0x743e13ee0c4ee5a5 = ''743e13ee0c4ee5a5''"
    by (simp add: arg_hex16_def Let_def digits.simps digit_char_def)
  show ?thesis
    apply (simp add: HashCalculator_hashFile_def HashCalculator_new_def createHasher_def
        calc_reset_def Let_def)
    apply (subst hash_chunks.simps)
    apply (simp add: atEnd_def file_read_def BUFFER_SIZE_def Let_def addData_def)
    apply (subst hash_chunks.simps)
    apply (simp add: atEnd_def getResult_def Let_def x h)
    done
qed

lemma readFile_ignores_attributes:
  "readFile env (tapeFile\<lparr>file_extendedAttributes := attrs\<rparr>) path io fs
     = readFile env tapeFile path io fs"
  by (simp add: readFile_def readFile_item_def)

text \<open>
  Claim C7 says that a file read back from tape whose supplied source hash does not
  match the hash of the completed destination file ends Failed with an integrity
  error. \<open>readFileFromTape\<close> is private and \<open>readFile\<close> is its only caller;
  the item \<open>readFile\<close> builds has no source hash (only \<open>writeFileToTape\<close>
  ever sets one), so the test \<open>verifyAfterWrite && !sourceHash.isEmpty()\<close> fails
  and no hash is taken or compared. In the example \<open>verifyAfterWrite\<close> is set, the
  file of the index carries the stored hash \<open>00000000000000aa\<close>, and the three
  bytes read from tape have the XXH64 digest \<open>743e13ee0c4ee5a5\<close>: \<open>readFile\<close>
  returns \<open>true\<close>, the signals are \<open>fileStarted\<close> and \<open>fileCompleted\<close>, and
  the item is Completed with no error message, no destination hash and
  \<open>hashVerified\<close> false.
\<close>

theorem readFile_completes_on_hash_mismatch:
  "verifyAfterWrite (options (example_io True (\<lambda>n. reply_data [1, 2, 3] 0))) \<and>
   map ea_value (file_extendedAttributes example_tape_file) = [''00000000000000aa''] \<and>
   restored_hash (example_env (\<lambda>t. False)) ''/restore/a.bin''
       (readFile (example_env (\<lambda>t. False)) example_tape_file ''/restore/a.bin''
          (example_io True (\<lambda>n. reply_data [1, 2, 3] 0)) example_fs)
     = Some ''743e13ee0c4ee5a5'' \<and>
   read_outcome ''/restore/a.bin''
       (readFile (example_env (\<lambda>t. False)) example_tape_file ''/restore/a.bin''
          (example_io True (\<lambda>n. reply_data [1, 2, 3] 0)) example_fs)
     = Some (True,
         [FileStarted
            \<lparr>sourcePath = ''a.bin'', destPath = ''/restore/a.bin'', relativePath = [],
             item_size = 3, item_status = InProgress, errorMessage = [],
             item_bytesTransferred = 0, sourceHash = [], destHash = [], hashVerified = False,
             isDirectory = False\<rparr>,
          FileCompleted
            \<lparr>sourcePath = ''a.bin'', destPath = ''/restore/a.bin'', relativePath = [],
             item_size = 3, item_status = Completed, errorMessage = [],
             item_bytesTransferred = 3, sourceHash = [], destHash = [], hashVerified = False,
             isDirectory = False\<rparr>],
         Some [1, 2, 3])"
proof -
  from example_readFile obtain io' fs' where r:
    "readFile (example_env (\<lambda>t. False)) example_tape_file ''/restore/a.bin''
         (example_io True (\<lambda>n. reply_data [1, 2, 3] 0)) example_fs
       = Some (True, io', fs')"
    "fileSignals io' =
       [FileStarted
          \<lparr>sourcePath = ''a.bin'', destPath = ''/restore/a.bin'', relativePath = [],
           item_size = 3, item_status = InProgress, errorMessage = [],
           item_bytesTransferred = 0, sourceHash = [], destHash = [], hashVerified = False,
           isDirectory = False\<rparr>,
        FileCompleted
          \<lparr>sourcePath = ''a.bin'', destPath = ''/restore/a.bin'', relativePath = [],
           item_size = 3, item_status = Completed, errorMessage = [],
           item_bytesTransferred = 3, sourceHash = [], destHash = [], hashVerified = False,
           isDirectory = False\<rparr>]"
    "hashMode (options io') = XXH64"
    "files fs' ''/restore/a.bin'' = Some [1, 2, 3]"
    by blast
  have a: "verifyAfterWrite (options (example_io True (\<lambda>n. reply_data [1, 2, 3] 0)))"
    by (simp add: example_io_def)
  have b: "map ea_value (file_extendedAttributes example_tape_file) = [''00000000000000aa'']"
    by (simp add: example_tape_file_def)
  have c: "restored_hash (example_env (\<lambda>t. False)) ''/restore/a.bin'' (Some (True, io', fs'))
      = Some ''743e13ee0c4ee5a5''"
    using r(3,4) by (simp add: restored_hash_def fs_file_def xxh64_example)
  have d: "read_outcome ''/restore/a.bin'' (Some (True, io', fs'))
      = Some (True, fileSignals io', Some [1, 2, 3])"
    using r(4) by (simp add: read_outcome_def)
  show ?thesis
    unfolding r(1) c d r(2) using a b by simp
qed

section \<open>Block manager (io/BlockManager)\<close>

text \<open>The three class constants of \<open>BlockManager\<close> (BlockManager.h).\<close>

definition DEFAULT_BLOCK_SIZE :: u32 where
  "DEFAULT_BLOCK_SIZE = 512 * 1024"

definition MAX_BLOCK_SIZE :: u32 where
  "MAX_BLOCK_SIZE = 4 * 1024 * 1024"

definition MIN_BLOCK_SIZE :: u32 where
  "MIN_BLOCK_SIZE = 4 * 1024"

text \<open>
  \<open>BlockManager::isValidBlockSize\<close>: the range test first, then the bit test
  \<open>(size & (size - 1)) == 0\<close>, then the remainder test. All arithmetic is
  \<open>uint32_t\<close>.
\<close>

definition isValidBlockSize :: "u32 \<Rightarrow> bool" where
  "isValidBlockSize sz =
     (if sz < MIN_BLOCK_SIZE \<or> sz > MAX_BLOCK_SIZE then False
      else if sz AND (sz - 1) = 0 then True
      else sz mod MIN_BLOCK_SIZE = 0)"

text \<open>
  The part of the \<open>BlockManager\<close> object that \<open>setBlockSize\<close> touches. The mutex
  only serialises the assignment and is not modelled.
\<close>

record BlockManager =
  m_blockSize :: u32

text \<open>\<open>BlockManager::setBlockSize\<close> returns the flag and the object after the call.\<close>

definition setBlockSize :: "u32 \<Rightarrow> BlockManager \<Rightarrow> bool \<times> BlockManager" where
  "setBlockSize sz bm =
     (if \<not> isValidBlockSize sz then (False, bm)
      else (True, bm\<lparr>m_blockSize := sz\<rparr>))"

text \<open>What the specification calls a power of two, read on the unsigned value.\<close>

definition power_of_two :: "u32 \<Rightarrow> bool" where
  "power_of_two w = (\<exists>k. unat w = 2 ^ k)"

section \<open>Properties of the block manager\<close>

lemma nat_and_pred_pow2:
  fixes n :: nat
  shows "0 < n \<Longrightarrow> n AND (n - 1) = 0 \<Longrightarrow> \<exists>k. n = 2 ^ k"
proof (induction n rule: less_induct)
  case (less n)
  show ?case
  proof (cases "even n")
    case True
    then obtain m where m: "n = 2 * m" by (elim evenE)
    with less.prems have m0: "0 < m" by simp
    have d: "(n - 1) div 2 = m - 1" using m m0 by auto
    have "n AND (n - 1) = 2 * (m AND (m - 1))"
      using m m0 d by (subst and_nat_unfold) simp
    with less.prems have "m AND (m - 1) = 0" by simp
    moreover have "m < n" using m m0 by simp
    ultimately obtain k where "m = 2 ^ k" using less.IH m0 by blast
    then have "n = 2 ^ Suc k" using m by simp
    then show ?thesis by blast
  next
    case False
    then obtain m where m: "n = 2 * m + 1" by (elim oddE)
    have "n AND (n - 1) = 2 * m"
      using m by (subst and_nat_unfold) simp
    with less.prems have "m = 0" by simp
    then have "n = 2 ^ 0" using m by simp
    then show ?thesis by blast
  qed
qed

lemma word_and_pred_pow2:
  fixes w :: u32
  assumes "w \<noteq> 0" "w AND (w - 1) = 0"
  shows "\<exists>k. unat w = 2 ^ k"
proof -
  have p: "0 < unat w" using assms(1) by (simp add: unat_gt_0)
  have "unat (w - 1) = unat w - 1" using assms(1) by (simp add: unat_minus_one)
  then have "unat w AND (unat w - 1) = unat (w AND (w - 1))"
    by (simp add: unsigned_and_eq)
  also have "\<dots> = 0" using assms(2) by simp
  finally show ?thesis using nat_and_pred_pow2 [OF p] by blast
qed

lemma pow2_multiple_4k:
  fixes k :: nat
  assumes "4096 \<le> (2::nat) ^ k"
  shows "(2::nat) ^ k mod 4096 = 0"
proof -
  have "12 \<le> k"
  proof (rule ccontr)
    assume "\<not> 12 \<le> k"
    then have "k \<le> 11" by simp
    then have "(2::nat) ^ k \<le> 2 ^ 11" by (rule power_increasing) simp
    with assms show False by simp
  qed
  then obtain j where "k = 12 + j" using le_Suc_ex by blast
  then show ?thesis by (simp add: power_add)
qed

lemma isValidBlockSize_iff:
  "isValidBlockSize sz \<longleftrightarrow>
     (4096 \<le> unat sz \<and> unat sz \<le> 4194304 \<and> (power_of_two sz \<or> unat sz mod 4096 = 0))"
proof -
  have lo: "sz < MIN_BLOCK_SIZE \<longleftrightarrow> unat sz < 4096"
    by (simp add: MIN_BLOCK_SIZE_def word_less_nat_alt)
  have hi: "sz > MAX_BLOCK_SIZE \<longleftrightarrow> 4194304 < unat sz"
    by (simp add: MAX_BLOCK_SIZE_def word_less_nat_alt)
  have md: "sz mod MIN_BLOCK_SIZE = 0 \<longleftrightarrow> unat sz mod 4096 = 0"
    by (simp add: MIN_BLOCK_SIZE_def unat_eq_0 [symmetric] unat_mod del: unat_eq_0)
  show ?thesis
  proof (cases "4096 \<le> unat sz \<and> unat sz \<le> 4194304")
    case False
    then show ?thesis by (auto simp: isValidBlockSize_def lo hi)
  next
    case True
    then have nz: "sz \<noteq> 0" by auto
    show ?thesis
    proof (cases "sz AND (sz - 1) = 0")
      case z: True
      from word_and_pred_pow2 [OF nz z] show ?thesis
        using True z by (auto simp: isValidBlockSize_def power_of_two_def lo hi)
    next
      case nzb: False
      have "(\<exists>k. unat sz = 2 ^ k) \<Longrightarrow> unat sz mod 4096 = 0"
        using pow2_multiple_4k True by auto
      then show ?thesis
        using True nzb by (auto simp: isValidBlockSize_def power_of_two_def lo hi md)
    qed
  qed
qed

text \<open>
  Claim C8. \<open>setBlockSize\<close> accepts a size exactly when it lies in
  \<open>[4 KiB, 4 MiB]\<close> and is a power of two or a multiple of 4 KiB; an accepted
  size is stored, and for every other size the call returns \<open>false\<close> and the
  object, with its stored block size, is the one before the call.
\<close>

theorem setBlockSize_accepts_iff:
  "setBlockSize sz bm =
     (if 4096 \<le> unat sz \<and> unat sz \<le> 4194304 \<and>
         (power_of_two sz \<or> unat sz mod 4096 = 0)
      then (True, bm\<lparr>m_blockSize := sz\<rparr>)
      else (False, bm))"
  unfolding setBlockSize_def isValidBlockSize_iff by simp

theorem setBlockSize_accepts_iff_witness:
  "setBlockSize 12288 \<lparr>m_blockSize = 524288\<rparr> = (True, \<lparr>m_blockSize = 12288\<rparr>) \<and>
   setBlockSize 65536 \<lparr>m_blockSize = 524288\<rparr> = (True, \<lparr>m_blockSize = 65536\<rparr>) \<and>
   setBlockSize 6000 \<lparr>m_blockSize = 524288\<rparr> = (False, \<lparr>m_blockSize = 524288\<rparr>) \<and>
   setBlockSize 2048 \<lparr>m_blockSize = 524288\<rparr> = (False, \<lparr>m_blockSize = 524288\<rparr>) \<and>
   setBlockSize 8388608 \<lparr>m_blockSize = 524288\<rparr> = (False, \<lparr>m_blockSize = 524288\<rparr>)"
proof -
  have p16: "power_of_two (65536 :: u32)"
    unfolding power_of_two_def by (rule exI [of _ 16]) simp
  have n6000: "\<not> power_of_two (6000 :: u32)"
  proof
    assume "power_of_two (6000 :: u32)"
    then obtain k where k: "(6000::nat) = 2 ^ k" by (auto simp: power_of_two_def)
    have "4096 \<le> (2::nat) ^ k" using k by simp
    from pow2_multiple_4k [OF this] k show False by simp
  qed
  show ?thesis
    using setBlockSize_accepts_iff [of 12288 "\<lparr>m_blockSize = 524288\<rparr>"]
      setBlockSize_accepts_iff [of 65536 "\<lparr>m_blockSize = 524288\<rparr>"]
      setBlockSize_accepts_iff [of 6000 "\<lparr>m_blockSize = 524288\<rparr>"]
      setBlockSize_accepts_iff [of 2048 "\<lparr>m_blockSize = 524288\<rparr>"]
      setBlockSize_accepts_iff [of 8388608 "\<lparr>m_blockSize = 524288\<rparr>"]
      p16 n6000
    by simp
qed

end
